(* ===== verification/Prelude.thy ===== *)
theory Prelude
  imports Main "HOL-Library.Word"
begin

text \<open>
  Shared vocabulary of the development: names for the fixed-width integer types of the C++
  sources, the error monad in which a fatal error of the VM ends a computation, the theorem
  collections that carry the component proofs, and generic facts about words, lists and
  optional values that several components use.

  Signed and unsigned integers of one width share one word type; an operation that depends on
  the sign says so (\<open>sint\<close>, \<open><s\<close>, \<open>signed_drop_bit\<close>).
\<close>

unbundle bit_operations_syntax

type_synonym u8 = "8 word"
type_synonym u16 = "16 word"
type_synonym u32 = "32 word"
type_synonym i32 = "32 word"
type_synonym u64 = "64 word"
type_synonym i64 = "64 word"
type_synonym uword = "64 word"

named_theorems field_simps_arm64 \<open>reading instruction fields of an encoded instruction\<close>
named_theorems sim_defs \<open>definitions of the simulator's helper operations\<close>
named_theorems frame_simps \<open>what an operation leaves unchanged\<close>
named_theorems stream_simps \<open>reading back what was written to a stream\<close>

section \<open>Computations that may end in a fatal error\<close>

definition bindE :: "'e + 'a \<Rightarrow> ('a \<Rightarrow> 'e + 'b) \<Rightarrow> 'e + 'b" where
  "bindE m f = (case m of Inl e \<Rightarrow> Inl e | Inr x \<Rightarrow> f x)"

lemma bindE_simps [simp]:
  "bindE (Inl e) f = Inl e"
  "bindE (Inr x) f = f x"
  by (simp_all add: bindE_def)

lemma bindE_Inr_iff: "bindE m f = Inr y \<longleftrightarrow> (\<exists>x. m = Inr x \<and> f x = Inr y)"
  by (cases m) auto

lemma bindE_Inl_iff: "bindE m f = Inl e \<longleftrightarrow> m = Inl e \<or> (\<exists>x. m = Inr x \<and> f x = Inl e)"
  by (cases m) auto

lemma bindE_assoc: "bindE (bindE m f) g = bindE m (\<lambda>x. bindE (f x) g)"
  by (cases m) simp_all

lemma bindE_InrE [elim!]:
  assumes "bindE m f = Inr y"
  obtains x where "m = Inr x" and "f x = Inr y"
  using assms by (auto simp: bindE_Inr_iff)

section \<open>Words\<close>

lemma mask_word_eq: "push_bit n (1 :: 'a::len word) - 1 = mask n"
  by (simp add: mask_eq_exp_minus_1 push_bit_eq_mult)

lemma and_mask_word: "(w :: 'a::len word) AND (push_bit n 1 - 1) = take_bit n w"
  by (simp only: mask_word_eq take_bit_eq_mask)

lemma take_bit_signed_drop_bit:
  fixes w :: "'a::len word"
  assumes "m + n \<le> LENGTH('a)"
  shows "take_bit n (signed_drop_bit m w) = take_bit n (drop_bit m w)"
proof (rule bit_word_eqI)
  fix k
  assume "k < LENGTH('a)"
  then show "bit (take_bit n (signed_drop_bit m w)) k = bit (take_bit n (drop_bit m w)) k"
    using assms
    by (auto simp: bit_take_bit_iff bit_drop_bit_eq bit_signed_drop_bit_iff)
qed

lemma sint_uint_if:
  "sint (w :: 'a::len word) = (if bit w (LENGTH('a) - 1) then uint w - 2 ^ LENGTH('a) else uint w)"
proof -
  have "sint w = signed_take_bit (LENGTH('a) - 1) (uint w)"
    by (simp add: sint_uint)
  also have "\<dots> = uint w - (if bit w (LENGTH('a) - 1) then 2 ^ LENGTH('a) else 0)"
    by (simp add: signed_take_bit_eq_take_bit_minus bit_uint_iff take_bit_int_eq_self)
  finally show ?thesis by simp
qed

lemma uint_minus_if: "uint (- w :: 'a::len word) = (if w = 0 then 0 else 2 ^ LENGTH('a) - uint w)"
  by (simp add: uint_word_ariths zmod_zminus1_eq_if uint_0_iff)

lemma unat_pow2: "n < LENGTH('a) \<Longrightarrow> unat (2 ^ n :: 'a::len word) = 2 ^ n"
  using unat_of_nat [of "2 ^ n", where ?'a = 'a] by simp

lemma signed_take_bit_id: "- (2 ^ 63) \<le> k \<Longrightarrow> k < 2 ^ 63 \<Longrightarrow> signed_take_bit 63 (k::int) = k"
  by (rule signed_take_bit_int_eq_self) auto

lemma sint_range64: "- (2 ^ 63) \<le> sint (w :: i64)" "sint (w :: i64) < 2 ^ 63"
  using sint_ge [of w] sint_lt [of w] by simp_all

lemma sint_add64: "sint (a + b :: i64) = signed_take_bit 63 (sint a + sint b)"
  by (simp add: sint_word_ariths)

lemma sint_sub64: "sint (a - b :: i64) = signed_take_bit 63 (sint a - sint b)"
  by (simp add: sint_word_ariths)

lemma word_top_bit:
  fixes x :: "'a::len word"
  assumes "x \<noteq> 0"
  obtains k where "k < LENGTH('a)" "bit x k" "\<And>j. k < j \<Longrightarrow> \<not> bit x j" "2 ^ k \<le> unat x" "unat x < 2 ^ Suc k"
proof -
  define k where "k = Max {j. bit x j}"
  have fin: "finite {j. bit x j}"
    by (rule finite_subset [of _ "{..<LENGTH('a)}"]) (auto dest: bit_imp_le_length)
  have ne: "{j. bit x j} \<noteq> {}"
    using assms by (auto simp: bit_eq_iff)
  have k: "bit x k" using Max_in [OF fin ne] by (simp add: k_def)
  have above: "\<not> bit x j" if "k < j" for j
    using Max_ge [OF fin, of j] that unfolding k_def by (metis leD mem_Collect_eq)
  have kl: "k < LENGTH('a)" using bit_imp_le_length [OF k] by simp
  have bu: "bit (unat x) j = bit x j" for j
    by (simp add: bit_unsigned_iff)
  have "take_bit (Suc k) (unat x) = unat x"
    by (rule bit_eqI) (use above in \<open>auto simp: bit_take_bit_iff bu not_less [symmetric] intro: ccontr\<close>)
  then have 1: "unat x < 2 ^ Suc k"
    by (metis take_bit_nat_less_exp)
  have 2: "2 ^ k \<le> unat x"
    using k by (metis bit_nat_iff bu bot_nat_0.extremum_unique div_eq_0_iff even_zero leI bit_iff_odd)
  show thesis by (rule that [OF kl k above 2 1])
qed

lemma and_minus_pow2:
  fixes x :: "'a::len word"
  shows "x AND - (2 ^ k) = push_bit k (drop_bit k x)"
  by (rule bit_word_eqI) (auto simp: bit_simps minus_exp_eq_not_mask not_less)

lemma and_0x7f: "(w :: 'a::len word) AND 0x7f = take_bit 7 w"
  by (simp add: take_bit_eq_mask mask_eq_exp_minus_1)

lemma and_0x40: "(p :: u8) AND 0x40 = 0 \<longleftrightarrow> \<not> bit p 6"
  using and_exp_eq_0_iff_not_bit [of p 6] by simp

lemma and_0x80: "(p :: u8) AND 0x80 = 0 \<longleftrightarrow> \<not> bit p 7"
  using and_exp_eq_0_iff_not_bit [of p 7] by simp

section \<open>Words of 32 and 64 bits\<close>

lemma unat_minus_one_word64: "unat (- 1 :: 64 word) = 2 ^ 64 - 1"
  by (simp add: unsigned_minus_1_eq_mask mask_eq_exp_minus_1)

lemma u64_range: "0 \<le> uint (x :: 64 word)" "uint x < 2 ^ 64"
  using unsigned_less [of x, where ?'a = int] by simp_all

lemma sint_of_int64: "- (2 ^ 63) \<le> v \<Longrightarrow> v < 2 ^ 63 \<Longrightarrow> sint (word_of_int v :: 64 word) = v"
  by transfer (simp add: signed_take_bit_int_eq_self)

lemma top_bit64: "bit (x :: 64 word) 63 \<longleftrightarrow> 2 ^ 63 \<le> uint x"
  using unsigned_less [of x, where ?'a = int] sint_range64 [of x] by (auto simp: sint_uint_if split: if_splits)

lemma signed_drop_bit_63: "signed_drop_bit 63 (x :: 64 word) = (if bit x 63 then - 1 else 0)"
proof (rule bit_word_eqI)
  fix n assume "n < LENGTH(64)"
  then show "bit (signed_drop_bit 63 x) n \<longleftrightarrow> bit (if bit x 63 then - 1 else 0 :: 64 word) n"
    by (cases n) (auto simp: bit_signed_drop_bit_iff)
qed

lemma mod_once:
  assumes "0 \<le> x" and "x < 2 * m"
  shows "(x :: int) mod m = (if x < m then x else x - m)"
proof (cases "x < m")
  case False
  have "x mod m = (x - m) mod m" by simp
  also have "\<dots> = x - m" using False assms by (intro mod_pos_pos_trivial) linarith+
  finally show ?thesis using False by simp
qed (use assms in simp)

lemma uint_add_carry:
  fixes l r c :: i64
  assumes "uint c \<le> 1"
  shows "uint (l + r + c) = (if uint l + uint r + uint c < 2 ^ 64 then uint l + uint r + uint c
                             else uint l + uint r + uint c - 2 ^ 64)"
proof -
  have "uint (l + r + c) = (uint l + uint r + uint c) mod 2 ^ 64"
    by (simp add: uint_word_ariths mod_simps)
  also have "\<dots> = (if uint l + uint r + uint c < 2 ^ 64 then uint l + uint r + uint c
                             else uint l + uint r + uint c - 2 ^ 64)"
    by (rule mod_once)
      (use assms unsigned_less [of l, where ?'a = int] unsigned_less [of r, where ?'a = int] in simp_all)
  finally show ?thesis .
qed

lemma sint_top64: "sint (x :: i64) = (if 2 ^ 63 \<le> uint x then uint x - 2 ^ 64 else uint x)"
  by (simp add: sint_uint_if top_bit64 del: bit_uint_iff)

text \<open>The arithmetic behind the flags, for a carry-in \<open>C\<close> and a sign bit of weight \<open>T\<close>.\<close>

lemma carry_arith:
  fixes L R C A T N :: int
  assumes "N = 2 * T" "0 \<le> L" "L < N" "0 \<le> R" "R < N" "0 \<le> C" "C \<le> 1"
    and "A = (if L + R + C < N then L + R + C else L + R + C - N)"
  shows "(T \<le> L \<and> T \<le> R) \<or> ((T \<le> L \<or> T \<le> R) \<and> \<not> T \<le> A) \<longleftrightarrow> N \<le> L + R + C"
  using assms by (cases "T \<le> L"; cases "T \<le> R"; cases "L + R + C < 2 * T") auto

lemma overflow_arith:
  fixes L R C A T N :: int
  assumes "N = 2 * T" "0 \<le> L" "L < N" "0 \<le> R" "R < N" "0 \<le> C" "C \<le> 1"
    and "A = (if L + R + C < N then L + R + C else L + R + C - N)"
  shows "((T \<le> A) \<noteq> (T \<le> L) \<and> (T \<le> A) \<noteq> (T \<le> R)) \<longleftrightarrow>
     \<not> (- T \<le> (if T \<le> L then L - N else L) + (if T \<le> R then R - N else R) + C
        \<and> (if T \<le> L then L - N else L) + (if T \<le> R then R - N else R) + C < T)"
  using assms by (cases "T \<le> L"; cases "T \<le> R"; cases "L + R + C < 2 * T") auto

lemma uint_not64: "uint (NOT x :: i64) = 2 ^ 64 - 1 - uint x"
  using u64_range [of x]
  by (simp add: unsigned_not_eq take_bit_not_eq_mask_diff mask_eq_exp_minus_1 take_bit_int_eq_self)

lemma sint_not64: "sint (NOT x :: i64) = - sint x - 1"
  using u64_range [of x] by (simp add: sint_top64 uint_not64)

lemma u32_range: "0 \<le> uint (x :: 32 word)" "uint x < 2 ^ 32"
  using unsigned_less [of x, where ?'a = int] by simp_all

lemma sint_range32: "- (2 ^ 31) \<le> sint (x :: 32 word)" "sint x < 2 ^ 31"
  using sint_greater_eq [of x] sint_less [of x] by simp_all

lemma drop_bit_32_eq_0: "drop_bit 32 (w :: u64) = 0 \<longleftrightarrow> uint w < 2 ^ 32"
proof -
  have "uint (drop_bit 32 w) = uint w div 2 ^ 32"
    using u64_range [of w] unfolding unsigned_drop_bit_eq by (simp add: take_bit_int_eq_self drop_bit_eq_div)
  then have "drop_bit 32 w = 0 \<longleftrightarrow> uint w div 2 ^ 32 = 0" by (metis uint_0_iff)
  also have "\<dots> \<longleftrightarrow> uint w < 2 ^ 32" using u64_range [of w] by (auto simp: zdiv_eq_0_iff)
  finally show ?thesis .
qed

lemma uint_ucast_32_64: "uint (ucast (x :: u32) :: u64) = uint x"
  using u32_range [of x] by (simp add: unsigned_ucast_eq take_bit_int_eq_self)

lemma sint_scast_32_64: "sint (scast (x :: i32) :: i64) = sint x"
  using sint_range32 [of x] by (simp add: signed_scast_eq signed_take_bit_id)

lemma div_between:
  fixes x b q :: int
  assumes "q * b \<le> x" and "x < q * b + b"
  shows "x div b = q"
  by (rule int_div_pos_eq [where r = "x - q * b"]) (use assms in \<open>simp_all add: mult.commute\<close>)

lemma halves_differ:
  fixes x T N :: int
  assumes "N = 2 * T" "0 < T" "- 3 * T \<le> x" "x < 3 * T"
  shows "x div T = x div N \<longleftrightarrow> - T \<le> x \<and> x < T"
proof -
  have "x div T = (if x < - 2 * T then - 3 else if x < - T then - 2 else if x < 0 then - 1
      else if x < T then 0 else if x < 2 * T then 1 else 2)"
    using assms by (auto intro!: div_between)
  moreover have "x div N = (if x < - 2 * T then - 2 else if x < 0 then - 1 else if x < 2 * T then 0 else 1)"
    using assms by (auto intro!: div_between)
  ultimately show ?thesis using assms by (auto split: if_splits)
qed

lemma unat_of_nat_small: "x < 2 ^ 64 \<Longrightarrow> unat (of_nat x :: u64) = x"
  by (simp add: unat_of_nat take_bit_nat_eq_self)

end
