(* ===== verification/Utils.thy ===== *)
theory Utils
  imports Prelude
begin

text \<open>
  The arithmetic helpers of \<^verbatim>\<open>runtime/platform/utils.h\<close> and \<^verbatim>\<open>utils.cc\<close> that the rest of
  the VM is built on: power-of-two and alignment tests, bit counting, range and overflow checks,
  two's complement arithmetic, hash functions, hexadecimal digits and the SLEB128 decoder.

  A C++ template parameter \<open>T\<close> becomes the width of a word. \<open>ASSERT\<close> is compiled out of a
  release build and is not modelled; the facts that need an asserted condition state it as a
  hypothesis.
\<close>

unbundle bit_operations_syntax

section \<open>Absolute values, powers of two and alignment\<close>

definition Abs :: "'a::len word \<Rightarrow> 'a word" where
  "Abs x = (if x <s 0 then - x else x)"

definition word_min :: "'a::len word" where
  "word_min = push_bit (LENGTH('a) - 1) 1"

definition word_max :: "'a::len word" where
  "word_max = NOT word_min"

definition AbsWithSaturation :: "'a::len word \<Rightarrow> 'a word" where
  "AbsWithSaturation x =
     (if x <s 0 then (if x = word_min then word_max else - x) else x)"

definition IsPowerOfTwo :: "'a::len word \<Rightarrow> bool" where
  "IsPowerOfTwo x \<longleftrightarrow> x AND (x - 1) = 0 \<and> x \<noteq> 0"

function ShiftForPowerOfTwo_loop :: "nat \<Rightarrow> i64 \<Rightarrow> nat" where
  "ShiftForPowerOfTwo_loop num_shifts x =
     (if 1 <s x then ShiftForPowerOfTwo_loop (num_shifts + 1) (signed_drop_bit 1 x)
      else num_shifts)"
  by pat_completeness auto
termination
proof (relation "measure (\<lambda>(_, x). nat (sint x))")
  fix num_shifts :: nat and x :: i64
  assume "1 <s x"
  then have "1 < sint x"
    by (simp add: word_sless_alt)
  moreover have "sint (signed_drop_bit 1 x) = sint x div 2"
    by (simp only: sint_signed_drop_bit_eq drop_bit_eq_div power_one_right)
  ultimately show "((num_shifts + 1, signed_drop_bit 1 x), num_shifts, x)
      \<in> measure (\<lambda>(_, x). nat (sint x))"
    by simp
qed simp

declare ShiftForPowerOfTwo_loop.simps [simp del]

definition ShiftForPowerOfTwo :: "i64 \<Rightarrow> nat" where
  "ShiftForPowerOfTwo x = ShiftForPowerOfTwo_loop 0 x"

definition IsAligned :: "'a::len word \<Rightarrow> 'a word \<Rightarrow> bool" where
  "IsAligned x n \<longleftrightarrow> x AND (n - 1) = 0"

definition RoundDown :: "'a::len word \<Rightarrow> 'a word \<Rightarrow> 'a word" where
  "RoundDown x n = x AND - n"

definition RoundUp :: "'a::len word \<Rightarrow> 'a word \<Rightarrow> 'a word" where
  "RoundUp x n = RoundDown (x + n - 1) n"

definition RoundUpToPowerOfTwo :: "u64 \<Rightarrow> u64" where
  "RoundUpToPowerOfTwo x =
     (let x = x - 1;
          x = x OR drop_bit 1 x;
          x = x OR drop_bit 2 x;
          x = x OR drop_bit 4 x;
          x = x OR drop_bit 8 x;
          x = x OR drop_bit 16 x;
          x = x OR drop_bit 32 x
      in x + 1)"

section \<open>Counting bits\<close>

text \<open>The branch compiled on x64 hosts, which does not use the compiler's popcount.\<close>

definition CountOneBits32 :: "u32 \<Rightarrow> nat" where
  "CountOneBits32 x =
     (let x = x - (drop_bit 1 x AND 0x55555555);
          x = (x AND 0x33333333) + (drop_bit 2 x AND 0x33333333);
          x = (x + drop_bit 4 x) AND 0x0F0F0F0F;
          x = x + drop_bit 8 x;
          x = x + drop_bit 16 x
      in unat (x AND 0x0000003F))"

definition CountOneBits64 :: "u64 \<Rightarrow> nat" where
  "CountOneBits64 x = CountOneBits32 (ucast x) + CountOneBits32 (ucast (drop_bit 32 x))"

text \<open>The negation in \<open>HighestBit\<close> wraps at \<open>kMinInt64\<close>, where C++ leaves it undefined; \<open>BitLength\<close> and the other callers do not
  pass that value.\<close>

definition HighestBit :: "i64 \<Rightarrow> nat" where
  "HighestBit v =
     (let x = (if 0 <s v then v else - v);
          (x, r) = (if drop_bit 32 x \<noteq> 0 then (drop_bit 32 x, 32) else (x, 0));
          (x, r) = (if drop_bit 16 x \<noteq> 0 then (drop_bit 16 x, r + 16) else (x, r));
          (x, r) = (if drop_bit 8 x \<noteq> 0 then (drop_bit 8 x, r + 8) else (x, r));
          (x, r) = (if drop_bit 4 x \<noteq> 0 then (drop_bit 4 x, r + 4) else (x, r));
          (x, r) = (if drop_bit 2 x \<noteq> 0 then (drop_bit 2 x, r + 2) else (x, r))
      in if 1 < x then r + 1 else r)"

definition BitLength :: "i64 \<Rightarrow> nat" where
  "BitLength value =
     (let value = value XOR signed_drop_bit 63 value
      in if value = 0 then 0 else HighestBit value + 1)"

text \<open>
  The compiler builtins behind \<open>CountLeadingZeros\<close> and \<open>CountTrailingZeros\<close> are undefined at
  \<open>0\<close>; here they are \<open>64\<close> there.
\<close>

definition CountLeadingZeros :: "uword \<Rightarrow> nat" where
  "CountLeadingZeros x = length (takeWhile (\<lambda>i. \<not> bit x i) (rev [0..<64]))"

definition CountTrailingZeros :: "uword \<Rightarrow> nat" where
  "CountTrailingZeros x = length (takeWhile (\<lambda>i. \<not> bit x i) [0..<64])"

section \<open>Range checks\<close>

definition IsInt :: "nat \<Rightarrow> 'a::len word \<Rightarrow> bool" where
  "IsInt N value \<longleftrightarrow>
     (let limit = push_bit (N - 1) 1 in - limit \<le>s value \<and> value <s limit)"

definition IsUint :: "nat \<Rightarrow> 'a::len word \<Rightarrow> bool" where
  "IsUint N value \<longleftrightarrow>
     (let limit = push_bit N 1 in 0 \<le>s value \<and> value <s limit)"

definition IsAbsoluteUint :: "nat \<Rightarrow> 'a::len word \<Rightarrow> bool" where
  "IsAbsoluteUint N value = IsUint N (if value <s 0 then - value else value)"

definition RangeCheck :: "i64 \<Rightarrow> i64 \<Rightarrow> i64 \<Rightarrow> bool" where
  "RangeCheck offset count len \<longleftrightarrow>
     0 \<le>s offset \<and> 0 \<le>s count \<and> 0 \<le>s len \<and> count \<le>s len - offset"

section \<open>Halves and two's complement arithmetic\<close>

definition Low16Bits :: "i32 \<Rightarrow> i32" where
  "Low16Bits value = value AND 0xffff"

definition High16Bits :: "i32 \<Rightarrow> i32" where
  "High16Bits value = signed_drop_bit 16 value"

definition Low32Bits :: "i64 \<Rightarrow> i32" where
  "Low32Bits value = ucast value"

definition High32Bits :: "i64 \<Rightarrow> i32" where
  "High32Bits value = ucast (signed_drop_bit 32 value)"

definition LowHighTo64Bits :: "u32 \<Rightarrow> i32 \<Rightarrow> i64" where
  "LowHighTo64Bits low high = push_bit 32 (scast high) OR (ucast low AND 0x0ffffffff)"

definition kMaxInt64 :: i64 where
  "kMaxInt64 = word_max"

definition kMinInt64 :: i64 where
  "kMinInt64 = word_min"

definition WillAddOverflow :: "i64 \<Rightarrow> i64 \<Rightarrow> bool" where
  "WillAddOverflow a b \<longleftrightarrow>
     (0 <s b \<and> kMaxInt64 - b <s a) \<or> (b <s 0 \<and> a <s kMinInt64 - b)"

definition WillSubOverflow :: "i64 \<Rightarrow> i64 \<Rightarrow> bool" where
  "WillSubOverflow a b \<longleftrightarrow>
     (0 <s b \<and> a <s kMinInt64 + b) \<or> (b <s 0 \<and> kMaxInt64 + b <s a)"

definition AddWithWrapAround :: "i64 \<Rightarrow> i64 \<Rightarrow> i64" where
  "AddWithWrapAround a b = a + b"

definition SubWithWrapAround :: "i64 \<Rightarrow> i64 \<Rightarrow> i64" where
  "SubWithWrapAround a b = a - b"

definition MulWithWrapAround :: "i64 \<Rightarrow> i64 \<Rightarrow> i64" where
  "MulWithWrapAround a b = a * b"

definition ShiftLeftWithTruncation :: "i64 \<Rightarrow> i64 \<Rightarrow> i64" where
  "ShiftLeftWithTruncation a b = (if 64 \<le>s b then 0 else push_bit (unat b) a)"

text \<open>
  \<open>NBitMask\<close> with \<^verbatim>\<open>kBitsPerWord\<close> 64. The mask of a full word is chosen by the target
  architecture: only \<^verbatim>\<open>TARGET_ARCH_X64\<close> gets 64 ones.
\<close>

datatype target_arch = TARGET_ARCH_X64 | TARGET_ARCH_ARM64

definition NBitMask :: "target_arch \<Rightarrow> nat \<Rightarrow> uword" where
  "NBitMask arch n =
     (if n = 64 then (if arch = TARGET_ARCH_X64 then 0xffffffffffffffff else 0xffffffff)
      else push_bit n 1 - 1)"

section \<open>Characters\<close>

definition IsDecimalDigit :: "u32 \<Rightarrow> bool" where
  "IsDecimalDigit c \<longleftrightarrow> 48 \<le> c \<and> c \<le> 57"

definition IsAlphaNumeric :: "u32 \<Rightarrow> bool" where
  "IsAlphaNumeric c \<longleftrightarrow> (65 \<le> c \<and> c \<le> 90) \<or> (97 \<le> c \<and> c \<le> 122) \<or> IsDecimalDigit c"

definition IsHexDigit :: "u32 \<Rightarrow> bool" where
  "IsHexDigit c \<longleftrightarrow> IsDecimalDigit c \<or> (65 \<le> c \<and> c \<le> 70) \<or> (97 \<le> c \<and> c \<le> 102)"

definition HexDigitToInt :: "u32 \<Rightarrow> u32" where
  "HexDigitToInt c =
     (if IsDecimalDigit c then c - 48
      else if 65 \<le> c \<and> c \<le> 70 then 10 + (c - 65)
      else 10 + (c - 97))"

definition IntToHexDigit :: "u32 \<Rightarrow> u32" where
  "IntToHexDigit i = (if i < 10 then 48 + i else 65 + (i - 10))"

section \<open>SLEB128\<close>

text \<open>
  \<open>DecodeSLEB128\<close> at 64 bits; a read past the end of the data is \<open>None\<close>. The encoder is the
  one of \<^verbatim>\<open>runtime/vm/object.cc\<close>, which writes the PC descriptors.
\<close>

fun DecodeSLEB128_loop :: "u8 list \<Rightarrow> nat \<Rightarrow> i64 \<Rightarrow> (i64 \<times> nat \<times> u8 \<times> u8 list) option" where
  "DecodeSLEB128_loop [] shift value = None"
| "DecodeSLEB128_loop (part # rest) shift value =
     (let value = value OR push_bit shift (ucast (part AND 0x7f));
          shift = shift + 7
      in if part AND 0x80 \<noteq> 0 then DecodeSLEB128_loop rest shift value
         else Some (value, shift, part, rest))"

definition DecodeSLEB128 :: "u8 list \<Rightarrow> nat \<Rightarrow> (i64 \<times> nat) option" where
  "DecodeSLEB128 data byte_index =
     (case DecodeSLEB128_loop (drop byte_index data) 0 0 of
        None \<Rightarrow> None
      | Some (value, shift, part, rest) \<Rightarrow>
          Some (if shift < 64 \<and> part AND 0x40 \<noteq> 0 then value OR push_bit shift (- 1) else value,
                length data - length rest))"

lemma sint_signed_drop_bit7: "sint (signed_drop_bit 7 (v :: i64)) = sint v div 128"
  by (simp add: sint_signed_drop_bit_eq drop_bit_eq_div)

lemma SLEB128_shrinks:
  fixes s :: int
  assumes "s \<noteq> 0" and "s \<noteq> - 1"
  shows "nat (if 0 \<le> s div 128 then s div 128 else - (s div 128) - 1)
       < nat (if 0 \<le> s then s else - s - 1)"
proof (cases "0 \<le> s")
  case True
  then have "0 \<le> s div 128" "s div 128 < s"
    using assms by simp_all
  with True show ?thesis by simp
next
  case False
  then have neg: "s div 128 \<le> - 1" by simp
  have "s = 128 * (s div 128) + s mod 128" "0 \<le> s mod 128" "s mod 128 < 128" by simp_all
  with neg False assms(2) have "s div 128 < 0" "s < s div 128"
    by (cases "s div 128 = - 1"; linarith)+
  with False show ?thesis by simp
qed

function EncodeSLEB128 :: "i64 \<Rightarrow> u8 list" where
  "EncodeSLEB128 value =
     (let part = ucast (value AND 0x7f) :: u8;
          value' = signed_drop_bit 7 value
      in if (value' = 0 \<and> part AND 0x40 = 0) \<or> (value' = - 1 \<and> part AND 0x40 \<noteq> 0)
         then [part]
         else (part OR 0x80) # EncodeSLEB128 value')"
  by pat_completeness auto
termination
proof (relation "measure (\<lambda>v. nat (if 0 \<le> sint v then sint v else - sint v - 1))")
  fix v v' :: i64 and part :: u8
  assume part: "part = ucast (v AND 0x7f)" and v': "v' = signed_drop_bit 7 v"
    and more: "\<not> ((v' = 0 \<and> part AND 0x40 = 0) \<or> (v' = - 1 \<and> part AND 0x40 \<noteq> 0))"
  have "v \<noteq> 0" and "v \<noteq> - 1"
    using more by (auto simp: part v')
  then have ne: "sint v \<noteq> 0" "sint v \<noteq> - 1"
    using signed_word_eqI [of v 0] signed_word_eqI [of v "- 1"] by auto
  have sv': "sint v' = sint v div 128"
    by (simp only: v' sint_signed_drop_bit7)
  show "(v', v) \<in> measure (\<lambda>v. nat (if 0 \<le> sint v then sint v else - sint v - 1))"
    unfolding in_measure sv' using ne by (rule SLEB128_shrinks)
qed simp

declare EncodeSLEB128.simps [simp del]

section \<open>Facts about alignment and rounding\<close>

lemma sint_word_min: "sint (word_min :: i64) = - (2 ^ 63)"
  by (simp add: word_min_def)

lemma sint_word_max: "sint (word_max :: i64) = 2 ^ 63 - 1"
  by (simp add: word_min_def word_max_def)

lemma WillAddOverflow_iff:
  "WillAddOverflow a b \<longleftrightarrow> \<not> (- (2 ^ 63) \<le> sint a + sint b \<and> sint a + sint b < 2 ^ 63)"
proof -
  have "0 < sint b \<Longrightarrow> sint (kMaxInt64 - b) = 2 ^ 63 - 1 - sint b"
    "sint b < 0 \<Longrightarrow> sint (kMinInt64 - b) = - (2 ^ 63) - sint b"
    using sint_range64 [of b]
    by (simp_all add: kMaxInt64_def kMinInt64_def sint_sub64 sint_word_min sint_word_max signed_take_bit_id)
  then show ?thesis using sint_range64 [of a] sint_range64 [of b]
    by (auto simp: WillAddOverflow_def word_sless_alt)
qed

lemma WillSubOverflow_iff:
  "WillSubOverflow a b \<longleftrightarrow> \<not> (- (2 ^ 63) \<le> sint a - sint b \<and> sint a - sint b < 2 ^ 63)"
proof -
  have "0 < sint b \<Longrightarrow> sint (kMinInt64 + b) = - (2 ^ 63) + sint b"
    "sint b < 0 \<Longrightarrow> sint (kMaxInt64 + b) = 2 ^ 63 - 1 + sint b"
    using sint_range64 [of b]
    by (simp_all add: kMaxInt64_def kMinInt64_def sint_add64 sint_word_min sint_word_max signed_take_bit_id)
  then show ?thesis using sint_range64 [of a] sint_range64 [of b]
    by (auto simp: WillSubOverflow_def word_sless_alt)
qed

text \<open>C37. \<open>WillAddOverflow\<close> and \<open>WillSubOverflow\<close>, which look at their operands only through
  comparisons with shifted limits that never overflow themselves, hold exactly when the
  mathematical sum or difference leaves the 64-bit signed range; otherwise the wrapping operation
  is the exact one.\<close>

theorem WillOverflow_correct:
  "(WillAddOverflow a b \<longleftrightarrow> sint (AddWithWrapAround a b) \<noteq> sint a + sint b)
   \<and> (WillSubOverflow a b \<longleftrightarrow> sint (SubWithWrapAround a b) \<noteq> sint a - sint b)"
proof -
  have "signed_take_bit 63 k = k \<longleftrightarrow> - (2 ^ 63) \<le> k \<and> k < 2 ^ 63" for k :: int
    using signed_take_bit_int_eq_self_iff [of 63 k] by simp
  then show ?thesis
    by (simp add: WillAddOverflow_iff WillSubOverflow_iff AddWithWrapAround_def SubWithWrapAround_def
        sint_add64 sint_sub64)
qed

lemma smear_step:
  fixes w x :: "'a::len word"
  assumes "\<And>i. bit w i \<longleftrightarrow> (\<exists>d<n. bit x (i + d))"
  shows "bit (w OR drop_bit n w) i \<longleftrightarrow> (\<exists>d<n + n. bit x (i + d))"
proof -
  have "bit (w OR drop_bit n w) i \<longleftrightarrow> (\<exists>d<n. bit x (i + d)) \<or> (\<exists>d<n. bit x (i + (n + d)))"
    by (simp add: bit_or_iff bit_drop_bit_eq assms ac_simps)
  also have "\<dots> \<longleftrightarrow> (\<exists>d<n + n. bit x (i + d))"
    by (metis add_less_cancel_left le_add_diff_inverse not_le trans_less_add1)
  finally show ?thesis .
qed

lemma smear_bit:
  fixes x :: u64
  defines "s \<equiv> (let x = x OR drop_bit 1 x;
          x = x OR drop_bit 2 x;
          x = x OR drop_bit 4 x;
          x = x OR drop_bit 8 x;
          x = x OR drop_bit 16 x
      in x OR drop_bit 32 x)"
  shows "bit s i \<longleftrightarrow> (\<exists>j\<ge>i. bit x j)"
proof -
  define x1 where "x1 = x OR drop_bit 1 x"
  define x2 where "x2 = x1 OR drop_bit 2 x1"
  define x4 where "x4 = x2 OR drop_bit 4 x2"
  define x8 where "x8 = x4 OR drop_bit 8 x4"
  define x16 where "x16 = x8 OR drop_bit 16 x8"
  have 1: "bit x1 i \<longleftrightarrow> (\<exists>d<2. bit x (i + d))" for i
    unfolding x1_def using smear_step [of x 1 x i] by (simp add: numeral_2_eq_2)
  have 2: "bit x2 i \<longleftrightarrow> (\<exists>d<4. bit x (i + d))" for i
    unfolding x2_def using smear_step [OF 1] by simp
  have 4: "bit x4 i \<longleftrightarrow> (\<exists>d<8. bit x (i + d))" for i
    unfolding x4_def using smear_step [OF 2] by simp
  have 8: "bit x8 i \<longleftrightarrow> (\<exists>d<16. bit x (i + d))" for i
    unfolding x8_def using smear_step [OF 4] by simp
  have 16: "bit x16 i \<longleftrightarrow> (\<exists>d<32. bit x (i + d))" for i
    unfolding x16_def using smear_step [OF 8] by simp
  have "bit s i \<longleftrightarrow> (\<exists>d<64. bit x (i + d))"
    using smear_step [OF 16, of i] by (simp add: s_def Let_def x1_def x2_def x4_def x8_def x16_def)
  also have "\<dots> \<longleftrightarrow> (\<exists>j\<ge>i. bit x j)"
  proof
    assume "\<exists>j\<ge>i. bit x j"
    then obtain j where "i \<le> j" "bit x j" by blast
    moreover have "j < 64" using bit_imp_le_length [OF \<open>bit x j\<close>] by simp
    ultimately show "\<exists>d<64. bit x (i + d)" by (intro exI [of _ "j - i"]) auto
  qed (use le_add1 in blast)
  finally show ?thesis .
qed

lemma RoundUpToPowerOfTwo_least:
  assumes "0 < x" and "x \<le> 2 ^ 63"
  shows "\<exists>k\<le>63. RoundUpToPowerOfTwo x = 2 ^ k \<and> x \<le> 2 ^ k \<and> (\<forall>j. unat x \<le> 2 ^ j \<longrightarrow> k \<le> j)"
proof -
  define y where "y = x - 1"
  have x: "unat x = Suc (unat y)"
    using assms(1) by (simp add: y_def unat_minus_one word_gt_0 unat_gt_0 Suc_diff_1)
  have xle: "unat x \<le> 2 ^ 63" using assms(2) by (simp add: word_le_nat_alt)
  define s where "s = (let x = y OR drop_bit 1 y;
          x = x OR drop_bit 2 x;
          x = x OR drop_bit 4 x;
          x = x OR drop_bit 8 x;
          x = x OR drop_bit 16 x
      in x OR drop_bit 32 x)"
  have r: "RoundUpToPowerOfTwo x = s + 1"
    by (simp add: RoundUpToPowerOfTwo_def s_def y_def Let_def)
  have s: "bit s i \<longleftrightarrow> (\<exists>j\<ge>i. bit y j)" for i
    unfolding s_def by (rule smear_bit)
  show ?thesis
  proof (cases "y = 0")
    case True
    then have "s = 0" by (auto simp: bit_eq_iff [of s] s)
    with True x show ?thesis by (intro exI [of _ 0]) (auto simp: r word_le_nat_alt)
  next
    case False
    then obtain k where k: "k < 64" "bit y k" "\<And>j. k < j \<Longrightarrow> \<not> bit y j"
        "2 ^ k \<le> unat y" "unat y < 2 ^ Suc k"
      using word_top_bit [of y] by auto
    have "s = mask (Suc k)"
      by (rule bit_word_eqI) (use k in \<open>auto simp: s bit_mask_iff less_Suc_eq_le intro: order_trans leI\<close>)
    then have s1: "s + 1 = 2 ^ Suc k" by (simp add: mask_eq_exp_minus_1)
    have "(2::nat) ^ k < 2 ^ 63" using k(4) xle x by linarith
    then have k63: "Suc k \<le> 63" using power_less_imp_less_exp [of "2::nat" k 63] by simp
    have u: "unat (2 ^ Suc k :: u64) = 2 ^ Suc k"
      by (rule unat_pow2) (use k63 in simp)
    have "x \<le> 2 ^ Suc k" using k(5) x by (simp add: word_le_nat_alt u del: power_Suc)
    moreover have "Suc k \<le> j" if "unat x \<le> 2 ^ j" for j
    proof -
      have "(2::nat) ^ k < 2 ^ j" using k(4) x that by linarith
      then show ?thesis by (simp add: Suc_le_eq)
    qed
    ultimately show ?thesis using k63 s1 r by (intro exI [of _ "Suc k"]) auto
  qed
qed

lemma RoundUpToPowerOfTwo_wraps:
  assumes "x = 0 \<or> 2 ^ 63 < x"
  shows "RoundUpToPowerOfTwo x = 0"
proof -
  define y where "y = x - 1"
  have "bit y 63"
  proof (cases "x = 0")
    case False
    then have "2 ^ 63 \<le> y" using assms by (simp add: y_def word_le_nat_alt word_less_nat_alt unat_minus_one)
    then show ?thesis by (simp add: top_bit64 word_le_def)
  qed (simp add: y_def)
  then have "(let x = y OR drop_bit 1 y;
          x = x OR drop_bit 2 x;
          x = x OR drop_bit 4 x;
          x = x OR drop_bit 8 x;
          x = x OR drop_bit 16 x
      in x OR drop_bit 32 x) = - 1"
    by (intro bit_word_eqI, unfold smear_bit) (auto simp: bit_minus_1_iff intro!: exI [of _ 63])
  then show ?thesis by (simp add: RoundUpToPowerOfTwo_def y_def Let_def)
qed

text \<open>C38. Rounding up to a power of two, for every argument: from 1 to \<open>2 ^ 63\<close> the result is the least power of two that is
  not below the argument; for 0, and above \<open>2 ^ 63\<close> where there is no such word, it is 0.\<close>

theorem RoundUpToPowerOfTwo_correct:
  "if x = 0 \<or> 2 ^ 63 < x then RoundUpToPowerOfTwo x = 0
   else \<exists>k\<le>63. RoundUpToPowerOfTwo x = 2 ^ k \<and> x \<le> 2 ^ k \<and> (\<forall>j. unat x \<le> 2 ^ j \<longrightarrow> k \<le> j)"
  using RoundUpToPowerOfTwo_wraps [of x] RoundUpToPowerOfTwo_least [of x] by (auto simp: word_gt_0)

theorem RoundUpToPowerOfTwo_correct_witness:
  "RoundUpToPowerOfTwo 0 = 0 \<and>
   (\<exists>k\<le>63. RoundUpToPowerOfTwo 37 = 2 ^ k \<and> (37 :: u64) \<le> 2 ^ k \<and> (\<forall>j. unat (37 :: u64) \<le> 2 ^ j \<longrightarrow> k \<le> j))"
  using RoundUpToPowerOfTwo_correct [of 0] RoundUpToPowerOfTwo_correct [of 37] by simp

lemma HighestBit_step:
  fixes x :: u64
  assumes "x \<noteq> 0" and "unat x < 2 ^ (n + n)" and "unat x = unat x0 div 2 ^ r" 
    and "(x', r') = (if drop_bit n x \<noteq> 0 then (drop_bit n x, r + n) else (x, r))"
  shows "x' \<noteq> 0 \<and> unat x' < 2 ^ n \<and> unat x' = unat x0 div 2 ^ r'"
proof (cases "drop_bit n x = 0")
  case True
  then have "unat x div 2 ^ n = 0"
    by (metis drop_bit_eq_div unat_drop_bit_eq unat_0)
  then have "unat x < 2 ^ n" by (simp add: div_eq_0_iff)
  with True assms show ?thesis by auto
next
  case False
  have d: "unat (drop_bit n x) = unat x div 2 ^ n"
    unfolding unat_drop_bit_eq by (rule drop_bit_eq_div)
  have "unat x div 2 ^ n < 2 ^ n"
    using assms(2) by (simp add: power_add less_mult_imp_div_less)
  with False assms d show ?thesis by (auto simp: power_add div_mult2_eq)
qed

lemma HighestBit_div:
  assumes "v \<noteq> 0"
  shows "unat (if 0 <s v then v else - v) div 2 ^ HighestBit v = 1"
proof -
  define x where "x = (if 0 <s v then v else - v)"
  obtain x1 r1 where 1: "(x1, r1) = (if drop_bit 32 x \<noteq> 0 then (drop_bit 32 x, 32) else (x, 0::nat))" by (metis surj_pair)
  obtain x2 r2 where 2: "(x2, r2) = (if drop_bit 16 x1 \<noteq> 0 then (drop_bit 16 x1, r1 + 16) else (x1, r1))" by (metis surj_pair)
  obtain x3 r3 where 3: "(x3, r3) = (if drop_bit 8 x2 \<noteq> 0 then (drop_bit 8 x2, r2 + 8) else (x2, r2))" by (metis surj_pair)
  obtain x4 r4 where 4: "(x4, r4) = (if drop_bit 4 x3 \<noteq> 0 then (drop_bit 4 x3, r3 + 4) else (x3, r3))" by (metis surj_pair)
  obtain x5 r5 where 5: "(x5, r5) = (if drop_bit 2 x4 \<noteq> 0 then (drop_bit 2 x4, r4 + 2) else (x4, r4))" by (metis surj_pair)
  have x0: "x \<noteq> 0" using assms by (simp add: x_def)
  have xl: "unat x < 2 ^ (32 + 32)" using unsigned_less [of x, where ?'a = nat] by simp
  have s1: "x1 \<noteq> 0 \<and> unat x1 < 2 ^ 32 \<and> unat x1 = unat x div 2 ^ r1"
    by (rule HighestBit_step [OF x0 xl, of x 0]) (use 1 in simp_all)
  have s2: "x2 \<noteq> 0 \<and> unat x2 < 2 ^ 16 \<and> unat x2 = unat x div 2 ^ r2"
    using HighestBit_step [of x1 16 x r1 x2 r2] s1 2 by simp
  have s3: "x3 \<noteq> 0 \<and> unat x3 < 2 ^ 8 \<and> unat x3 = unat x div 2 ^ r3"
    using HighestBit_step [of x2 8 x r2 x3 r3] s2 3 by simp
  have s4: "x4 \<noteq> 0 \<and> unat x4 < 2 ^ 4 \<and> unat x4 = unat x div 2 ^ r4"
    using HighestBit_step [of x3 4 x r3 x4 r4] s3 4 by simp
  have s5: "x5 \<noteq> 0 \<and> unat x5 < 2 ^ 2 \<and> unat x5 = unat x div 2 ^ r5"
    using HighestBit_step [of x4 2 x r4 x5 r5] s4 5 by simp
  define r where "r = (if 1 < x5 then r5 + 1 else r5)"
  have h: "HighestBit v = r"
    unfolding HighestBit_def r_def x_def [symmetric] Let_def
    by (simp only: 1 [symmetric] 2 [symmetric] 3 [symmetric] 4 [symmetric] 5 [symmetric] prod.case)
  have "unat x div 2 ^ r = 1"
  proof (cases "1 < x5")
    case True
    then have "unat x5 = 2 \<or> unat x5 = 3" using s5 by (auto simp: word_less_nat_alt)
    then have "unat x5 div 2 = 1" by auto
    with s5 have "unat x div (2 ^ r5 * 2) = 1" by (simp only: div_mult2_eq)
    with True show ?thesis by (simp add: r_def mult.commute)
  next
    case False
    then have "unat x5 = 1" using s5 by (simp add: word_less_nat_alt not_less) (metis One_nat_def le_SucE le_zero_eq unat_eq_zero)
    with s5 False show ?thesis by (simp add: r_def)
  qed
  then show ?thesis by (simp only: h x_def)
qed

text \<open>C39. \<open>HighestBit\<close> is the floor of the binary logarithm of the magnitude of its argument,
  for every non-zero 64-bit value, \<open>kMinInt64\<close> included.\<close>

theorem HighestBit_bounds:
  assumes "v \<noteq> 0"
  shows "2 ^ HighestBit v \<le> \<bar>sint v\<bar> \<and> \<bar>sint v\<bar> < 2 ^ (HighestBit v + 1)"
proof -
  define x where "x = (if 0 <s v then v else - v)"
  let ?r = "HighestBit v"
  have b: "2 ^ ?r \<le> unat x" "unat x < 2 ^ (?r + 1)"
    using HighestBit_div [OF assms, folded x_def] div_greater_zero_iff [of "unat x" "2 ^ ?r"] div_less_iff_less_mult [of "2 ^ ?r" "unat x" 2]
    by simp_all
  have "0 < uint v" "uint v < 2 ^ 64"
    using assms unsigned_less [of v, where ?'a = int] by (simp_all add: order_less_le uint_0_iff)
  then have "int (unat x) = \<bar>sint v\<bar>"
    by (simp add: x_def word_sless_alt uint_minus_if sint_uint_if split: if_splits)
  with b show ?thesis by (metis of_nat_le_iff of_nat_less_iff of_nat_numeral of_nat_power)
qed

theorem HighestBit_bounds_witness:
  "2 ^ HighestBit (- 37) \<le> \<bar>sint (- 37 :: i64)\<bar> \<and> \<bar>sint (- 37 :: i64)\<bar> < 2 ^ (HighestBit (- 37) + 1)"
  by (rule HighestBit_bounds) simp

lemma unat_RoundDown:
  assumes "k < LENGTH('a)"
  shows "unat (RoundDown (x :: 'a::len word) (2 ^ k)) = unat x div 2 ^ k * 2 ^ k"
proof -
  have "unat (drop_bit k x) = unat x div 2 ^ k"
    unfolding unat_drop_bit_eq by (rule drop_bit_eq_div)
  moreover have "unat x div 2 ^ k * 2 ^ k \<le> unat x" by simp
  ultimately have "unat x div 2 ^ k * 2 ^ k < 2 ^ LENGTH('a)"
    using unsigned_less [of x, where ?'a = nat] by linarith
  with \<open>unat (drop_bit k x) = _\<close> show ?thesis
    by (simp add: RoundDown_def and_minus_pow2 unsigned_push_bit_eq take_bit_nat_eq_self)
       (simp add: push_bit_eq_mult take_bit_nat_eq_self)
qed

lemma IsAligned_iff:
  assumes "k < LENGTH('a)"
  shows "IsAligned (x :: 'a::len word) (2 ^ k) \<longleftrightarrow> 2 ^ k dvd unat x"
proof -
  have "IsAligned x (2 ^ k) \<longleftrightarrow> take_bit k x = 0"
    by (simp add: IsAligned_def take_bit_eq_mask mask_eq_exp_minus_1)
  also have "\<dots> \<longleftrightarrow> take_bit k (unat x) = 0"
    by (metis unat_eq_zero unsigned_take_bit_eq)
  finally show ?thesis by (simp add: take_bit_eq_mod mod_eq_0_iff_dvd)
qed

text \<open>C40. Rounding up to an alignment of \<open>2 ^ k\<close> gives an aligned value that is at least \<open>x\<close> and
  less than one alignment unit above it, at every word width, as long as the sum does not wrap.\<close>

theorem RoundUp_correct:
  assumes "k < LENGTH('a)" and "unat x + 2 ^ k \<le> 2 ^ LENGTH('a)"
  shows "IsAligned (RoundUp (x :: 'a::len word) (2 ^ k)) (2 ^ k)
    \<and> unat x \<le> unat (RoundUp x (2 ^ k)) \<and> unat (RoundUp x (2 ^ k)) < unat x + 2 ^ k"
proof -
  define m where "m = unat x + (2 ^ k - 1)"
  have "unat (x + 2 ^ k - 1) = m"
  proof -
    have "of_nat (Suc m) = (of_nat (unat x + 2 ^ k) :: 'a word)"
      by (simp add: m_def)
    then have "1 + of_nat m = x + 2 ^ k"
      by simp
    then have "x + 2 ^ k - 1 = of_nat m"
      by (simp only: flip: \<open>1 + of_nat m = x + 2 ^ k\<close>) simp
    moreover have "m < 2 ^ LENGTH('a)"
      using assms(2) unfolding m_def by (simp only: less_eq_Suc_le) (use one_le_power [of "2::nat" k] in linarith)
    ultimately show ?thesis by (simp add: unat_of_nat)
  qed
  then have r: "unat (RoundUp x (2 ^ k)) = m div 2 ^ k * 2 ^ k"
    using unat_RoundDown [OF assms(1), of "x + 2 ^ k - 1"] by (simp add: RoundUp_def)
  have "IsAligned (RoundUp x (2 ^ k)) (2 ^ k)"
    by (simp add: IsAligned_iff [OF assms(1)] r)
  moreover have "m mod 2 ^ k < 2 ^ k" and "m = m div 2 ^ k * 2 ^ k + m mod 2 ^ k"
    by (simp, rule div_mult_mod_eq [symmetric])
  then have "unat x \<le> unat (RoundUp x (2 ^ k)) \<and> unat (RoundUp x (2 ^ k)) < unat x + 2 ^ k"
    unfolding r m_def by linarith
  ultimately show ?thesis by blast
qed

theorem RoundUp_correct_witness:
  "IsAligned (RoundUp (13 :: u64) (2 ^ 3)) (2 ^ 3)
    \<and> unat (13 :: u64) \<le> unat (RoundUp (13 :: u64) (2 ^ 3))
    \<and> unat (RoundUp (13 :: u64) (2 ^ 3)) < unat (13 :: u64) + 2 ^ 3"
  by (rule RoundUp_correct) simp_all

section \<open>SLEB128 round trip\<close>

lemma or_0x80: "take_bit 7 (p OR 0x80 :: u8) = take_bit 7 p"
  by (simp add: take_bit_or)

definition finish :: "i64 \<times> nat \<times> u8 \<times> u8 list \<Rightarrow> i64" where
  "finish = (\<lambda>(v, shift, part, rest).
     if shift < 64 \<and> part AND 0x40 \<noteq> 0 then v OR push_bit shift (- 1) else v)"

lemma step_value:
  fixes V :: i64
  assumes "take_bit 7 part = (ucast (take_bit 7 (signed_drop_bit shift V)) :: u8)"
    and "shift < 64"
  shows "take_bit shift V OR push_bit shift (ucast (part AND 0x7f)) = take_bit (shift + 7) V"
proof (rule bit_word_eqI)
  fix i
  assume "i < LENGTH(64)"
  have "bit (take_bit 7 part) (i - shift) = bit (ucast (take_bit 7 (signed_drop_bit shift V)) :: u8) (i - shift)"
    using assms(1) by simp
  then have "bit part (i - shift) = bit V i" if "shift \<le> i" "i < shift + 7"
    using that \<open>i < LENGTH(64)\<close> by (auto simp: bit_simps split: if_splits)
  then show "bit (take_bit shift V OR push_bit shift (ucast (part AND 0x7f))) i = bit (take_bit (shift + 7) V) i"
    using \<open>i < LENGTH(64)\<close> by (auto simp: and_0x7f bit_simps)
qed

lemma signed_drop_bit_top:
  fixes V :: i64
  assumes "63 \<le> n"
  shows "signed_drop_bit n V = (if bit V 63 then - 1 else 0)"
proof (rule bit_word_eqI)
  fix i
  assume "i < LENGTH(64)"
  moreover have "i = 0 \<and> n = 63" if "i < 64 - n"
    using that assms by linarith
  ultimately show "bit (signed_drop_bit n V) i = bit (if bit V 63 then - 1 else 0 :: i64) i"
    by (auto simp: bit_simps not_le)
qed

lemma last_part:
  fixes V :: i64
  assumes "signed_drop_bit (shift + 7) V = (if neg then - 1 else 0)"
    and "bit part 6 \<longleftrightarrow> neg" and "shift < 64"
  shows "finish (take_bit (shift + 7) V, shift + 7, part, rest) = V"
proof -
  have *: "bit (signed_drop_bit (shift + 7) V) i = (neg \<and> i < 64)" for i
    by (simp add: assms(1))
  have hi: "bit V j \<longleftrightarrow> neg" if "shift + 7 \<le> j" "j < 64" for j
    using * [of "j - (shift + 7)"] that by (auto simp: bit_simps split: if_splits)
  show ?thesis
  proof (rule bit_word_eqI)
    fix i
    assume "i < LENGTH(64)"
    then show "bit (finish (take_bit (shift + 7) V, shift + 7, part, rest)) i = bit V i"
      using assms(2,3) hi [of i]
      by (cases "shift + 7 \<le> i") (auto simp: finish_def and_0x40 bit_simps)
  qed
qed

lemma loop_Encode:
  assumes "v = signed_drop_bit shift V" and "shift < 64" and "7 dvd shift"
  shows "\<exists>r. DecodeSLEB128_loop (EncodeSLEB128 v @ rest) shift (take_bit shift V) = Some r
     \<and> finish r = V \<and> snd (snd (snd r)) = rest"
  using assms
proof (induction v arbitrary: shift rule: EncodeSLEB128.induct)
  case (1 v)
  define part :: u8 where "part = ucast (v AND 0x7f)"
  define v' where "v' = signed_drop_bit 7 v"
  have 7: "\<not> bit part 7"
    by (simp add: part_def and_0x7f bit_simps)
  have part7: "take_bit 7 part = ucast (take_bit 7 (signed_drop_bit shift V))"
    by (rule bit_word_eqI) (auto simp: part_def and_0x7f "1.prems" bit_simps)
  have v': "v' = signed_drop_bit (shift + 7) V"
    by (simp add: v'_def "1.prems" add.commute)
  have e: "EncodeSLEB128 v = (if (v' = 0 \<and> \<not> bit part 6) \<or> (v' = - 1 \<and> bit part 6) then [part]
     else (part OR 0x80) # EncodeSLEB128 v')"
    unfolding EncodeSLEB128.simps [of v] Let_def part_def [symmetric] v'_def [symmetric] and_0x40 by simp
  show ?case
  proof (cases "(v' = 0 \<and> \<not> bit part 6) \<or> (v' = - 1 \<and> bit part 6)")
    case True
    then have "v' = (if bit part 6 then - 1 else 0)" by auto
    then have "finish (take_bit (shift + 7) V, shift + 7, part, rest) = V"
      using last_part [of shift V "bit part 6" part rest] v' "1.prems" by simp
    moreover have "take_bit shift V OR push_bit shift (ucast (part AND 0x7f)) = take_bit (shift + 7) V"
      using part7 "1.prems" by (intro step_value)
    ultimately show ?thesis
      using True 7 by (simp add: e Let_def and_0x80)
  next
    case False
    have "shift < 63"
    proof (rule ccontr)
      assume "\<not> shift < 63"
      then have "v = (if bit V 63 then - 1 else 0)" "v' = (if bit V 63 then - 1 else 0)"
        using "1.prems" v' by (simp_all add: signed_drop_bit_top)
      with False show False by (auto simp: part_def and_0x7f bit_simps split: if_splits)
    qed
    then have "shift + 7 < 64" "7 dvd shift + 7"
      using "1.prems" by (auto elim!: dvdE)
    then have IH: "\<exists>r. DecodeSLEB128_loop (EncodeSLEB128 v' @ rest) (shift + 7) (take_bit (shift + 7) V) = Some r
        \<and> finish r = V \<and> snd (snd (snd r)) = rest"
      using "1.IH" [OF part_def v'_def _ v'] False by (simp add: and_0x40)
    have "take_bit 7 (part OR 0x80) = ucast (take_bit 7 (signed_drop_bit shift V))"
      by (simp add: or_0x80 part7)
    then have "take_bit shift V OR push_bit shift (ucast ((part OR 0x80) AND 0x7f)) = take_bit (shift + 7) V"
      using "1.prems" by (intro step_value)
    moreover have "(part OR 0x80) AND 0x80 \<noteq> 0"
      by (simp add: and_0x80 bit_or_iff)
    ultimately have "DecodeSLEB128_loop (EncodeSLEB128 v @ rest) shift (take_bit shift V)
        = DecodeSLEB128_loop (EncodeSLEB128 v' @ rest) (shift + 7) (take_bit (shift + 7) V)"
      using False by (simp only: e if_False append_Cons DecodeSLEB128_loop.simps Let_def not_False_eq_True if_True)
    with IH show ?thesis by (simp only:)
  qed
qed

text \<open>C36. Decoding at position \<^term>\<open>length pre\<close> the bytes the SLEB128 encoder wrote for
  \<open>v\<close> gives back \<open>v\<close> and the position of the first byte after the encoding, for every
  64-bit \<open>v\<close> and whatever surrounds the encoding.\<close>

theorem DecodeSLEB128_EncodeSLEB128:
  "DecodeSLEB128 (pre @ EncodeSLEB128 v @ rest) (length pre)
   = Some (v, length pre + length (EncodeSLEB128 v))"
proof -
  obtain r where "DecodeSLEB128_loop (EncodeSLEB128 v @ rest) 0 0 = Some r"
      "finish r = v" "snd (snd (snd r)) = rest"
    using loop_Encode [of v 0 v rest] by auto
  then show ?thesis
    by (cases r) (simp add: DecodeSLEB128_def finish_def)
qed

end
