(* ===== verification/Arm64_Instr.thy ===== *)
theory Arm64_Instr
  imports Prelude
begin

text \<open>
  The instruction format of the ARM64 target: \<^verbatim>\<open>runtime/vm/constants_arm64.h\<close>.

  An instruction is the 32-bit word the class \<open>Instr\<close> reads from memory. Every operation enum of
  the header is a datatype with its enumerators, and a function \<open>\<dots>_bits\<close> giving their values; the
  \<open>\<dots>Mask\<close> and \<open>\<dots>Fixed\<close> enumerators, which only the \<open>IS_OP\<close> predicates use, are constants. The
  field accessors return \<open>int\<close>s as in the header. A \<open>Register\<close> is its number, with \<open>CSP\<close> and \<open>ZR\<close>
  the two readings of register 31 that the assembler keeps apart.
\<close>

type_synonym Register = nat
type_synonym VRegister = nat

definition R31 :: Register where "R31 = 31"
definition CSP :: Register where "CSP = 32"
definition ZR :: Register where "ZR = 33"
definition TMP :: Register where "TMP = 16"
definition TMP2 :: Register where "TMP2 = 17"
definition LR :: Register where "LR = 30"

definition ConcreteRegister :: "Register \<Rightarrow> Register" where
  "ConcreteRegister r = (if r = ZR \<or> r = CSP then R31 else r)"

datatype Condition =
  EQ | NE | CS | CC | MI | PL | VS | VC | HI | LS | GE | LT | GT | LE | AL | NV

primrec Condition_val :: "Condition \<Rightarrow> i32" where
  "Condition_val EQ = 0"
| "Condition_val NE = 1"
| "Condition_val CS = 2"
| "Condition_val CC = 3"
| "Condition_val MI = 4"
| "Condition_val PL = 5"
| "Condition_val VS = 6"
| "Condition_val VC = 7"
| "Condition_val HI = 8"
| "Condition_val LS = 9"
| "Condition_val GE = 10"
| "Condition_val LT = 11"
| "Condition_val GT = 12"
| "Condition_val LE = 13"
| "Condition_val AL = 14"
| "Condition_val NV = 15"

text \<open>
  A condition read from a four-bit field, by the enumerator's value; the inverse of
  \<^const>\<open>Condition_val\<close> on the values such a field has.
\<close>

definition Condition_of :: "i32 \<Rightarrow> Condition" where
  "Condition_of i = [EQ, NE, CS, CC, MI, PL, VS, VC, HI, LS, GE, LT, GT, LE, AL, NV] ! unat (take_bit 4 i)"

definition InvertCondition :: "Condition \<Rightarrow> Condition" where
  "InvertCondition c = Condition_of (Condition_val c XOR 0x1)"

datatype OperandSize =
  kByte | kUnsignedByte | kHalfword | kUnsignedHalfword | kWord | kUnsignedWord
  | kDoubleWord | kSWord | kDWord | kQWord

primrec Log2OperandSizeBytes :: "OperandSize \<Rightarrow> nat" where
  "Log2OperandSizeBytes kByte = 0"
| "Log2OperandSizeBytes kUnsignedByte = 0"
| "Log2OperandSizeBytes kHalfword = 1"
| "Log2OperandSizeBytes kUnsignedHalfword = 1"
| "Log2OperandSizeBytes kWord = 2"
| "Log2OperandSizeBytes kUnsignedWord = 2"
| "Log2OperandSizeBytes kSWord = 2"
| "Log2OperandSizeBytes kDoubleWord = 3"
| "Log2OperandSizeBytes kDWord = 3"
| "Log2OperandSizeBytes kQWord = 4"

primrec IsSignedOperand :: "OperandSize \<Rightarrow> bool" where
  "IsSignedOperand kByte = True"
| "IsSignedOperand kHalfword = True"
| "IsSignedOperand kWord = True"
| "IsSignedOperand kUnsignedByte = False"
| "IsSignedOperand kUnsignedHalfword = False"
| "IsSignedOperand kUnsignedWord = False"
| "IsSignedOperand kDoubleWord = False"
| "IsSignedOperand kSWord = False"
| "IsSignedOperand kDWord = False"
| "IsSignedOperand kQWord = False"

section \<open>Operation encodings\<close>

abbreviation (input) B0 :: i32 where "B0 \<equiv> 0x1"
abbreviation (input) B1 :: i32 where "B1 \<equiv> 0x2"
abbreviation (input) B2 :: i32 where "B2 \<equiv> 0x4"
abbreviation (input) B3 :: i32 where "B3 \<equiv> 0x8"
abbreviation (input) B4 :: i32 where "B4 \<equiv> 0x10"
abbreviation (input) B5 :: i32 where "B5 \<equiv> 0x20"
abbreviation (input) B6 :: i32 where "B6 \<equiv> 0x40"
abbreviation (input) B7 :: i32 where "B7 \<equiv> 0x80"
abbreviation (input) B8 :: i32 where "B8 \<equiv> 0x100"
abbreviation (input) B9 :: i32 where "B9 \<equiv> 0x200"
abbreviation (input) B10 :: i32 where "B10 \<equiv> 0x400"
abbreviation (input) B11 :: i32 where "B11 \<equiv> 0x800"
abbreviation (input) B12 :: i32 where "B12 \<equiv> 0x1000"
abbreviation (input) B13 :: i32 where "B13 \<equiv> 0x2000"
abbreviation (input) B14 :: i32 where "B14 \<equiv> 0x4000"
abbreviation (input) B15 :: i32 where "B15 \<equiv> 0x8000"
abbreviation (input) B16 :: i32 where "B16 \<equiv> 0x10000"
abbreviation (input) B17 :: i32 where "B17 \<equiv> 0x20000"
abbreviation (input) B18 :: i32 where "B18 \<equiv> 0x40000"
abbreviation (input) B19 :: i32 where "B19 \<equiv> 0x80000"
abbreviation (input) B20 :: i32 where "B20 \<equiv> 0x100000"
abbreviation (input) B21 :: i32 where "B21 \<equiv> 0x200000"
abbreviation (input) B22 :: i32 where "B22 \<equiv> 0x400000"
abbreviation (input) B23 :: i32 where "B23 \<equiv> 0x800000"
abbreviation (input) B24 :: i32 where "B24 \<equiv> 0x1000000"
abbreviation (input) B25 :: i32 where "B25 \<equiv> 0x2000000"
abbreviation (input) B26 :: i32 where "B26 \<equiv> 0x4000000"
abbreviation (input) B27 :: i32 where "B27 \<equiv> 0x8000000"
abbreviation (input) B28 :: i32 where "B28 \<equiv> 0x10000000"
abbreviation (input) B29 :: i32 where "B29 \<equiv> 0x20000000"
abbreviation (input) B30 :: i32 where "B30 \<equiv> 0x40000000"
abbreviation (input) B31 :: i32 where "B31 \<equiv> 0x80000000"

definition DPImmediateMask :: i32 where "DPImmediateMask = 0x1c000000"
definition DPImmediateFixed :: i32 where "DPImmediateFixed = B28"
definition CompareBranchMask :: i32 where "CompareBranchMask = 0x1c000000"
definition CompareBranchFixed :: i32 where "CompareBranchFixed = B28 OR B26"
definition LoadStoreMask :: i32 where "LoadStoreMask = B27 OR B25"
definition LoadStoreFixed :: i32 where "LoadStoreFixed = B27"
definition DPRegisterMask :: i32 where "DPRegisterMask = 0x0e000000"
definition DPRegisterFixed :: i32 where "DPRegisterFixed = B27 OR B25"
definition DPSimd1Mask :: i32 where "DPSimd1Mask = 0x1e000000"
definition DPSimd1Fixed :: i32 where "DPSimd1Fixed = B27 OR B26 OR B25"
definition DPSimd2Mask :: i32 where "DPSimd2Mask = 0x1e000000"
definition DPSimd2Fixed :: i32 where "DPSimd2Fixed = B28 OR DPSimd1Fixed"
definition FPMask :: i32 where "FPMask = 0x5e000000"
definition FPFixed :: i32 where "FPFixed = B28 OR B27 OR B26 OR B25"

definition CompareAndBranchMask :: i32 where "CompareAndBranchMask = 0x7e000000"
definition CompareAndBranchFixed :: i32 where "CompareAndBranchFixed = CompareBranchFixed OR B29"

datatype CompareAndBranchOp =
  CBZ | CBNZ

primrec CompareAndBranchOp_bits :: "CompareAndBranchOp \<Rightarrow> i32" where
  "CompareAndBranchOp_bits CBZ = CompareAndBranchFixed"
| "CompareAndBranchOp_bits CBNZ = CompareAndBranchFixed OR B24"

definition ConditionalBranchMask :: i32 where "ConditionalBranchMask = 0xfe000000"
definition ConditionalBranchFixed :: i32 where "ConditionalBranchFixed = CompareBranchFixed OR B30"

datatype ConditionalBranchOp =
  BCOND

primrec ConditionalBranchOp_bits :: "ConditionalBranchOp \<Rightarrow> i32" where
  "ConditionalBranchOp_bits BCOND = ConditionalBranchFixed"

definition ExceptionGenMask :: i32 where "ExceptionGenMask = 0xff000000"
definition ExceptionGenFixed :: i32 where "ExceptionGenFixed = CompareBranchFixed OR B31 OR B30"

datatype ExceptionGenOp =
  SVC | BRK | HLT

primrec ExceptionGenOp_bits :: "ExceptionGenOp \<Rightarrow> i32" where
  "ExceptionGenOp_bits SVC = ExceptionGenFixed OR B0"
| "ExceptionGenOp_bits BRK = ExceptionGenFixed OR B21"
| "ExceptionGenOp_bits HLT = ExceptionGenFixed OR B22"

definition SystemMask :: i32 where "SystemMask = 0xffc00000"
definition SystemFixed :: i32 where "SystemFixed = CompareBranchFixed OR B31 OR B30 OR B24"

datatype SystemOp =
  HINT | CLREX

primrec SystemOp_bits :: "SystemOp \<Rightarrow> i32" where
  "SystemOp_bits HINT = SystemFixed OR B17 OR B16 OR B13 OR B4 OR B3 OR B2 OR B1 OR B0"
| "SystemOp_bits CLREX =
     SystemFixed OR B17 OR B16 OR B13 OR B12 OR B11 OR B10 OR B9 OR B8 OR B6 OR B4 OR B3 OR B2 OR B1 OR B0"

definition TestAndBranchMask :: i32 where "TestAndBranchMask = 0x7e000000"
definition TestAndBranchFixed :: i32 where "TestAndBranchFixed = CompareBranchFixed OR B29 OR B25"

datatype TestAndBranchOp =
  TBZ | TBNZ

primrec TestAndBranchOp_bits :: "TestAndBranchOp \<Rightarrow> i32" where
  "TestAndBranchOp_bits TBZ = TestAndBranchFixed"
| "TestAndBranchOp_bits TBNZ = TestAndBranchFixed OR B24"

definition UnconditionalBranchMask :: i32 where "UnconditionalBranchMask = 0x7c000000"
definition UnconditionalBranchFixed :: i32 where "UnconditionalBranchFixed = CompareBranchFixed"

datatype UnconditionalBranchOp =
  B | BL

primrec UnconditionalBranchOp_bits :: "UnconditionalBranchOp \<Rightarrow> i32" where
  "UnconditionalBranchOp_bits B = UnconditionalBranchFixed"
| "UnconditionalBranchOp_bits BL = UnconditionalBranchFixed OR B31"

definition UnconditionalBranchRegMask :: i32 where "UnconditionalBranchRegMask = 0xfe000000"
definition UnconditionalBranchRegFixed :: i32 where "UnconditionalBranchRegFixed = CompareBranchFixed OR B31 OR B30 OR B25"

datatype UnconditionalBranchRegOp =
  BR | BLR | RET

primrec UnconditionalBranchRegOp_bits :: "UnconditionalBranchRegOp \<Rightarrow> i32" where
  "UnconditionalBranchRegOp_bits BR =
     UnconditionalBranchRegFixed OR B20 OR B19 OR B18 OR B17 OR B16"
| "UnconditionalBranchRegOp_bits BLR =
     (UnconditionalBranchRegFixed OR B20 OR B19 OR B18 OR B17 OR B16) OR B21"
| "UnconditionalBranchRegOp_bits RET =
     (UnconditionalBranchRegFixed OR B20 OR B19 OR B18 OR B17 OR B16) OR B22"

definition LoadRegLiteralMask :: i32 where "LoadRegLiteralMask = 0x3b000000"
definition LoadRegLiteralFixed :: i32 where "LoadRegLiteralFixed = LoadStoreFixed OR B28"

datatype LoadRegLiteralOp =
  LDRpc

primrec LoadRegLiteralOp_bits :: "LoadRegLiteralOp \<Rightarrow> i32" where
  "LoadRegLiteralOp_bits LDRpc = LoadRegLiteralFixed"

definition LoadStoreExclusiveMask :: i32 where "LoadStoreExclusiveMask = 0x3f000000"
definition LoadStoreExclusiveFixed :: i32 where "LoadStoreExclusiveFixed = B27"

datatype LoadStoreExclusiveOp =
  LDXR | STXR

primrec LoadStoreExclusiveOp_bits :: "LoadStoreExclusiveOp \<Rightarrow> i32" where
  "LoadStoreExclusiveOp_bits LDXR = LoadStoreExclusiveFixed OR B22"
| "LoadStoreExclusiveOp_bits STXR = LoadStoreExclusiveFixed"

definition LoadStoreRegMask :: i32 where "LoadStoreRegMask = 0x3a000000"
definition LoadStoreRegFixed :: i32 where "LoadStoreRegFixed = LoadStoreFixed OR B29 OR B28"

datatype LoadStoreRegOp =
  STR_op | LDR | LDRS | FSTR | FLDR | FSTRQ | FLDRQ

primrec LoadStoreRegOp_bits :: "LoadStoreRegOp \<Rightarrow> i32" where
  "LoadStoreRegOp_bits STR_op = LoadStoreRegFixed"
| "LoadStoreRegOp_bits LDR = LoadStoreRegFixed OR B22"
| "LoadStoreRegOp_bits LDRS = LoadStoreRegFixed OR B23"
| "LoadStoreRegOp_bits FSTR = (LoadStoreRegFixed) OR B26"
| "LoadStoreRegOp_bits FLDR = (LoadStoreRegFixed OR B22) OR B26"
| "LoadStoreRegOp_bits FSTRQ = (LoadStoreRegFixed) OR B26 OR B23"
| "LoadStoreRegOp_bits FLDRQ = (LoadStoreRegFixed OR B22) OR B26 OR B23"

definition LoadStoreRegPairMask :: i32 where "LoadStoreRegPairMask = 0x3a000000"
definition LoadStoreRegPairFixed :: i32 where "LoadStoreRegPairFixed = LoadStoreFixed OR B29"

datatype LoadStoreRegPairOp =
  STP | LDP

primrec LoadStoreRegPairOp_bits :: "LoadStoreRegPairOp \<Rightarrow> i32" where
  "LoadStoreRegPairOp_bits STP = LoadStoreRegPairFixed"
| "LoadStoreRegPairOp_bits LDP = LoadStoreRegPairFixed OR B22"

definition AddSubImmMask :: i32 where "AddSubImmMask = 0x1f000000"
definition AddSubImmFixed :: i32 where "AddSubImmFixed = DPImmediateFixed OR B24"

datatype AddSubImmOp =
  ADDI | SUBI

primrec AddSubImmOp_bits :: "AddSubImmOp \<Rightarrow> i32" where
  "AddSubImmOp_bits ADDI = AddSubImmFixed"
| "AddSubImmOp_bits SUBI = AddSubImmFixed OR B30"

definition BitfieldMask :: i32 where "BitfieldMask = 0x1f800000"
definition BitfieldFixed :: i32 where "BitfieldFixed = 0x13000000"
definition Bitfield64 :: i32 where "Bitfield64 = B31 OR B22"

datatype BitfieldOp =
  SBFM | BFM | UBFM

primrec BitfieldOp_bits :: "BitfieldOp \<Rightarrow> i32" where
  "BitfieldOp_bits SBFM = BitfieldFixed"
| "BitfieldOp_bits BFM = BitfieldFixed OR B29"
| "BitfieldOp_bits UBFM = BitfieldFixed OR B30"

definition LogicalImmMask :: i32 where "LogicalImmMask = 0x1f800000"
definition LogicalImmFixed :: i32 where "LogicalImmFixed = DPImmediateFixed OR B25"

datatype LogicalImmOp =
  ANDI | ORRI | EORI | ANDIS

primrec LogicalImmOp_bits :: "LogicalImmOp \<Rightarrow> i32" where
  "LogicalImmOp_bits ANDI = LogicalImmFixed"
| "LogicalImmOp_bits ORRI = LogicalImmFixed OR B29"
| "LogicalImmOp_bits EORI = LogicalImmFixed OR B30"
| "LogicalImmOp_bits ANDIS = LogicalImmFixed OR B30 OR B29"

definition MoveWideMask :: i32 where "MoveWideMask = 0x1f800000"
definition MoveWideFixed :: i32 where "MoveWideFixed = DPImmediateFixed OR B25 OR B23"

datatype MoveWideOp =
  MOVN | MOVZ | MOVK

primrec MoveWideOp_bits :: "MoveWideOp \<Rightarrow> i32" where
  "MoveWideOp_bits MOVN = MoveWideFixed"
| "MoveWideOp_bits MOVZ = MoveWideFixed OR B30"
| "MoveWideOp_bits MOVK = MoveWideFixed OR B30 OR B29"

definition PCRelMask :: i32 where "PCRelMask = 0x1f000000"
definition PCRelFixed :: i32 where "PCRelFixed = DPImmediateFixed"

datatype PCRelOp =
  ADR | ADRP

primrec PCRelOp_bits :: "PCRelOp \<Rightarrow> i32" where
  "PCRelOp_bits ADR = PCRelFixed"
| "PCRelOp_bits ADRP = PCRelFixed OR B31"

definition AddSubShiftExtMask :: i32 where "AddSubShiftExtMask = 0x1f000000"
definition AddSubShiftExtFixed :: i32 where "AddSubShiftExtFixed = DPRegisterFixed OR B24"

datatype AddSubShiftExtOp =
  ADD | SUB

primrec AddSubShiftExtOp_bits :: "AddSubShiftExtOp \<Rightarrow> i32" where
  "AddSubShiftExtOp_bits ADD = AddSubShiftExtFixed"
| "AddSubShiftExtOp_bits SUB = AddSubShiftExtFixed OR B30"

definition AddSubWithCarryMask :: i32 where "AddSubWithCarryMask = 0x1fe00000"
definition AddSubWithCarryFixed :: i32 where "AddSubWithCarryFixed = DPRegisterFixed OR B28"

datatype AddSubWithCarryOp =
  ADC | SBC

primrec AddSubWithCarryOp_bits :: "AddSubWithCarryOp \<Rightarrow> i32" where
  "AddSubWithCarryOp_bits ADC = AddSubWithCarryFixed"
| "AddSubWithCarryOp_bits SBC = AddSubWithCarryFixed OR B30"

definition ConditionalSelectMask :: i32 where "ConditionalSelectMask = 0x1fe00000"
definition ConditionalSelectFixed :: i32 where "ConditionalSelectFixed = DPRegisterFixed OR B28 OR B23"

datatype ConditionalSelectOp =
  CSEL | CSINC | CSINV | CSNEG

primrec ConditionalSelectOp_bits :: "ConditionalSelectOp \<Rightarrow> i32" where
  "ConditionalSelectOp_bits CSEL = ConditionalSelectFixed"
| "ConditionalSelectOp_bits CSINC = ConditionalSelectFixed OR B10"
| "ConditionalSelectOp_bits CSINV = ConditionalSelectFixed OR B30"
| "ConditionalSelectOp_bits CSNEG = ConditionalSelectFixed OR B10 OR B30"

definition MiscDP1SourceMask :: i32 where "MiscDP1SourceMask = 0x5fe00000"
definition MiscDP1SourceFixed :: i32 where "MiscDP1SourceFixed = DPRegisterFixed OR B30 OR B28 OR B23 OR B22"

datatype MiscDP1SourceOp =
  CLZ

primrec MiscDP1SourceOp_bits :: "MiscDP1SourceOp \<Rightarrow> i32" where
  "MiscDP1SourceOp_bits CLZ = MiscDP1SourceFixed OR B12"

definition MiscDP2SourceMask :: i32 where "MiscDP2SourceMask = 0x5fe00000"
definition MiscDP2SourceFixed :: i32 where "MiscDP2SourceFixed = DPRegisterFixed OR B28 OR B23 OR B22"

datatype MiscDP2SourceOp =
  UDIV | SDIV | LSLV | LSRV | ASRV

primrec MiscDP2SourceOp_bits :: "MiscDP2SourceOp \<Rightarrow> i32" where
  "MiscDP2SourceOp_bits UDIV = MiscDP2SourceFixed OR B11"
| "MiscDP2SourceOp_bits SDIV = MiscDP2SourceFixed OR B11 OR B10"
| "MiscDP2SourceOp_bits LSLV = MiscDP2SourceFixed OR B13"
| "MiscDP2SourceOp_bits LSRV = MiscDP2SourceFixed OR B13 OR B10"
| "MiscDP2SourceOp_bits ASRV = MiscDP2SourceFixed OR B13 OR B11"

definition MiscDP3SourceMask :: i32 where "MiscDP3SourceMask = 0x1f000000"
definition MiscDP3SourceFixed :: i32 where "MiscDP3SourceFixed = DPRegisterFixed OR B28 OR B24"

datatype MiscDP3SourceOp =
  MADDW | MADD | MSUBW | MSUB | SMULH | UMULH | SMADDL | UMADDL | SMSUBL | UMSUBL

primrec MiscDP3SourceOp_bits :: "MiscDP3SourceOp \<Rightarrow> i32" where
  "MiscDP3SourceOp_bits MADDW = MiscDP3SourceFixed"
| "MiscDP3SourceOp_bits MADD = MiscDP3SourceFixed OR B31"
| "MiscDP3SourceOp_bits MSUBW = MiscDP3SourceFixed OR B15"
| "MiscDP3SourceOp_bits MSUB = MiscDP3SourceFixed OR B31 OR B15"
| "MiscDP3SourceOp_bits SMULH = MiscDP3SourceFixed OR B31 OR B22"
| "MiscDP3SourceOp_bits UMULH = MiscDP3SourceFixed OR B31 OR B23 OR B22"
| "MiscDP3SourceOp_bits SMADDL = MiscDP3SourceFixed OR B31 OR B21"
| "MiscDP3SourceOp_bits UMADDL = MiscDP3SourceFixed OR B31 OR B23 OR B21"
| "MiscDP3SourceOp_bits SMSUBL = MiscDP3SourceFixed OR B31 OR B21 OR B15"
| "MiscDP3SourceOp_bits UMSUBL = MiscDP3SourceFixed OR B31 OR B23 OR B21 OR B15"

definition LogicalShiftMask :: i32 where "LogicalShiftMask = 0x1f000000"
definition LogicalShiftFixed :: i32 where "LogicalShiftFixed = DPRegisterFixed"

datatype LogicalShiftOp =
  AND_op | BIC | ORR | ORN | EOR | EON | ANDS | BICS

primrec LogicalShiftOp_bits :: "LogicalShiftOp \<Rightarrow> i32" where
  "LogicalShiftOp_bits AND_op = LogicalShiftFixed"
| "LogicalShiftOp_bits BIC = LogicalShiftFixed OR B21"
| "LogicalShiftOp_bits ORR = LogicalShiftFixed OR B29"
| "LogicalShiftOp_bits ORN = LogicalShiftFixed OR B29 OR B21"
| "LogicalShiftOp_bits EOR = LogicalShiftFixed OR B30"
| "LogicalShiftOp_bits EON = LogicalShiftFixed OR B30 OR B21"
| "LogicalShiftOp_bits ANDS = LogicalShiftFixed OR B30 OR B29"
| "LogicalShiftOp_bits BICS = LogicalShiftFixed OR B30 OR B29 OR B21"

definition SIMDCopyMask :: i32 where "SIMDCopyMask = 0x9fe08400"
definition SIMDCopyFixed :: i32 where "SIMDCopyFixed = DPSimd1Fixed OR B10"

datatype SIMDCopyOp =
  VDUPI | VINSI | VMOVW | VMOVX | VDUP | VINS

primrec SIMDCopyOp_bits :: "SIMDCopyOp \<Rightarrow> i32" where
  "SIMDCopyOp_bits VDUPI = SIMDCopyFixed OR B30 OR B11"
| "SIMDCopyOp_bits VINSI = SIMDCopyFixed OR B30 OR B12 OR B11"
| "SIMDCopyOp_bits VMOVW = SIMDCopyFixed OR B13 OR B12 OR B11"
| "SIMDCopyOp_bits VMOVX = SIMDCopyFixed OR B30 OR B13 OR B12 OR B11"
| "SIMDCopyOp_bits VDUP = SIMDCopyFixed OR B30"
| "SIMDCopyOp_bits VINS = SIMDCopyFixed OR B30 OR B29"

definition SIMDThreeSameMask :: i32 where "SIMDThreeSameMask = 0x9f200400"
definition SIMDThreeSameFixed :: i32 where "SIMDThreeSameFixed = DPSimd1Fixed OR B21 OR B10"

datatype SIMDThreeSameOp =
  VAND | VORR | VEOR | VADDW | VADDX | VSUBW | VSUBX | VADDS | VADDD | VSUBS | VSUBD | VMULS
  | VMULD | VDIVS | VDIVD | VCEQS | VCEQD | VCGES | VCGED | VCGTS | VCGTD | VMAXS | VMAXD
  | VMINS | VMIND | VRECPSS | VRSQRTSS

primrec SIMDThreeSameOp_bits :: "SIMDThreeSameOp \<Rightarrow> i32" where
  "SIMDThreeSameOp_bits VAND = SIMDThreeSameFixed OR B30 OR B12 OR B11"
| "SIMDThreeSameOp_bits VORR = SIMDThreeSameFixed OR B30 OR B23 OR B12 OR B11"
| "SIMDThreeSameOp_bits VEOR = SIMDThreeSameFixed OR B30 OR B29 OR B12 OR B11"
| "SIMDThreeSameOp_bits VADDW = SIMDThreeSameFixed OR B30 OR B23 OR B15"
| "SIMDThreeSameOp_bits VADDX = SIMDThreeSameFixed OR B30 OR B23 OR B22 OR B15"
| "SIMDThreeSameOp_bits VSUBW = SIMDThreeSameFixed OR B30 OR B29 OR B23 OR B15"
| "SIMDThreeSameOp_bits VSUBX = SIMDThreeSameFixed OR B30 OR B29 OR B23 OR B22 OR B15"
| "SIMDThreeSameOp_bits VADDS = SIMDThreeSameFixed OR B30 OR B15 OR B14 OR B12"
| "SIMDThreeSameOp_bits VADDD = SIMDThreeSameFixed OR B30 OR B22 OR B15 OR B14 OR B12"
| "SIMDThreeSameOp_bits VSUBS = SIMDThreeSameFixed OR B30 OR B23 OR B15 OR B14 OR B12"
| "SIMDThreeSameOp_bits VSUBD = SIMDThreeSameFixed OR B30 OR B23 OR B22 OR B15 OR B14 OR B12"
| "SIMDThreeSameOp_bits VMULS = SIMDThreeSameFixed OR B30 OR B29 OR B15 OR B14 OR B12 OR B11"
| "SIMDThreeSameOp_bits VMULD = SIMDThreeSameFixed OR B30 OR B29 OR B22 OR B15 OR B14 OR B12 OR B11"
| "SIMDThreeSameOp_bits VDIVS = SIMDThreeSameFixed OR B30 OR B29 OR B15 OR B14 OR B13 OR B12 OR B11"
| "SIMDThreeSameOp_bits VDIVD =
     SIMDThreeSameFixed OR B30 OR B29 OR B22 OR B15 OR B14 OR B13 OR B12 OR B11"
| "SIMDThreeSameOp_bits VCEQS = SIMDThreeSameFixed OR B30 OR B15 OR B14 OR B13"
| "SIMDThreeSameOp_bits VCEQD = SIMDThreeSameFixed OR B30 OR B22 OR B15 OR B14 OR B13"
| "SIMDThreeSameOp_bits VCGES = SIMDThreeSameFixed OR B30 OR B29 OR B15 OR B14 OR B13"
| "SIMDThreeSameOp_bits VCGED = SIMDThreeSameFixed OR B30 OR B29 OR B22 OR B15 OR B14 OR B13"
| "SIMDThreeSameOp_bits VCGTS = SIMDThreeSameFixed OR B30 OR B29 OR B23 OR B15 OR B14 OR B13"
| "SIMDThreeSameOp_bits VCGTD = SIMDThreeSameFixed OR B30 OR B29 OR B23 OR B22 OR B15 OR B14 OR B13"
| "SIMDThreeSameOp_bits VMAXS = SIMDThreeSameFixed OR B30 OR B15 OR B14 OR B13 OR B12"
| "SIMDThreeSameOp_bits VMAXD = SIMDThreeSameFixed OR B30 OR B22 OR B15 OR B14 OR B13 OR B12"
| "SIMDThreeSameOp_bits VMINS = SIMDThreeSameFixed OR B30 OR B23 OR B15 OR B14 OR B13 OR B12"
| "SIMDThreeSameOp_bits VMIND = SIMDThreeSameFixed OR B30 OR B23 OR B22 OR B15 OR B14 OR B13 OR B12"
| "SIMDThreeSameOp_bits VRECPSS = SIMDThreeSameFixed OR B30 OR B15 OR B14 OR B13 OR B12 OR B11"
| "SIMDThreeSameOp_bits VRSQRTSS =
     SIMDThreeSameFixed OR B30 OR B23 OR B15 OR B14 OR B13 OR B12 OR B11"

definition SIMDTwoRegMask :: i32 where "SIMDTwoRegMask = 0x9f3e0c00"
definition SIMDTwoRegFixed :: i32 where "SIMDTwoRegFixed = DPSimd1Fixed OR B21 OR B11"

datatype SIMDTwoRegOp =
  VNOT | VABSS | VNEGS | VABSD | VNEGD | VSQRTS | VSQRTD | VRECPES | VRSQRTES

primrec SIMDTwoRegOp_bits :: "SIMDTwoRegOp \<Rightarrow> i32" where
  "SIMDTwoRegOp_bits VNOT = SIMDTwoRegFixed OR B30 OR B29 OR B14 OR B12"
| "SIMDTwoRegOp_bits VABSS = SIMDTwoRegFixed OR B30 OR B23 OR B15 OR B14 OR B13 OR B12"
| "SIMDTwoRegOp_bits VNEGS = SIMDTwoRegFixed OR B30 OR B29 OR B23 OR B15 OR B14 OR B13 OR B12"
| "SIMDTwoRegOp_bits VABSD = SIMDTwoRegFixed OR B30 OR B23 OR B22 OR B15 OR B14 OR B13 OR B12"
| "SIMDTwoRegOp_bits VNEGD =
     SIMDTwoRegFixed OR B30 OR B29 OR B23 OR B22 OR B15 OR B14 OR B13 OR B12"
| "SIMDTwoRegOp_bits VSQRTS =
     SIMDTwoRegFixed OR B30 OR B29 OR B23 OR B16 OR B15 OR B14 OR B13 OR B12"
| "SIMDTwoRegOp_bits VSQRTD =
     SIMDTwoRegFixed OR B30 OR B29 OR B23 OR B22 OR B16 OR B15 OR B14 OR B13 OR B12"
| "SIMDTwoRegOp_bits VRECPES = SIMDTwoRegFixed OR B30 OR B23 OR B16 OR B15 OR B14 OR B12"
| "SIMDTwoRegOp_bits VRSQRTES = SIMDTwoRegFixed OR B30 OR B29 OR B23 OR B16 OR B15 OR B14 OR B12"

definition FPCompareMask :: i32 where "FPCompareMask = 0xffa0fc07"
definition FPCompareFixed :: i32 where "FPCompareFixed = FPFixed OR B21 OR B13"

datatype FPCompareOp =
  FCMPD | FCMPZD

primrec FPCompareOp_bits :: "FPCompareOp \<Rightarrow> i32" where
  "FPCompareOp_bits FCMPD = FPCompareFixed OR B22"
| "FPCompareOp_bits FCMPZD = FPCompareFixed OR B22 OR B3"

definition FPOneSourceMask :: i32 where "FPOneSourceMask = 0x5f207c00"
definition FPOneSourceFixed :: i32 where "FPOneSourceFixed = FPFixed OR B21 OR B14"

datatype FPOneSourceOp =
  FMOVDD | FABSD | FNEGD | FSQRTD | FCVTDS | FCVTSD

primrec FPOneSourceOp_bits :: "FPOneSourceOp \<Rightarrow> i32" where
  "FPOneSourceOp_bits FMOVDD = FPOneSourceFixed OR B22"
| "FPOneSourceOp_bits FABSD = FPOneSourceFixed OR B22 OR B15"
| "FPOneSourceOp_bits FNEGD = FPOneSourceFixed OR B22 OR B16"
| "FPOneSourceOp_bits FSQRTD = FPOneSourceFixed OR B22 OR B16 OR B15"
| "FPOneSourceOp_bits FCVTDS = FPOneSourceFixed OR B15 OR B17"
| "FPOneSourceOp_bits FCVTSD = FPOneSourceFixed OR B22 OR B17"

definition FPTwoSourceMask :: i32 where "FPTwoSourceMask = 0xff200c00"
definition FPTwoSourceFixed :: i32 where "FPTwoSourceFixed = FPFixed OR B21 OR B11"

datatype FPTwoSourceOp =
  FMULD | FDIVD | FADDD | FSUBD

primrec FPTwoSourceOp_bits :: "FPTwoSourceOp \<Rightarrow> i32" where
  "FPTwoSourceOp_bits FMULD = FPTwoSourceFixed OR B22"
| "FPTwoSourceOp_bits FDIVD = FPTwoSourceFixed OR B22 OR B12"
| "FPTwoSourceOp_bits FADDD = FPTwoSourceFixed OR B22 OR B13"
| "FPTwoSourceOp_bits FSUBD = FPTwoSourceFixed OR B22 OR B13 OR B12"

definition FPImmMask :: i32 where "FPImmMask = 0x5f201c00"
definition FPImmFixed :: i32 where "FPImmFixed = FPFixed OR B21 OR B12"

datatype FPImmOp =
  FMOVSI | FMOVDI

primrec FPImmOp_bits :: "FPImmOp \<Rightarrow> i32" where
  "FPImmOp_bits FMOVSI = FPImmFixed"
| "FPImmOp_bits FMOVDI = FPImmFixed OR B22"

definition FPIntCvtMask :: i32 where "FPIntCvtMask = 0x5f00fc00"
definition FPIntCvtFixed :: i32 where "FPIntCvtFixed = FPFixed OR B21"

datatype FPIntCvtOp =
  FMOVRS | FMOVSR | FMOVRD | FMOVDR | FCVTZDS | SCVTFD

primrec FPIntCvtOp_bits :: "FPIntCvtOp \<Rightarrow> i32" where
  "FPIntCvtOp_bits FMOVRS = FPIntCvtFixed OR B18 OR B17"
| "FPIntCvtOp_bits FMOVSR = FPIntCvtFixed OR B18 OR B17 OR B16"
| "FPIntCvtOp_bits FMOVRD = FPIntCvtFixed OR B22 OR B18 OR B17"
| "FPIntCvtOp_bits FMOVDR = FPIntCvtFixed OR B22 OR B18 OR B17 OR B16"
| "FPIntCvtOp_bits FCVTZDS = FPIntCvtFixed OR B22 OR B20 OR B19"
| "FPIntCvtOp_bits SCVTFD = FPIntCvtFixed OR B22 OR B17"

lemmas op_consts =
  DPImmediateMask_def DPImmediateFixed_def CompareBranchMask_def CompareBranchFixed_def
  LoadStoreMask_def LoadStoreFixed_def DPRegisterMask_def DPRegisterFixed_def DPSimd1Mask_def
  DPSimd1Fixed_def DPSimd2Mask_def DPSimd2Fixed_def FPMask_def FPFixed_def
  CompareAndBranchMask_def CompareAndBranchFixed_def ConditionalBranchMask_def
  ConditionalBranchFixed_def ExceptionGenMask_def ExceptionGenFixed_def SystemMask_def
  SystemFixed_def TestAndBranchMask_def TestAndBranchFixed_def UnconditionalBranchMask_def
  UnconditionalBranchFixed_def UnconditionalBranchRegMask_def UnconditionalBranchRegFixed_def
  LoadRegLiteralMask_def LoadRegLiteralFixed_def LoadStoreExclusiveMask_def
  LoadStoreExclusiveFixed_def LoadStoreRegMask_def LoadStoreRegFixed_def
  LoadStoreRegPairMask_def LoadStoreRegPairFixed_def AddSubImmMask_def AddSubImmFixed_def
  BitfieldMask_def BitfieldFixed_def Bitfield64_def LogicalImmMask_def LogicalImmFixed_def
  MoveWideMask_def MoveWideFixed_def PCRelMask_def PCRelFixed_def AddSubShiftExtMask_def
  AddSubShiftExtFixed_def AddSubWithCarryMask_def AddSubWithCarryFixed_def
  ConditionalSelectMask_def ConditionalSelectFixed_def MiscDP1SourceMask_def
  MiscDP1SourceFixed_def MiscDP2SourceMask_def MiscDP2SourceFixed_def MiscDP3SourceMask_def
  MiscDP3SourceFixed_def LogicalShiftMask_def LogicalShiftFixed_def SIMDCopyMask_def
  SIMDCopyFixed_def SIMDThreeSameMask_def SIMDThreeSameFixed_def SIMDTwoRegMask_def
  SIMDTwoRegFixed_def FPCompareMask_def FPCompareFixed_def FPOneSourceMask_def
  FPOneSourceFixed_def FPTwoSourceMask_def FPTwoSourceFixed_def FPImmMask_def FPImmFixed_def
  FPIntCvtMask_def FPIntCvtFixed_def

section \<open>Fields of an instruction\<close>

definition IsDPImmediateOp :: "i32 \<Rightarrow> bool" where "IsDPImmediateOp i \<longleftrightarrow> i AND DPImmediateMask = DPImmediateFixed AND DPImmediateMask"
definition IsCompareBranchOp :: "i32 \<Rightarrow> bool" where "IsCompareBranchOp i \<longleftrightarrow> i AND CompareBranchMask = CompareBranchFixed AND CompareBranchMask"
definition IsLoadStoreOp :: "i32 \<Rightarrow> bool" where "IsLoadStoreOp i \<longleftrightarrow> i AND LoadStoreMask = LoadStoreFixed AND LoadStoreMask"
definition IsDPRegisterOp :: "i32 \<Rightarrow> bool" where "IsDPRegisterOp i \<longleftrightarrow> i AND DPRegisterMask = DPRegisterFixed AND DPRegisterMask"
definition IsDPSimd1Op :: "i32 \<Rightarrow> bool" where "IsDPSimd1Op i \<longleftrightarrow> i AND DPSimd1Mask = DPSimd1Fixed AND DPSimd1Mask"
definition IsDPSimd2Op :: "i32 \<Rightarrow> bool" where "IsDPSimd2Op i \<longleftrightarrow> i AND DPSimd2Mask = DPSimd2Fixed AND DPSimd2Mask"
definition IsFPOp :: "i32 \<Rightarrow> bool" where "IsFPOp i \<longleftrightarrow> i AND FPMask = FPFixed AND FPMask"
definition IsCompareAndBranchOp :: "i32 \<Rightarrow> bool" where "IsCompareAndBranchOp i \<longleftrightarrow> i AND CompareAndBranchMask = CompareAndBranchFixed AND CompareAndBranchMask"
definition IsConditionalBranchOp :: "i32 \<Rightarrow> bool" where "IsConditionalBranchOp i \<longleftrightarrow> i AND ConditionalBranchMask = ConditionalBranchFixed AND ConditionalBranchMask"
definition IsExceptionGenOp :: "i32 \<Rightarrow> bool" where "IsExceptionGenOp i \<longleftrightarrow> i AND ExceptionGenMask = ExceptionGenFixed AND ExceptionGenMask"
definition IsSystemOp :: "i32 \<Rightarrow> bool" where "IsSystemOp i \<longleftrightarrow> i AND SystemMask = SystemFixed AND SystemMask"
definition IsTestAndBranchOp :: "i32 \<Rightarrow> bool" where "IsTestAndBranchOp i \<longleftrightarrow> i AND TestAndBranchMask = TestAndBranchFixed AND TestAndBranchMask"
definition IsUnconditionalBranchOp :: "i32 \<Rightarrow> bool" where "IsUnconditionalBranchOp i \<longleftrightarrow> i AND UnconditionalBranchMask = UnconditionalBranchFixed AND UnconditionalBranchMask"
definition IsUnconditionalBranchRegOp :: "i32 \<Rightarrow> bool" where "IsUnconditionalBranchRegOp i \<longleftrightarrow> i AND UnconditionalBranchRegMask = UnconditionalBranchRegFixed AND UnconditionalBranchRegMask"
definition IsLoadStoreRegOp :: "i32 \<Rightarrow> bool" where "IsLoadStoreRegOp i \<longleftrightarrow> i AND LoadStoreRegMask = LoadStoreRegFixed AND LoadStoreRegMask"
definition IsLoadStoreRegPairOp :: "i32 \<Rightarrow> bool" where "IsLoadStoreRegPairOp i \<longleftrightarrow> i AND LoadStoreRegPairMask = LoadStoreRegPairFixed AND LoadStoreRegPairMask"
definition IsLoadRegLiteralOp :: "i32 \<Rightarrow> bool" where "IsLoadRegLiteralOp i \<longleftrightarrow> i AND LoadRegLiteralMask = LoadRegLiteralFixed AND LoadRegLiteralMask"
definition IsLoadStoreExclusiveOp :: "i32 \<Rightarrow> bool" where "IsLoadStoreExclusiveOp i \<longleftrightarrow> i AND LoadStoreExclusiveMask = LoadStoreExclusiveFixed AND LoadStoreExclusiveMask"
definition IsAddSubImmOp :: "i32 \<Rightarrow> bool" where "IsAddSubImmOp i \<longleftrightarrow> i AND AddSubImmMask = AddSubImmFixed AND AddSubImmMask"
definition IsBitfieldOp :: "i32 \<Rightarrow> bool" where "IsBitfieldOp i \<longleftrightarrow> i AND BitfieldMask = BitfieldFixed AND BitfieldMask"
definition IsLogicalImmOp :: "i32 \<Rightarrow> bool" where "IsLogicalImmOp i \<longleftrightarrow> i AND LogicalImmMask = LogicalImmFixed AND LogicalImmMask"
definition IsMoveWideOp :: "i32 \<Rightarrow> bool" where "IsMoveWideOp i \<longleftrightarrow> i AND MoveWideMask = MoveWideFixed AND MoveWideMask"
definition IsPCRelOp :: "i32 \<Rightarrow> bool" where "IsPCRelOp i \<longleftrightarrow> i AND PCRelMask = PCRelFixed AND PCRelMask"
definition IsAddSubShiftExtOp :: "i32 \<Rightarrow> bool" where "IsAddSubShiftExtOp i \<longleftrightarrow> i AND AddSubShiftExtMask = AddSubShiftExtFixed AND AddSubShiftExtMask"
definition IsAddSubWithCarryOp :: "i32 \<Rightarrow> bool" where "IsAddSubWithCarryOp i \<longleftrightarrow> i AND AddSubWithCarryMask = AddSubWithCarryFixed AND AddSubWithCarryMask"
definition IsConditionalSelectOp :: "i32 \<Rightarrow> bool" where "IsConditionalSelectOp i \<longleftrightarrow> i AND ConditionalSelectMask = ConditionalSelectFixed AND ConditionalSelectMask"
definition IsMiscDP1SourceOp :: "i32 \<Rightarrow> bool" where "IsMiscDP1SourceOp i \<longleftrightarrow> i AND MiscDP1SourceMask = MiscDP1SourceFixed AND MiscDP1SourceMask"
definition IsMiscDP2SourceOp :: "i32 \<Rightarrow> bool" where "IsMiscDP2SourceOp i \<longleftrightarrow> i AND MiscDP2SourceMask = MiscDP2SourceFixed AND MiscDP2SourceMask"
definition IsMiscDP3SourceOp :: "i32 \<Rightarrow> bool" where "IsMiscDP3SourceOp i \<longleftrightarrow> i AND MiscDP3SourceMask = MiscDP3SourceFixed AND MiscDP3SourceMask"
definition IsLogicalShiftOp :: "i32 \<Rightarrow> bool" where "IsLogicalShiftOp i \<longleftrightarrow> i AND LogicalShiftMask = LogicalShiftFixed AND LogicalShiftMask"
definition IsSIMDCopyOp :: "i32 \<Rightarrow> bool" where "IsSIMDCopyOp i \<longleftrightarrow> i AND SIMDCopyMask = SIMDCopyFixed AND SIMDCopyMask"
definition IsSIMDThreeSameOp :: "i32 \<Rightarrow> bool" where "IsSIMDThreeSameOp i \<longleftrightarrow> i AND SIMDThreeSameMask = SIMDThreeSameFixed AND SIMDThreeSameMask"
definition IsSIMDTwoRegOp :: "i32 \<Rightarrow> bool" where "IsSIMDTwoRegOp i \<longleftrightarrow> i AND SIMDTwoRegMask = SIMDTwoRegFixed AND SIMDTwoRegMask"
definition IsFPCompareOp :: "i32 \<Rightarrow> bool" where "IsFPCompareOp i \<longleftrightarrow> i AND FPCompareMask = FPCompareFixed AND FPCompareMask"
definition IsFPOneSourceOp :: "i32 \<Rightarrow> bool" where "IsFPOneSourceOp i \<longleftrightarrow> i AND FPOneSourceMask = FPOneSourceFixed AND FPOneSourceMask"
definition IsFPTwoSourceOp :: "i32 \<Rightarrow> bool" where "IsFPTwoSourceOp i \<longleftrightarrow> i AND FPTwoSourceMask = FPTwoSourceFixed AND FPTwoSourceMask"
definition IsFPImmOp :: "i32 \<Rightarrow> bool" where "IsFPImmOp i \<longleftrightarrow> i AND FPImmMask = FPImmFixed AND FPImmMask"
definition IsFPIntCvtOp :: "i32 \<Rightarrow> bool" where "IsFPIntCvtOp i \<longleftrightarrow> i AND FPIntCvtMask = FPIntCvtFixed AND FPIntCvtMask"

lemmas IS_OP =
  IsDPImmediateOp_def IsCompareBranchOp_def IsLoadStoreOp_def IsDPRegisterOp_def
  IsDPSimd1Op_def IsDPSimd2Op_def IsFPOp_def IsCompareAndBranchOp_def IsConditionalBranchOp_def
  IsExceptionGenOp_def IsSystemOp_def IsTestAndBranchOp_def IsUnconditionalBranchOp_def
  IsUnconditionalBranchRegOp_def IsLoadStoreRegOp_def IsLoadStoreRegPairOp_def
  IsLoadRegLiteralOp_def IsLoadStoreExclusiveOp_def IsAddSubImmOp_def IsBitfieldOp_def
  IsLogicalImmOp_def IsMoveWideOp_def IsPCRelOp_def IsAddSubShiftExtOp_def
  IsAddSubWithCarryOp_def IsConditionalSelectOp_def IsMiscDP1SourceOp_def IsMiscDP2SourceOp_def
  IsMiscDP3SourceOp_def IsLogicalShiftOp_def IsSIMDCopyOp_def IsSIMDThreeSameOp_def
  IsSIMDTwoRegOp_def IsFPCompareOp_def IsFPOneSourceOp_def IsFPTwoSourceOp_def IsFPImmOp_def
  IsFPIntCvtOp_def

definition Bit :: "i32 \<Rightarrow> nat \<Rightarrow> i32" where
  "Bit i nr = signed_drop_bit nr i AND 1"

definition Bits :: "i32 \<Rightarrow> nat \<Rightarrow> nat \<Rightarrow> i32" where
  "Bits i shift count = signed_drop_bit shift i AND (push_bit count 1 - 1)"

definition NField :: "i32 \<Rightarrow> i32" where "NField i = Bit i 22"
definition SField :: "i32 \<Rightarrow> i32" where "SField i = Bit i 29"
definition SFField :: "i32 \<Rightarrow> i32" where "SFField i = Bit i 31"
definition SzField :: "i32 \<Rightarrow> i32" where "SzField i = Bits i 30 2"
definition RdField :: "i32 \<Rightarrow> Register" where "RdField i = unat (Bits i 0 5)"
definition RnField :: "i32 \<Rightarrow> Register" where "RnField i = unat (Bits i 5 5)"
definition RaField :: "i32 \<Rightarrow> Register" where "RaField i = unat (Bits i 10 5)"
definition RmField :: "i32 \<Rightarrow> Register" where "RmField i = unat (Bits i 16 5)"
definition RtField :: "i32 \<Rightarrow> Register" where "RtField i = unat (Bits i 0 5)"
definition Rt2Field :: "i32 \<Rightarrow> Register" where "Rt2Field i = unat (Bits i 10 5)"
definition RsField :: "i32 \<Rightarrow> Register" where "RsField i = unat (Bits i 16 5)"
definition VdField :: "i32 \<Rightarrow> VRegister" where "VdField i = unat (Bits i 0 5)"
definition VnField :: "i32 \<Rightarrow> VRegister" where "VnField i = unat (Bits i 5 5)"
definition VmField :: "i32 \<Rightarrow> VRegister" where "VmField i = unat (Bits i 16 5)"
definition VtField :: "i32 \<Rightarrow> VRegister" where "VtField i = unat (Bits i 0 5)"
definition Imm3Field :: "i32 \<Rightarrow> i32" where "Imm3Field i = Bits i 10 3"
definition Imm6Field :: "i32 \<Rightarrow> i32" where "Imm6Field i = Bits i 10 6"
definition Imm7Field :: "i32 \<Rightarrow> i32" where "Imm7Field i = Bits i 15 7"
definition SImm7Field :: "i32 \<Rightarrow> i64" where
  "SImm7Field i = scast (signed_drop_bit 25 (push_bit 25 (Imm7Field i)))"
definition Imm8Field :: "i32 \<Rightarrow> i32" where "Imm8Field i = Bits i 13 8"
definition Imm9Field :: "i32 \<Rightarrow> i32" where "Imm9Field i = Bits i 12 9"
definition SImm9Field :: "i32 \<Rightarrow> i64" where
  "SImm9Field i = scast (signed_drop_bit 23 (push_bit 23 (Imm9Field i)))"
definition Imm12Field :: "i32 \<Rightarrow> i32" where "Imm12Field i = Bits i 10 12"
definition Imm12ShiftField :: "i32 \<Rightarrow> i32" where "Imm12ShiftField i = Bits i 22 2"
definition Imm16Field :: "i32 \<Rightarrow> i32" where "Imm16Field i = Bits i 5 16"
definition HWField :: "i32 \<Rightarrow> i32" where "HWField i = Bits i 21 2"
definition ImmRField :: "i32 \<Rightarrow> i32" where "ImmRField i = Bits i 16 6"
definition ImmSField :: "i32 \<Rightarrow> i32" where "ImmSField i = Bits i 10 6"
definition Imm14Field :: "i32 \<Rightarrow> i32" where "Imm14Field i = Bits i 5 14"
definition SImm14Field :: "i32 \<Rightarrow> i64" where
  "SImm14Field i = scast (signed_drop_bit 18 (push_bit 18 (Imm14Field i)))"
definition Imm19Field :: "i32 \<Rightarrow> i32" where "Imm19Field i = Bits i 5 19"
definition SImm19Field :: "i32 \<Rightarrow> i64" where
  "SImm19Field i = scast (signed_drop_bit 13 (push_bit 13 (Imm19Field i)))"
definition Imm26Field :: "i32 \<Rightarrow> i32" where "Imm26Field i = Bits i 0 26"
definition SImm26Field :: "i32 \<Rightarrow> i64" where
  "SImm26Field i = scast (signed_drop_bit 6 (push_bit 6 (Imm26Field i)))"
definition ConditionField :: "i32 \<Rightarrow> Condition" where "ConditionField i = Condition_of (Bits i 0 4)"
definition SelectConditionField :: "i32 \<Rightarrow> Condition" where
  "SelectConditionField i = Condition_of (Bits i 12 4)"
definition IsShift :: "i32 \<Rightarrow> bool" where "IsShift i \<longleftrightarrow> IsLogicalShiftOp i \<or> Bit i 21 = 0"
definition IsExtend :: "i32 \<Rightarrow> bool" where "IsExtend i \<longleftrightarrow> \<not> IsLogicalShiftOp i \<and> Bit i 21 = 1"

datatype Shift = LSL | LSR | ASR | ROR
datatype Extend = UXTB | UXTH | UXTW | UXTX | SXTB | SXTH | SXTW | SXTX

primrec Shift_val :: "Shift \<Rightarrow> i32" where
  "Shift_val LSL = 0"
| "Shift_val LSR = 1"
| "Shift_val ASR = 2"
| "Shift_val ROR = 3"

primrec Extend_val :: "Extend \<Rightarrow> i32" where
  "Extend_val UXTB = 0"
| "Extend_val UXTH = 1"
| "Extend_val UXTW = 2"
| "Extend_val UXTX = 3"
| "Extend_val SXTB = 4"
| "Extend_val SXTH = 5"
| "Extend_val SXTW = 6"
| "Extend_val SXTX = 7"

definition ShiftTypeField :: "i32 \<Rightarrow> Shift" where
  "ShiftTypeField i = [LSL, LSR, ASR, ROR] ! unat (Bits i 22 2)"
definition ExtendTypeField :: "i32 \<Rightarrow> Extend" where
  "ExtendTypeField i = [UXTB, UXTH, UXTW, UXTX, SXTB, SXTH, SXTW, SXTX] ! unat (Bits i 13 3)"
definition ShiftAmountField :: "i32 \<Rightarrow> i32" where "ShiftAmountField i = Imm6Field i"
definition ExtShiftAmountField :: "i32 \<Rightarrow> i32" where "ExtShiftAmountField i = Imm3Field i"
definition HasS :: "i32 \<Rightarrow> bool" where "HasS i \<longleftrightarrow> SField i = 1"

datatype R31Type = R31IsSP | R31IsZR

definition RdMode :: "i32 \<Rightarrow> R31Type" where
  "RdMode i =
     (if IsAddSubImmOp i \<or> (IsAddSubShiftExtOp i \<and> IsExtend i) then
        if HasS i then R31IsZR else R31IsSP
      else if IsLogicalImmOp i then
        if Bits i 29 2 = 3 then R31IsZR else R31IsSP
      else R31IsZR)"

definition RnMode :: "i32 \<Rightarrow> R31Type" where
  "RnMode i =
     (if IsLoadStoreOp i \<or> IsAddSubImmOp i \<or> (IsAddSubShiftExtOp i \<and> IsExtend i)
      then R31IsSP else R31IsZR)"

lemmas field_defs =
  NField_def SField_def SFField_def SzField_def RdField_def RnField_def RaField_def RmField_def
  RtField_def Rt2Field_def RsField_def VdField_def VnField_def VmField_def VtField_def
  Imm3Field_def Imm6Field_def Imm7Field_def Imm8Field_def Imm9Field_def Imm12Field_def
  Imm12ShiftField_def Imm16Field_def HWField_def ImmRField_def ImmSField_def Imm14Field_def
  Imm19Field_def Imm26Field_def SImm7Field_def SImm9Field_def SImm14Field_def SImm19Field_def
  SImm26Field_def ConditionField_def SelectConditionField_def IsShift_def IsExtend_def
  ShiftTypeField_def ExtendTypeField_def ShiftAmountField_def ExtShiftAmountField_def HasS_def

section \<open>Logical immediates\<close>

definition RotateRight :: "u64 \<Rightarrow> nat \<Rightarrow> nat \<Rightarrow> u64" where
  "RotateRight v rot width =
     (let rot = take_bit 6 rot
      in push_bit (width - rot) (v AND (push_bit rot 1 - 1)) OR drop_bit rot v)"

text \<open>
  The doubling loop of \<open>RepeatBitsAcrossReg\<close>. A width of zero, which the assertions of the code
  exclude, would never reach the register size.
\<close>

function RepeatBits_loop :: "nat \<Rightarrow> nat \<Rightarrow> u64 \<Rightarrow> u64" where
  "RepeatBits_loop reg_size i result =
     (if 0 < i \<and> i < reg_size then RepeatBits_loop reg_size (i * 2) (result OR push_bit i result)
      else result)"
  by pat_completeness auto
termination by (relation "measure (\<lambda>(reg_size, i, _). reg_size - i)") auto

declare RepeatBits_loop.simps [simp del]

definition RepeatBitsAcrossReg :: "nat \<Rightarrow> u64 \<Rightarrow> nat \<Rightarrow> u64" where
  "RepeatBitsAcrossReg reg_size v width =
     RepeatBits_loop reg_size width (v AND (push_bit width 1 - 1))"

text \<open>The search of \<open>ImmLogical\<close> for the highest zero bit of \<open>imm_s\<close>; \<open>None\<close> is \<open>UNREACHABLE\<close>.\<close>

fun ImmLogical_loop :: "nat \<Rightarrow> i64 \<Rightarrow> i64 \<Rightarrow> nat \<Rightarrow> u64 option" where
  "ImmLogical_loop reg_size imm_s imm_r width =
     (if 2 \<le> width then
        if imm_s AND of_nat width = 0 then
          let m = of_nat width - 1
          in if imm_s AND m = m then Some 0
             else let b = push_bit (unat ((imm_s AND m) + 1)) 1 - 1
                  in Some (RepeatBitsAcrossReg reg_size (RotateRight b (unat (imm_r AND m)) width) width)
        else ImmLogical_loop reg_size imm_s imm_r (width div 2)
      else None)"

declare ImmLogical_loop.simps [simp del]

definition ImmLogical :: "i32 \<Rightarrow> u64 option" where
  "ImmLogical i =
     (let reg_size = (if SFField i = 1 then 64 else 32);
          n = scast (NField i) :: i64;
          imm_s = scast (ImmSField i) :: i64;
          imm_r = scast (ImmRField i) :: i64
      in if n = 1 then
           if imm_s = 0x3F then Some 0
           else Some (RotateRight (push_bit (unat (imm_s + 1)) 1 - 1) (unat imm_r) 64)
         else if signed_drop_bit 1 imm_s = 0x1F then Some 0
         else ImmLogical_loop reg_size imm_s imm_r 0x20)"

definition VFPExpandImm :: "u8 \<Rightarrow> i64" where
  "VFPExpandImm imm8 =
     (let sign = push_bit 63 (ucast (drop_bit 7 (imm8 AND 0x80))) :: i64;
          hi_exp = push_bit 62 (if drop_bit 6 (imm8 AND 0x40) = 0 then 1 else 0) :: i64;
          mid_exp = (if drop_bit 6 (imm8 AND 0x40) = 0 then 0 else push_bit 54 0xff) :: i64;
          low_exp = push_bit 52 (ucast (drop_bit 4 (imm8 AND 0x30))) :: i64;
          frac = push_bit 48 (ucast (imm8 AND 0x0f)) :: i64
      in sign OR hi_exp OR mid_exp OR low_exp OR frac)"

end
