(* ===== verification/Arm64_State.thy ===== *)
theory Arm64_State
  imports Utils Arm64_Instr
begin

text \<open>
  The machine state of the ARM64 simulator and its primitive operations: the accessors of
  \<^verbatim>\<open>runtime/vm/simulator_arm64.cc\<close> for the register files, the memory, the exclusive monitor and
  the condition flags.

  The fields of the record are the CPU-state fields of class \<open>Simulator\<close>, without the trailing
  underscore of their names; \<open>mem\<close> is the host memory
  the simulator reads and writes through pointers, byte by byte in the host's little-endian
  order. A \<open>simd_value_t\<close> is one 128-bit word, whose \<open>i64\<close> and \<open>i32\<close> members are its slices. Every
  call of the code that ends in \<open>FATAL\<close>, \<open>UNIMPLEMENTED\<close> or \<open>UNREACHABLE\<close> is a \<open>fault\<close>; so are a
  stop in the interactive debugger and a C++ shift by the operand's width or more.
\<close>

datatype fault =
    UnalignedAccess u64
  | HandleIllegalAccess u64
  | UnimplementedInstruction i32
  | Unimplemented i32
  | Unreachable
  | StopSimulation i32
  | UndefinedShift i32

type_synonym memory = "u64 \<Rightarrow> u8"

record sim =
  registers :: "Register \<Rightarrow> i64"
  n_flag :: bool
  z_flag :: bool
  c_flag :: bool
  v_flag :: bool
  vregisters :: "VRegister \<Rightarrow> 128 word"
  last_pc :: i64
  pc :: i64
  pc_modified :: bool
  icount :: u64
  exclusive_access_addr :: uword
  exclusive_access_value :: uword
  mem :: memory

type_synonym 'a result = "fault + 'a"

definition kBadLR :: uword where "kBadLR = - 1"
definition kEndSimulatingPC :: uword where "kEndSimulatingPC = - 2"

text \<open>
  The architecture state the constructor sets up, given the host memory, the high end of the
  stack it allocated, and the value the uninitialised \<open>last_pc_\<close> happens to have.
\<close>

definition Simulator_init :: "memory \<Rightarrow> uword \<Rightarrow> i64 \<Rightarrow> sim" where
  "Simulator_init m stack_base garbage =
     \<lparr> registers = (\<lambda>_. 0)(R31 := stack_base, LR := kBadLR),
       n_flag = False, z_flag = False, c_flag = False, v_flag = False,
       vregisters = (\<lambda>_. 0), last_pc = garbage, pc = kBadLR, pc_modified = False, icount = 0,
       exclusive_access_addr = 0, exclusive_access_value = 0, mem = m \<rparr>"

section \<open>Registers\<close>

text \<open>The instruction argument is \<^const>\<open>None\<close> where the code passes \<open>NULL\<close>.\<close>

definition set_register :: "i32 option \<Rightarrow> Register \<Rightarrow> i64 \<Rightarrow> R31Type \<Rightarrow> sim \<Rightarrow> sim result" where
  "set_register instr reg v r31t s =
     (if reg \<noteq> R31 \<or> r31t \<noteq> R31IsZR then
        if instr \<noteq> None \<and> reg = R31 \<and> \<not> IsAligned v 16 then Inl (UnalignedAccess v)
        else Inr (s\<lparr>registers := (registers s)(reg := v)\<rparr>)
      else Inr s)"

definition get_register :: "sim \<Rightarrow> Register \<Rightarrow> R31Type \<Rightarrow> i64" where
  "get_register s reg r31t = (if reg = R31 \<and> r31t = R31IsZR then 0 else registers s reg)"

definition set_wregister :: "Register \<Rightarrow> i32 \<Rightarrow> R31Type \<Rightarrow> sim \<Rightarrow> sim" where
  "set_wregister reg v r31t s =
     (if reg \<noteq> R31 \<or> r31t \<noteq> R31IsZR
      then s\<lparr>registers := (registers s)(reg := LowHighTo64Bits v 0)\<rparr> else s)"

definition get_wregister :: "sim \<Rightarrow> Register \<Rightarrow> R31Type \<Rightarrow> i32" where
  "get_wregister s reg r31t = (if reg = R31 \<and> r31t = R31IsZR then 0 else ucast (registers s reg))"

definition simd_i32 :: "128 word \<Rightarrow> nat \<Rightarrow> i32" where
  "simd_i32 v idx = ucast (drop_bit (32 * idx) v)"

definition simd_i64 :: "128 word \<Rightarrow> nat \<Rightarrow> i64" where
  "simd_i64 v idx = ucast (drop_bit (64 * idx) v)"

definition simd_set_i32 :: "128 word \<Rightarrow> nat \<Rightarrow> i32 \<Rightarrow> 128 word" where
  "simd_set_i32 v idx x = (v AND NOT (push_bit (32 * idx) (mask 32))) OR push_bit (32 * idx) (ucast x)"

definition simd_set_i64 :: "128 word \<Rightarrow> nat \<Rightarrow> i64 \<Rightarrow> 128 word" where
  "simd_set_i64 v idx x = (v AND NOT (push_bit (64 * idx) (mask 64))) OR push_bit (64 * idx) (ucast x)"

definition get_vregisters :: "sim \<Rightarrow> VRegister \<Rightarrow> nat \<Rightarrow> i32" where
  "get_vregisters s reg idx = simd_i32 (vregisters s reg) idx"

definition set_vregisters :: "VRegister \<Rightarrow> nat \<Rightarrow> i32 \<Rightarrow> sim \<Rightarrow> sim" where
  "set_vregisters reg idx v s =
     s\<lparr>vregisters := (vregisters s)(reg := simd_set_i32 (vregisters s reg) idx v)\<rparr>"

definition get_vregisterd :: "sim \<Rightarrow> VRegister \<Rightarrow> nat \<Rightarrow> i64" where
  "get_vregisterd s reg idx = simd_i64 (vregisters s reg) idx"

definition set_vregisterd :: "VRegister \<Rightarrow> nat \<Rightarrow> i64 \<Rightarrow> sim \<Rightarrow> sim" where
  "set_vregisterd reg idx v s =
     s\<lparr>vregisters := (vregisters s)(reg := simd_set_i64 (vregisters s reg) idx v)\<rparr>"

definition get_vregister :: "sim \<Rightarrow> VRegister \<Rightarrow> 128 word" where
  "get_vregister s reg = vregisters s reg"

definition set_vregister :: "VRegister \<Rightarrow> 128 word \<Rightarrow> sim \<Rightarrow> sim" where
  "set_vregister reg v s = s\<lparr>vregisters := (vregisters s)(reg := v)\<rparr>"

definition set_pc :: "i64 \<Rightarrow> sim \<Rightarrow> sim" where
  "set_pc v s = s\<lparr>pc_modified := True, last_pc := pc s, pc := v\<rparr>"

definition IsIllegalAddress :: "uword \<Rightarrow> bool" where
  "IsIllegalAddress addr \<longleftrightarrow> addr < 64 * 1024"

section \<open>Memory\<close>

text \<open>The host's loads and stores through a pointer to an \<open>n\<close>-byte little-endian integer.\<close>

primrec load_bytes :: "nat \<Rightarrow> memory \<Rightarrow> uword \<Rightarrow> 'a::len word" where
  "load_bytes 0 m a = 0"
| "load_bytes (Suc n) m a = ucast (m a) OR push_bit 8 (load_bytes n m (a + 1))"

primrec store_bytes :: "nat \<Rightarrow> memory \<Rightarrow> uword \<Rightarrow> 'a::len word \<Rightarrow> memory" where
  "store_bytes 0 m a w = m"
| "store_bytes (Suc n) m a w = store_bytes n (m(a := ucast w)) (a + 1) (drop_bit 8 w)"

definition ReadX :: "uword \<Rightarrow> sim \<Rightarrow> i64 result" where
  "ReadX addr s = (if addr AND 7 = 0 then Inr (load_bytes 8 (mem s) addr) else Inl (UnalignedAccess addr))"

definition WriteX :: "uword \<Rightarrow> i64 \<Rightarrow> sim \<Rightarrow> sim result" where
  "WriteX addr v s =
     (if addr AND 7 = 0 then Inr (s\<lparr>mem := store_bytes 8 (mem s) addr v\<rparr>) else Inl (UnalignedAccess addr))"

definition ReadWU :: "uword \<Rightarrow> sim \<Rightarrow> u32 result" where
  "ReadWU addr s = (if addr AND 3 = 0 then Inr (load_bytes 4 (mem s) addr) else Inl (UnalignedAccess addr))"

definition ReadW :: "uword \<Rightarrow> sim \<Rightarrow> i32 result" where
  "ReadW addr s = (if addr AND 3 = 0 then Inr (load_bytes 4 (mem s) addr) else Inl (UnalignedAccess addr))"

definition WriteW :: "uword \<Rightarrow> u32 \<Rightarrow> sim \<Rightarrow> sim result" where
  "WriteW addr v s =
     (if addr AND 3 = 0 then Inr (s\<lparr>mem := store_bytes 4 (mem s) addr v\<rparr>) else Inl (UnalignedAccess addr))"

definition ReadHU :: "uword \<Rightarrow> sim \<Rightarrow> u16 result" where
  "ReadHU addr s = (if addr AND 1 = 0 then Inr (load_bytes 2 (mem s) addr) else Inl (UnalignedAccess addr))"

definition ReadH :: "uword \<Rightarrow> sim \<Rightarrow> u16 result" where
  "ReadH addr s = (if addr AND 1 = 0 then Inr (load_bytes 2 (mem s) addr) else Inl (UnalignedAccess addr))"

definition WriteH :: "uword \<Rightarrow> u16 \<Rightarrow> sim \<Rightarrow> sim result" where
  "WriteH addr v s =
     (if addr AND 1 = 0 then Inr (s\<lparr>mem := store_bytes 2 (mem s) addr v\<rparr>) else Inl (UnalignedAccess addr))"

definition ReadBU :: "uword \<Rightarrow> sim \<Rightarrow> u8" where
  "ReadBU addr s = mem s addr"

definition ReadB :: "uword \<Rightarrow> sim \<Rightarrow> u8" where
  "ReadB addr s = mem s addr"

definition WriteB :: "uword \<Rightarrow> u8 \<Rightarrow> sim \<Rightarrow> sim" where
  "WriteB addr v s = s\<lparr>mem := (mem s)(addr := v)\<rparr>"

section \<open>Exclusive accesses\<close>

text \<open>
  The compare-and-swap of the host replaces the word when it still has the old value, and
  returns what it found.
\<close>

definition CompareAndSwapWord :: "uword \<Rightarrow> u64 \<Rightarrow> u64 \<Rightarrow> sim \<Rightarrow> u64 \<times> sim" where
  "CompareAndSwapWord addr old_value new_value s =
     (let found = load_bytes 8 (mem s) addr
      in (found, if found = old_value then s\<lparr>mem := store_bytes 8 (mem s) addr new_value\<rparr> else s))"

definition CompareAndSwapUint32 :: "uword \<Rightarrow> u32 \<Rightarrow> u32 \<Rightarrow> sim \<Rightarrow> u32 \<times> sim" where
  "CompareAndSwapUint32 addr old_value new_value s =
     (let found = load_bytes 4 (mem s) addr
      in (found, if found = old_value then s\<lparr>mem := store_bytes 4 (mem s) addr new_value\<rparr> else s))"

definition ClearExclusive :: "sim \<Rightarrow> sim" where
  "ClearExclusive s = s\<lparr>exclusive_access_addr := 0, exclusive_access_value := 0\<rparr>"

definition ReadExclusiveX :: "uword \<Rightarrow> sim \<Rightarrow> (i64 \<times> sim) result" where
  "ReadExclusiveX addr s =
     bindE (ReadX addr s) (\<lambda>v.
       Inr (v, s\<lparr>exclusive_access_addr := addr, exclusive_access_value := v\<rparr>))"

definition ReadExclusiveW :: "uword \<Rightarrow> sim \<Rightarrow> (i64 \<times> sim) result" where
  "ReadExclusiveW addr s =
     bindE (ReadWU addr s) (\<lambda>w.
       let v = ucast w
       in Inr (v, s\<lparr>exclusive_access_addr := addr, exclusive_access_value := v\<rparr>))"

definition WriteExclusiveX :: "uword \<Rightarrow> i64 \<Rightarrow> sim \<Rightarrow> i64 \<times> sim" where
  "WriteExclusiveX addr v s =
     (if exclusive_access_addr s \<noteq> addr then (1, s)
      else let old_value = exclusive_access_value s;
               s = ClearExclusive s;
               (found, s) = CompareAndSwapWord addr old_value v s
           in (if found = old_value then 0 else 1, s))"

definition WriteExclusiveW :: "uword \<Rightarrow> i64 \<Rightarrow> sim \<Rightarrow> i64 \<times> sim" where
  "WriteExclusiveW addr v s =
     (if exclusive_access_addr s \<noteq> addr then (1, s)
      else let old_value = ucast (exclusive_access_value s);
               s = ClearExclusive s;
               (found, s) = CompareAndSwapUint32 addr old_value (ucast v) s
           in (if found = old_value then 0 else 1, s))"

section \<open>Condition flags\<close>

definition SetNZFlagsW :: "i32 \<Rightarrow> sim \<Rightarrow> sim" where
  "SetNZFlagsW val s = s\<lparr>n_flag := val <s 0, z_flag := val = 0\<rparr>"

definition CarryFromW :: "i32 \<Rightarrow> i32 \<Rightarrow> i32 \<Rightarrow> bool" where
  "CarryFromW left right carry \<longleftrightarrow>
     (let uleft = ucast left :: u64; uright = ucast right; ucarry = ucast carry
      in drop_bit 32 (uleft + uright + ucarry) \<noteq> 0)"

definition OverflowFromW :: "i32 \<Rightarrow> i32 \<Rightarrow> i32 \<Rightarrow> bool" where
  "OverflowFromW left right carry \<longleftrightarrow>
     (let result = scast left + scast right + scast carry :: i64
      in signed_drop_bit 31 result \<noteq> signed_drop_bit 32 result)"

definition SetNZFlagsX :: "i64 \<Rightarrow> sim \<Rightarrow> sim" where
  "SetNZFlagsX val s = s\<lparr>n_flag := val <s 0, z_flag := val = 0\<rparr>"

definition CarryFromX :: "i64 \<Rightarrow> i64 \<Rightarrow> i64 \<Rightarrow> bool \<Rightarrow> bool" where
  "CarryFromX alu_out left right addition \<longleftrightarrow>
     (if addition
      then signed_drop_bit 63 ((left AND right) OR ((left OR right) AND NOT alu_out)) \<noteq> 0
      else signed_drop_bit 63 ((NOT left AND right) OR ((NOT left OR right) AND alu_out)) = 0)"

definition OverflowFromX :: "i64 \<Rightarrow> i64 \<Rightarrow> i64 \<Rightarrow> bool \<Rightarrow> bool" where
  "OverflowFromX alu_out left right addition \<longleftrightarrow>
     (if addition
      then signed_drop_bit 63 ((alu_out XOR left) AND (alu_out XOR right)) \<noteq> 0
      else signed_drop_bit 63 ((left XOR right) AND (alu_out XOR left)) \<noteq> 0)"

definition SetCFlag :: "bool \<Rightarrow> sim \<Rightarrow> sim" where
  "SetCFlag val s = s\<lparr>c_flag := val\<rparr>"

definition SetVFlag :: "bool \<Rightarrow> sim \<Rightarrow> sim" where
  "SetVFlag val s = s\<lparr>v_flag := val\<rparr>"

section \<open>The host\<close>

text \<open>
  The host's floating-point arithmetic, on the bit patterns of \<open>float\<close> and \<open>double\<close> values: the
  operators, comparisons, library functions and conversions that the simulator's floating-point
  instructions are computed with.
\<close>

record fpu =
  f32_add :: "i32 \<Rightarrow> i32 \<Rightarrow> i32"
  f32_sub :: "i32 \<Rightarrow> i32 \<Rightarrow> i32"
  f32_mul :: "i32 \<Rightarrow> i32 \<Rightarrow> i32"
  f32_div :: "i32 \<Rightarrow> i32 \<Rightarrow> i32"
  f32_eq :: "i32 \<Rightarrow> i32 \<Rightarrow> bool"
  f32_lt :: "i32 \<Rightarrow> i32 \<Rightarrow> bool"
  f32_le :: "i32 \<Rightarrow> i32 \<Rightarrow> bool"
  f32_abs :: "i32 \<Rightarrow> i32"
  f32_neg :: "i32 \<Rightarrow> i32"
  f32_sqrt :: "i32 \<Rightarrow> i32"
  f32_isinf :: "i32 \<Rightarrow> bool"
  f32_isnan :: "i32 \<Rightarrow> bool"
  f64_add :: "i64 \<Rightarrow> i64 \<Rightarrow> i64"
  f64_sub :: "i64 \<Rightarrow> i64 \<Rightarrow> i64"
  f64_mul :: "i64 \<Rightarrow> i64 \<Rightarrow> i64"
  f64_div :: "i64 \<Rightarrow> i64 \<Rightarrow> i64"
  f64_eq :: "i64 \<Rightarrow> i64 \<Rightarrow> bool"
  f64_lt :: "i64 \<Rightarrow> i64 \<Rightarrow> bool"
  f64_le :: "i64 \<Rightarrow> i64 \<Rightarrow> bool"
  f64_abs :: "i64 \<Rightarrow> i64"
  f64_neg :: "i64 \<Rightarrow> i64"
  f64_sqrt :: "i64 \<Rightarrow> i64"
  f64_isnan :: "i64 \<Rightarrow> bool"
  f32_to_f64 :: "i32 \<Rightarrow> i64"
  f64_to_f32 :: "i64 \<Rightarrow> i32"
  u64_to_f64 :: "u64 \<Rightarrow> i64"
  i64_to_f64 :: "i64 \<Rightarrow> i64"
  i32_to_f64 :: "i32 \<Rightarrow> i64"
  f64_to_i64 :: "i64 \<Rightarrow> i64"
  f64_to_i32 :: "i64 \<Rightarrow> i32"

text \<open>
  A call that leaves the simulated code for a function of the host: its kind as in the enum
  \<open>CallKind\<close>, the redirection object that names the host function, and the arguments the
  simulator reads from its registers. The host function may change the host memory and run the
  simulator again; it returns a result, or throws, which unwinds to the state that \<open>JumpToFrame\<close>
  set up.
\<close>

datatype CallKind =
  kRuntimeCall | kLeafRuntimeCall | kLeafFloatRuntimeCall | kBootstrapNativeCall | kNativeCall

record Redirection =
  external_function :: uword
  call_kind :: CallKind
  argument_count :: int

datatype host_outcome = HostReturns i64 sim | HostThrows sim

record host =
  fp :: fpu
  redirection_at :: "uword \<Rightarrow> Redirection"
  host_function :: "uword \<Rightarrow> i64 list \<Rightarrow> sim \<Rightarrow> host_outcome"
  stop_sim_at :: u64

section \<open>Facts about memory\<close>

lemma bit_load_bytes:
  "bit (load_bytes n m a :: 'a::len word) i \<longleftrightarrow>
     i < LENGTH('a) \<and> i div 8 < n \<and> bit (m (a + of_nat (i div 8))) (i mod 8)"
proof (induction n arbitrary: a i)
  case (Suc n)
  show ?case
  proof (cases "i < 8")
    case True
    then show ?thesis
      by (auto simp: bit_or_iff bit_push_bit_iff bit_ucast_iff)
  next
    case False
    then obtain j where i: "i = j + 8" by (metis add.commute le_add_diff_inverse not_less)
    have "\<not> bit (m a) i"
      using False by (metis bit_imp_le_length len_num1 len_bit0 mult_1_right mult_2 numeral_Bit0 numeral_code(2))
    moreover have "(j + 8) div 8 = Suc (j div 8)" by simp
    ultimately show ?thesis
      by (auto simp: i bit_or_iff bit_push_bit_iff bit_ucast_iff Suc.IH ac_simps)
  qed
qed simp

lemma store_bytes_apply:
  assumes "n \<le> 2 ^ 64"
  shows "store_bytes n m a w b =
     (if unat (b - a) < n then ucast (drop_bit (8 * unat (b - a)) w) else m b)"
  using assms
proof (induction n arbitrary: m a w)
  case (Suc n)
  show ?case
  proof (cases "b = a")
    case True
    have "b - (a + 1) = - 1" using True by simp
    then have "unat (b - (a + 1)) = 2 ^ 64 - 1"
      using unat_minus_one_word64 by simp
    with True Suc show ?thesis by simp
  next
    case False
    then have ne: "b - a \<noteq> 0" by simp
    then have "unat (b - (a + 1)) = unat (b - a) - 1"
      using unat_minus_one [of "b - a"] by (simp add: algebra_simps)
    moreover have "0 < unat (b - a)" using ne by (simp add: unat_gt_0)
    moreover obtain k where "unat (b - a) = Suc k" using calculation(2) gr0_conv_Suc by blast
    ultimately show ?thesis using Suc False
      by (simp add: drop_bit_drop_bit ac_simps)
  qed
qed simp

lemma load_store_same:
  assumes "LENGTH('a) \<le> 8 * n" and "n \<le> 2 ^ 60"
  shows "load_bytes n (store_bytes n m a (w :: 'a::len word)) a = w"
proof (rule bit_word_eqI)
  fix i assume i: "i < LENGTH('a)"
  have k: "i div 8 < n" using i assms by linarith
  then have "i div 8 < 2 ^ 64" using assms(2) by simp
  then have "unat (of_nat (i div 8) :: u64) = i div 8"
    by (simp add: unat_of_nat)
  with k i assms show "bit (load_bytes n (store_bytes n m a w) a :: 'a word) i \<longleftrightarrow> bit w i"
    by (simp add: bit_load_bytes store_bytes_apply bit_ucast_iff bit_drop_bit_eq)
qed

lemma load_bytes_cong:
  assumes "\<And>k. k < n \<Longrightarrow> m (a + of_nat k) = m' (a + of_nat k)"
  shows "load_bytes n m a = (load_bytes n m' a :: 'a::len word)"
  by (rule bit_word_eqI) (auto simp: bit_load_bytes assms)

lemma load_store_disjoint:
  assumes "n \<le> 2 ^ 64" and "\<And>k. k < n' \<Longrightarrow> n \<le> unat (b + of_nat k - a)"
  shows "load_bytes n' (store_bytes n m a w) b = (load_bytes n' m b :: 'a::len word)"
  by (rule load_bytes_cong) (use assms in \<open>fastforce simp: store_bytes_apply\<close>)

section \<open>Facts about the flags\<close>

lemma CarryFromX_bits:
  "CarryFromX a l r True \<longleftrightarrow> (bit l 63 \<and> bit r 63) \<or> ((bit l 63 \<or> bit r 63) \<and> \<not> bit a 63)"
  "CarryFromX a l r False \<longleftrightarrow> \<not> ((\<not> bit l 63 \<and> bit r 63) \<or> ((\<not> bit l 63 \<or> bit r 63) \<and> bit a 63))"
  by (simp_all add: CarryFromX_def signed_drop_bit_63 bit_and_iff bit_or_iff bit_not_iff)

lemma OverflowFromX_bits:
  "OverflowFromX a l r True \<longleftrightarrow> bit a 63 \<noteq> bit l 63 \<and> bit a 63 \<noteq> bit r 63"
  "OverflowFromX a l r False \<longleftrightarrow> bit l 63 \<noteq> bit r 63 \<and> bit a 63 \<noteq> bit l 63"
  by (auto simp: OverflowFromX_def signed_drop_bit_63 bit_and_iff bit_xor_iff)

lemma CarryFromX_add:
  assumes "uint c \<le> 1"
  shows "CarryFromX (l + r + c) l r True \<longleftrightarrow> 2 ^ 64 \<le> uint l + uint r + uint c"
  unfolding CarryFromX_bits top_bit64
  by (rule carry_arith) (use u64_range assms uint_add_carry [OF assms] in simp_all)

lemma OverflowFromX_add:
  assumes "uint c \<le> 1"
  shows "OverflowFromX (l + r + c) l r True \<longleftrightarrow>
     \<not> (- (2 ^ 63) \<le> sint l + sint r + uint c \<and> sint l + sint r + uint c < 2 ^ 63)"
  unfolding OverflowFromX_bits sint_top64 top_bit64
  by (rule overflow_arith) (use u64_range assms uint_add_carry [OF assms] in simp_all)

lemma CarryFromX_sub_add: "CarryFromX a l r False \<longleftrightarrow> CarryFromX a l (NOT r) True"
  by (auto simp: CarryFromX_bits bit_not_iff)

lemma OverflowFromX_sub_add: "OverflowFromX a l r False \<longleftrightarrow> OverflowFromX a l (NOT r) True"
  by (auto simp: OverflowFromX_bits bit_not_iff)

lemma CarryFromX_sub:
  assumes "uint c \<le> 1"
  shows "CarryFromX (l + NOT r + c) l r False \<longleftrightarrow> uint r \<le> uint l + uint c - 1"
  unfolding CarryFromX_sub_add CarryFromX_add [OF assms] uint_not64 by auto

lemma OverflowFromX_sub:
  assumes "uint c \<le> 1"
  shows "OverflowFromX (l + NOT r + c) l r False \<longleftrightarrow>
     \<not> (- (2 ^ 63) \<le> sint l - sint r + uint c - 1 \<and> sint l - sint r + uint c - 1 < 2 ^ 63)"
  unfolding OverflowFromX_sub_add OverflowFromX_add [OF assms] sint_not64 by auto

lemma CarryFromW_iff: "CarryFromW l r c \<longleftrightarrow> 2 ^ 32 \<le> uint l + uint r + uint c"
proof -
  define w :: u64 where "w = ucast l + ucast r + ucast c"
  have "uint (ucast l + ucast r :: u64) = uint l + uint r"
    using uint_add_lem [of "ucast l :: u64" "ucast r"] u32_range [of l] u32_range [of r]
    by (simp add: uint_ucast_32_64)
  then have "uint w = uint l + uint r + uint c"
    using uint_add_lem [of "ucast l + ucast r :: u64" "ucast c"]
      u32_range [of l] u32_range [of r] u32_range [of c]
    by (simp add: uint_ucast_32_64 w_def)
  then show ?thesis
    unfolding CarryFromW_def Let_def w_def [symmetric] by (auto simp: drop_bit_32_eq_0)
qed

lemma OverflowFromW_iff:
  "OverflowFromW l r c \<longleftrightarrow> \<not> (- (2 ^ 31) \<le> sint l + sint r + sint c \<and> sint l + sint r + sint c < 2 ^ 31)"
proof -
  define w :: i64 where "w = scast l + scast r + scast c"
  note range = sint_range32 [of l] sint_range32 [of r] sint_range32 [of c]
  have lr: "sint (scast l + scast r :: i64) = sint l + sint r"
    unfolding sint_add64 sint_scast_32_64 by (rule signed_take_bit_id) (use range in simp_all)
  have w: "sint w = sint l + sint r + sint c"
    unfolding w_def sint_add64 [of "scast l + scast r"] sint_scast_32_64 lr
    by (rule signed_take_bit_id) (use range in simp_all)
  have d: "sint (signed_drop_bit n w) = sint w div 2 ^ n" for n
    by (simp add: sint_signed_drop_bit_eq drop_bit_eq_div)
  have "OverflowFromW l r c \<longleftrightarrow> sint w div 2 ^ 31 \<noteq> sint w div 2 ^ 32"
    unfolding OverflowFromW_def Let_def w_def [symmetric] d [symmetric]
    by (auto intro: signed_word_eqI)
  also have "\<dots> \<longleftrightarrow> \<not> (- (2 ^ 31) \<le> sint w \<and> sint w < 2 ^ 31)"
    using halves_differ [of "2 ^ 32" "2 ^ 31" "sint w"] range w by auto
  finally show ?thesis by (simp add: w)
qed

end
