(* ===== verification/Arm64_DPImm.thy ===== *)
theory Arm64_DPImm
  imports Arm64_State
begin

text \<open>
  The decoders of the data-processing instructions with an immediate operand:
  \<open>DecodeMoveWide\<close>, \<open>DecodeAddSubImm\<close>, \<open>DecodeBitfield\<close>, \<open>DecodeLogicalImm\<close>, \<open>DecodePCRel\<close> and the
  dispatch \<open>DecodeDPImmediate\<close> of \<^verbatim>\<open>runtime/vm/simulator_arm64.cc\<close>.
\<close>

definition kXRegMask :: i64 where "kXRegMask = 0xffffffffffffffff"
definition kWRegMask :: i64 where "kWRegMask = 0x00000000ffffffff"

definition DecodeMoveWide :: "i32 \<Rightarrow> sim \<Rightarrow> sim result" where
  "DecodeMoveWide instr s =
     (let rd = RdField instr;
          hw = HWField instr;
          shift = unat (push_bit 4 hw);
          shifted_imm = push_bit shift (scast (Imm16Field instr)) :: i64
      in if SFField instr \<noteq> 0 then
           if Bits instr 29 2 = 0 then
             set_register (Some instr) rd (NOT shifted_imm) (RdMode instr) s
           else if Bits instr 29 2 = 2 then
             set_register (Some instr) rd shifted_imm (RdMode instr) s
           else if Bits instr 29 2 = 3 then
             let rd_val = get_register s rd (RdMode instr);
                 result = (rd_val AND NOT (push_bit shift 0xffff)) OR shifted_imm
             in set_register (Some instr) rd result (RdMode instr) s
           else Inl (UnimplementedInstruction instr)
         else if hw AND 0x2 = 0 then
           if Bits instr 29 2 = 0 then
             Inr (set_wregister rd (ucast (NOT shifted_imm AND kWRegMask)) (RdMode instr) s)
           else if Bits instr 29 2 = 2 then
             Inr (set_wregister rd (ucast (shifted_imm AND kWRegMask)) (RdMode instr) s)
           else if Bits instr 29 2 = 3 then
             let rd_val = get_wregister s rd (RdMode instr);
                 result = ucast ((scast rd_val AND NOT (push_bit shift 0xffff)) OR shifted_imm)
             in Inr (set_wregister rd result (RdMode instr) s)
           else Inl (UnimplementedInstruction instr)
         else Inl (UnimplementedInstruction instr))"

definition DecodeAddSubImm :: "i32 \<Rightarrow> sim \<Rightarrow> sim result" where
  "DecodeAddSubImm instr s =
     (let addition = (Bit instr 30 = 0);
          rd = RdField instr;
          rn = RnField instr;
          imm = (if Bit instr 22 = 1 then push_bit 12 (Imm12Field instr) else Imm12Field instr) :: u32
      in if SFField instr \<noteq> 0 then
           let rn_val = get_register s rn (RnMode instr);
               imm64 = ucast imm :: i64;
               alu_out = (if addition then rn_val + imm64 else rn_val - imm64)
           in bindE (set_register (Some instr) rd alu_out (RdMode instr) s) (\<lambda>s.
                if HasS instr then
                  let s = SetNZFlagsX alu_out s;
                      s = SetCFlag (CarryFromX alu_out rn_val imm64 addition) s;
                      s = SetVFlag (OverflowFromX alu_out rn_val imm64 addition) s
                  in Inr s
                else Inr s)
         else
           let rn_val = get_wregister s rn (RnMode instr);
               carry_in = (if addition then 0 else 1) :: i32;
               imm = (if addition then imm else NOT imm);
               alu_out = rn_val + imm + carry_in;
               s = set_wregister rd alu_out (RdMode instr) s
           in if HasS instr then
                let s = SetNZFlagsW alu_out s;
                    s = SetCFlag (CarryFromW rn_val imm carry_in) s;
                    s = SetVFlag (OverflowFromW rn_val imm carry_in) s
                in Inr s
              else Inr s)"

text \<open>\<open>NBitMask\<close> is the one compiled into a VM whose target is ARM64, as the simulator's is.\<close>

definition DecodeBitfield :: "i32 \<Rightarrow> sim \<Rightarrow> sim result" where
  "DecodeBitfield instr s =
     (let bitwidth = (if SFField instr = 0 then 32 else 64) :: nat;
          op = Bits instr 29 2;
          sign_extend = (op = 0);
          zero_extend = (op = 2);
          rn = RnField instr;
          rd = RdField instr;
          result = get_register s rn (RnMode instr);
          r_bit = unat (ImmRField instr);
          s_bit = unat (ImmSField instr);
          result = result AND NBitMask TARGET_ARCH_ARM64 bitwidth;
          m = NBitMask TARGET_ARCH_ARM64 (s_bit + 1);
          (m, result) = (if r_bit \<le> s_bit
                         then (drop_bit r_bit m, signed_drop_bit r_bit result)
                         else (push_bit (bitwidth - r_bit) m, push_bit (bitwidth - r_bit) result));
          result = result AND m;
          result = (if sign_extend then
                      let highest_bit = nat ((int s_bit - int r_bit) mod int bitwidth);
                          shift = bitwidth - highest_bit - 1
                      in signed_drop_bit shift (push_bit shift result)
                    else if \<not> zero_extend then result OR (get_register s rd (RnMode instr) AND NOT m)
                    else result)
      in if bitwidth = 64 then set_register (Some instr) rd result (RdMode instr) s
         else Inr (set_wregister rd (ucast result) (RdMode instr) s))"

definition DecodeLogicalImm :: "i32 \<Rightarrow> sim \<Rightarrow> sim result" where
  "DecodeLogicalImm instr s =
     (let op = Bits instr 29 2;
          set_flags = (op = 3);
          out_size = (if SFField instr = 0 \<and> NField instr = 0 then 32 else 64) :: nat;
          rn = RnField instr;
          rd = RdField instr;
          rn_val = get_register s rn (RnMode instr)
      in case ImmLogical instr of
           None \<Rightarrow> Inl Unreachable
         | Some imm \<Rightarrow>
             if imm = 0 then Inl (UnimplementedInstruction instr)
             else bindE (if op = 0 then Inr (rn_val AND imm)
                         else if op = 1 then Inr (rn_val OR imm)
                         else if op = 2 then Inr (rn_val XOR imm)
                         else if op = 3 then Inr (rn_val AND imm)
                         else Inl Unreachable) (\<lambda>alu_out.
               let s = (if set_flags then
                          let s = (if out_size = 64 then SetNZFlagsX alu_out s
                                   else SetNZFlagsW (ucast alu_out) s)
                          in SetVFlag False (SetCFlag False s)
                        else s)
               in if out_size = 64 then set_register (Some instr) rd alu_out (RdMode instr) s
                  else Inr (set_wregister rd (ucast alu_out) (RdMode instr) s)))"

definition DecodePCRel :: "i32 \<Rightarrow> sim \<Rightarrow> sim result" where
  "DecodePCRel instr s =
     (let op = Bit instr 31
      in if op = 0 then
           let rd = RdField instr;
               immhi = SImm19Field instr;
               immlo = scast (Bits instr 29 2) :: i64;
               off = push_bit 2 immhi OR immlo;
               dest = pc s + off
           in set_register (Some instr) rd dest (RdMode instr) s
         else Inl (UnimplementedInstruction instr))"

definition DecodeDPImmediate :: "i32 \<Rightarrow> sim \<Rightarrow> sim result" where
  "DecodeDPImmediate instr s =
     (if IsMoveWideOp instr then DecodeMoveWide instr s
      else if IsAddSubImmOp instr then DecodeAddSubImm instr s
      else if IsBitfieldOp instr then DecodeBitfield instr s
      else if IsLogicalImmOp instr then DecodeLogicalImm instr s
      else if IsPCRelOp instr then DecodePCRel instr s
      else Inl (UnimplementedInstruction instr))"

end
