(* ===== verification/Arm64_Branch.thy ===== *)
theory Arm64_Branch
  imports Arm64_DPImm
begin

text \<open>
  Branches, system instructions and calls out of the simulated code: the decoders of
  \<^verbatim>\<open>runtime/vm/simulator_arm64.cc\<close> below \<open>DecodeCompareBranch\<close>, and \<open>DoRedirectedCall\<close>.

  The instruction pointer that \<open>DoRedirectedCall\<close> passes to \<open>FromHltInstruction\<close> is the address
  being executed, which is the program counter. A stop in the interactive debugger ends the
  simulated run.
\<close>

definition DecodeCompareAndBranch :: "i32 \<Rightarrow> sim \<Rightarrow> sim result" where
  "DecodeCompareAndBranch instr s =
     (let op = Bit instr 24;
          rt = RtField instr;
          imm19 = SImm19Field instr;
          dest = pc s + push_bit 2 imm19;
          m = (if SFField instr = 1 then kXRegMask else kWRegMask);
          rt_val = get_register s rt R31IsZR AND m
      in if op = 0 then
           if rt_val = 0 then Inr (set_pc dest s) else Inr s
         else
           if rt_val \<noteq> 0 then Inr (set_pc dest s) else Inr s)"

definition ConditionallyExecute :: "i32 \<Rightarrow> sim \<Rightarrow> bool result" where
  "ConditionallyExecute instr s =
     (case (if IsConditionalSelectOp instr then SelectConditionField instr else ConditionField instr) of
        EQ \<Rightarrow> Inr (z_flag s)
      | NE \<Rightarrow> Inr (\<not> z_flag s)
      | CS \<Rightarrow> Inr (c_flag s)
      | CC \<Rightarrow> Inr (\<not> c_flag s)
      | MI \<Rightarrow> Inr (n_flag s)
      | PL \<Rightarrow> Inr (\<not> n_flag s)
      | VS \<Rightarrow> Inr (v_flag s)
      | VC \<Rightarrow> Inr (\<not> v_flag s)
      | HI \<Rightarrow> Inr (c_flag s \<and> \<not> z_flag s)
      | LS \<Rightarrow> Inr (\<not> c_flag s \<or> z_flag s)
      | GE \<Rightarrow> Inr (n_flag s = v_flag s)
      | LT \<Rightarrow> Inr (n_flag s \<noteq> v_flag s)
      | GT \<Rightarrow> Inr (\<not> z_flag s \<and> n_flag s = v_flag s)
      | LE \<Rightarrow> Inr (z_flag s \<or> n_flag s \<noteq> v_flag s)
      | AL \<Rightarrow> Inr True
      | NV \<Rightarrow> Inl Unreachable)"

definition DecodeConditionalBranch :: "i32 \<Rightarrow> sim \<Rightarrow> sim result" where
  "DecodeConditionalBranch instr s =
     (if Bit instr 24 \<noteq> 0 \<or> Bit instr 4 \<noteq> 0 then Inl (UnimplementedInstruction instr)
      else
        let imm19 = SImm19Field instr;
            dest = pc s + push_bit 2 imm19
        in bindE (ConditionallyExecute instr s) (\<lambda>taken. Inr (if taken then set_pc dest s else s)))"

text \<open>\<open>set_register\<close> on a list of registers other than 31, for the results and the zapped registers.\<close>

definition set_registers :: "Register list \<Rightarrow> i64 \<Rightarrow> sim \<Rightarrow> sim" where
  "set_registers regs v s = fold (\<lambda>r s. s\<lparr>registers := (registers s)(r := v)\<rparr>) regs s"

definition DoRedirectedCall :: "host \<Rightarrow> i32 \<Rightarrow> sim \<Rightarrow> sim" where
  "DoRedirectedCall h instr s =
     (let saved_lr = get_register s LR R31IsSP;
          redirection = redirection_at h (pc s);
          external = external_function redirection;
          reg = (\<lambda>r. get_register s r R31IsSP);
          after = (\<lambda>s. set_pc saved_lr (set_registers ([2..<16] @ [16, 17, 18, LR]) (icount s) s))
      in case call_kind redirection of
           kRuntimeCall \<Rightarrow>
             (case host_function h external [reg 0] s of
                HostReturns _ s \<Rightarrow> after (set_registers [0, 1] (icount s) s)
              | HostThrows s \<Rightarrow> s)
         | kLeafRuntimeCall \<Rightarrow>
             (case host_function h external (map reg [0..<8]) s of
                HostReturns res s \<Rightarrow> after (set_registers [1] (icount s) (set_registers [0] res s))
              | HostThrows s \<Rightarrow> s)
         | kLeafFloatRuntimeCall \<Rightarrow>
             (case host_function h external (map (\<lambda>r. get_vregisterd s r 0) [0..<8]) s of
                HostReturns res s \<Rightarrow> after (set_vregisterd 0 1 0 (set_vregisterd 0 0 res s))
              | HostThrows s \<Rightarrow> s)
         | kBootstrapNativeCall \<Rightarrow>
             (case host_function h external [reg 0] s of
                HostReturns _ s \<Rightarrow> after (set_registers [0] (icount s) s)
              | HostThrows s \<Rightarrow> s)
         | kNativeCall \<Rightarrow>
             (case host_function h external [reg 0, reg 1] s of
                HostReturns _ s \<Rightarrow> after (set_registers [0, 1] (icount s) s)
              | HostThrows s \<Rightarrow> s))"

definition kSimulatorBreakCode :: u16 where "kSimulatorBreakCode = 0xdeb2"
definition kSimulatorRedirectCode :: u16 where "kSimulatorRedirectCode = 0xca11"

definition DecodeExceptionGen :: "host \<Rightarrow> i32 \<Rightarrow> sim \<Rightarrow> sim result" where
  "DecodeExceptionGen h instr s =
     (if Bits instr 0 2 = 1 \<and> Bits instr 2 3 = 0 \<and> Bits instr 21 3 = 0 then
        Inl (UnimplementedInstruction instr)
      else if Bits instr 0 2 = 0 \<and> Bits instr 2 3 = 0 \<and> Bits instr 21 3 = 1 then
        Inl (StopSimulation instr)
      else if Bits instr 0 2 = 0 \<and> Bits instr 2 3 = 0 \<and> Bits instr 21 3 = 2 then
        let imm = ucast (Imm16Field instr) :: u16
        in if imm = kSimulatorBreakCode then Inl (StopSimulation instr)
           else if imm = kSimulatorRedirectCode then Inr (DoRedirectedCall h instr s)
           else Inl (UnimplementedInstruction instr)
      else Inl (UnimplementedInstruction instr))"

definition DecodeSystem :: "i32 \<Rightarrow> sim \<Rightarrow> sim result" where
  "DecodeSystem instr s =
     (if instr = SystemOp_bits CLREX then Inr (ClearExclusive s)
      else if Bits instr 0 8 = 0x1f \<and> Bits instr 12 4 = 2 \<and> Bits instr 16 3 = 3
              \<and> Bits instr 19 2 = 0 \<and> Bit instr 21 = 0 then
        if Bits instr 8 4 = 0 then Inr s else Inl (UnimplementedInstruction instr)
      else Inl (UnimplementedInstruction instr))"

definition DecodeTestAndBranch :: "i32 \<Rightarrow> sim \<Rightarrow> sim result" where
  "DecodeTestAndBranch instr s =
     (let op = Bit instr 24;
          bitpos = unat (Bits instr 19 5 OR push_bit 5 (Bit instr 31));
          imm14 = SImm14Field instr;
          dest = pc s + push_bit 2 imm14;
          rt = RtField instr;
          rt_val = get_register s rt R31IsZR
      in if op = 0 then
           if rt_val AND push_bit bitpos 1 = 0 then Inr (set_pc dest s) else Inr s
         else
           if rt_val AND push_bit bitpos 1 \<noteq> 0 then Inr (set_pc dest s) else Inr s)"

definition kInstrSize :: i64 where "kInstrSize = 4"

definition DecodeUnconditionalBranch :: "i32 \<Rightarrow> sim \<Rightarrow> sim result" where
  "DecodeUnconditionalBranch instr s =
     (let link = (Bit instr 31 = 1);
          imm26 = SImm26Field instr;
          dest = pc s + push_bit 2 imm26;
          ret = pc s + kInstrSize;
          s = set_pc dest s
      in if link then set_register (Some instr) LR ret R31IsSP s else Inr s)"

definition DecodeUnconditionalBranchReg :: "i32 \<Rightarrow> sim \<Rightarrow> sim result" where
  "DecodeUnconditionalBranchReg instr s =
     (if Bits instr 0 5 = 0 \<and> Bits instr 10 6 = 0 \<and> Bits instr 16 5 = 0x1f then
        if Bits instr 21 4 = 0 then
          let rn = RnField instr;
              dest = get_register s rn (RnMode instr)
          in Inr (set_pc dest s)
        else if Bits instr 21 4 = 1 then
          let rn = RnField instr;
              dest = get_register s rn (RnMode instr);
              ret = pc s + kInstrSize;
              s = set_pc dest s
          in set_register (Some instr) LR ret R31IsSP s
        else if Bits instr 21 4 = 2 then
          let rn = RnField instr;
              rn_val = get_register s rn (RnMode instr)
          in Inr (set_pc rn_val s)
        else Inl (UnimplementedInstruction instr)
      else Inl (UnimplementedInstruction instr))"

definition DecodeCompareBranch :: "host \<Rightarrow> i32 \<Rightarrow> sim \<Rightarrow> sim result" where
  "DecodeCompareBranch h instr s =
     (if IsCompareAndBranchOp instr then DecodeCompareAndBranch instr s
      else if IsConditionalBranchOp instr then DecodeConditionalBranch instr s
      else if IsExceptionGenOp instr then DecodeExceptionGen h instr s
      else if IsSystemOp instr then DecodeSystem instr s
      else if IsTestAndBranchOp instr then DecodeTestAndBranch instr s
      else if IsUnconditionalBranchOp instr then DecodeUnconditionalBranch instr s
      else if IsUnconditionalBranchRegOp instr then DecodeUnconditionalBranchReg instr s
      else Inl (UnimplementedInstruction instr))"

end
