(* ===== verification/Arm64_DPReg.thy ===== *)
theory Arm64_DPReg
  imports Arm64_Branch "HOL-Library.Signed_Division"
begin

text \<open>
  The data-processing instructions with register operands: \<open>ShiftOperand\<close>, \<open>ExtendOperand\<close> and the
  decoders below \<open>DecodeDPRegister\<close> in \<^verbatim>\<open>runtime/vm/simulator_arm64.cc\<close>. The 128-bit products of
  \<open>smulh\<close> and \<open>umulh\<close> are those of the \<open>__int128\<close> branch.
\<close>

definition ShiftOperand :: "nat \<Rightarrow> i64 \<Rightarrow> Shift \<Rightarrow> nat \<Rightarrow> i64" where
  "ShiftOperand reg_size v shift_type amount =
     (if amount = 0 then v
      else
        let m = (if reg_size = 64 then kXRegMask else kWRegMask)
        in case shift_type of
             LSL \<Rightarrow> push_bit amount v AND m
           | LSR \<Rightarrow> drop_bit amount v
           | ASR \<Rightarrow>
               let s_shift = 64 - reg_size;
                   s_value = signed_drop_bit s_shift (push_bit s_shift v)
               in signed_drop_bit amount s_value AND m
           | ROR \<Rightarrow>
               let v = (if reg_size = 32 then v AND kWRegMask else v)
               in drop_bit amount v
                  OR push_bit (reg_size - amount) (v AND (push_bit amount 1 - 1)))"

definition ExtendOperand :: "nat \<Rightarrow> i64 \<Rightarrow> Extend \<Rightarrow> nat \<Rightarrow> i64" where
  "ExtendOperand reg_size v extend_type amount =
     (let v = (case extend_type of
                 UXTB \<Rightarrow> v AND 0xff
               | UXTH \<Rightarrow> v AND 0xffff
               | UXTW \<Rightarrow> v AND 0xffffffff
               | SXTB \<Rightarrow> signed_drop_bit 56 (push_bit 56 v)
               | SXTH \<Rightarrow> signed_drop_bit 48 (push_bit 48 v)
               | SXTW \<Rightarrow> signed_drop_bit 32 (push_bit 32 v)
               | UXTX \<Rightarrow> v
               | SXTX \<Rightarrow> v);
          m = (if reg_size = 64 then kXRegMask else kWRegMask)
      in push_bit amount v AND m)"

definition DecodeShiftExtendOperand :: "i32 \<Rightarrow> sim \<Rightarrow> i64" where
  "DecodeShiftExtendOperand instr s =
     (let rm = RmField instr;
          rm_val = get_register s rm R31IsZR;
          size = (if SFField instr \<noteq> 0 then 64 else 32)
      in if IsShift instr then
           let shift_type = ShiftTypeField instr;
               shift_amount = unat (Imm6Field instr)
           in ShiftOperand size rm_val shift_type shift_amount
         else
           let extend_type = ExtendTypeField instr;
               shift_amount = unat (Imm3Field instr)
           in ExtendOperand size rm_val extend_type shift_amount)"

definition DecodeAddSubShiftExt :: "i32 \<Rightarrow> sim \<Rightarrow> sim result" where
  "DecodeAddSubShiftExt instr s =
     (let addition = (Bit instr 30 = 0);
          rd = RdField instr;
          rn = RnField instr;
          rm_val = DecodeShiftExtendOperand instr s
      in if SFField instr \<noteq> 0 then
           let rn_val = get_register s rn (RnMode instr);
               alu_out = rn_val + (if addition then rm_val else - rm_val)
           in bindE (set_register (Some instr) rd alu_out (RdMode instr) s) (\<lambda>s.
                if HasS instr then
                  let s = SetNZFlagsX alu_out s;
                      s = SetCFlag (CarryFromX alu_out rn_val rm_val addition) s;
                      s = SetVFlag (OverflowFromX alu_out rn_val rm_val addition) s
                  in Inr s
                else Inr s)
         else
           let rn_val = get_wregister s rn (RnMode instr);
               rm_val32 = ucast (rm_val AND kWRegMask) :: i32;
               carry_in = (if addition then 0 else 1) :: i32;
               rm_val32 = (if addition then rm_val32 else NOT rm_val32);
               alu_out = rn_val + rm_val32 + carry_in;
               s = set_wregister rd alu_out (RdMode instr) s
           in if HasS instr then
                let s = SetNZFlagsW alu_out s;
                    s = SetCFlag (CarryFromW rn_val rm_val32 carry_in) s;
                    s = SetVFlag (OverflowFromW rn_val rm_val32 carry_in) s
                in Inr s
              else Inr s)"

definition DecodeAddSubWithCarry :: "i32 \<Rightarrow> sim \<Rightarrow> sim result" where
  "DecodeAddSubWithCarry instr s =
     (let addition = (Bit instr 30 = 0);
          rd = RdField instr;
          rn = RnField instr;
          rm = RmField instr;
          rn_val64 = get_register s rn R31IsZR;
          rn_val32 = get_wregister s rn R31IsZR;
          rm_val64 = get_register s rm R31IsZR;
          rm_val32 = get_wregister s rm R31IsZR;
          carry_in = (if c_flag s then 1 else 0) :: i32
      in if SFField instr \<noteq> 0 then
           let alu_out = rn_val64 + (if addition then rm_val64 else NOT rm_val64) + scast carry_in
           in bindE (set_register (Some instr) rd alu_out R31IsZR s) (\<lambda>s.
                if HasS instr then
                  let s = SetNZFlagsX alu_out s;
                      s = SetCFlag (CarryFromX alu_out rn_val64 rm_val64 addition) s;
                      s = SetVFlag (OverflowFromX alu_out rn_val64 rm_val64 addition) s
                  in Inr s
                else Inr s)
         else
           let rm_val32 = (if addition then rm_val32 else NOT rm_val32);
               alu_out = rn_val32 + rm_val32 + carry_in;
               s = set_wregister rd alu_out R31IsZR s
           in if HasS instr then
                let s = SetNZFlagsW alu_out s;
                    s = SetCFlag (CarryFromW rn_val32 rm_val32 carry_in) s;
                    s = SetVFlag (OverflowFromW rn_val32 rm_val32 carry_in) s
                in Inr s
              else Inr s)"

definition DecodeLogicalShift :: "i32 \<Rightarrow> sim \<Rightarrow> sim result" where
  "DecodeLogicalShift instr s =
     (let op = push_bit 1 (Bits instr 29 2) OR Bit instr 21;
          rd = RdField instr;
          rn = RnField instr;
          rn_val = get_register s rn (RnMode instr);
          rm_val = DecodeShiftExtendOperand instr s
      in bindE (if op = 0 then Inr (rn_val AND rm_val)
                else if op = 1 then Inr (rn_val AND NOT rm_val)
                else if op = 2 then Inr (rn_val OR rm_val)
                else if op = 3 then Inr (rn_val OR NOT rm_val)
                else if op = 4 then Inr (rn_val XOR rm_val)
                else if op = 5 then Inr (rn_val XOR NOT rm_val)
                else if op = 6 then Inr (rn_val AND rm_val)
                else if op = 7 then Inr (rn_val AND NOT rm_val)
                else Inl Unreachable) (\<lambda>alu_out.
           let s = (if op = 6 \<or> op = 7 then
                      let s = (if SFField instr = 1 then SetNZFlagsX alu_out s
                               else SetNZFlagsW (ucast alu_out) s)
                      in SetVFlag False (SetCFlag False s)
                    else s)
           in if SFField instr = 1 then set_register (Some instr) rd alu_out (RdMode instr) s
              else Inr (set_wregister rd (ucast (alu_out AND kWRegMask)) (RdMode instr) s)))"

definition divide64 :: "i64 \<Rightarrow> i64 \<Rightarrow> bool \<Rightarrow> i64" where
  "divide64 top_val bottom signd =
     (if bottom = 0 then 0
      else if signd then
        if top_val = 0x8000000000000000 \<and> bottom = 0xffffffffffffffff then 0x8000000000000000
        else word_of_int (sint top_val sdiv sint bottom)
      else top_val div bottom)"

definition divide32 :: "i32 \<Rightarrow> i32 \<Rightarrow> bool \<Rightarrow> i32" where
  "divide32 top_val bottom signd =
     (if bottom = 0 then 0
      else if signd then
        if top_val = 0x80000000 \<and> bottom = 0xffffffff then 0x80000000
        else word_of_int (sint top_val sdiv sint bottom)
      else top_val div bottom)"

text \<open>The counting loop of \<open>clz\<close>, which shifts the value left until its sign bit is set.\<close>

function clz_loop :: "i64 \<Rightarrow> i64 \<Rightarrow> i64" where
  "clz_loop rn_val rd_val =
     (if 0 <s rn_val then clz_loop (push_bit 1 rn_val) (rd_val + 1) else rd_val)"
  by pat_completeness auto
termination
proof (relation "measure (\<lambda>(rn_val, _). nat (2 ^ 63 - (if 0 <s rn_val then uint rn_val else 2 ^ 63)))")
  fix rn_val rd_val :: i64
  assume pos: "0 <s rn_val"
  have le: "uint rn_val < 2 ^ 63" "0 < uint rn_val"
    using pos sint_range64 [of rn_val] unsigned_less [of rn_val, where ?'a = int]
    unfolding word_sless_alt by (simp_all add: sint_uint_if split: if_splits)
  have "uint (push_bit 1 rn_val) = 2 * uint rn_val"
    using le unfolding unsigned_push_bit_eq by (simp add: take_bit_int_eq_self push_bit_eq_mult)
  with le pos show "((push_bit 1 rn_val, rd_val + 1), (rn_val, rd_val))
      \<in> measure (\<lambda>(rn_val, _). nat (2 ^ 63 - (if 0 <s rn_val then uint rn_val else 2 ^ 63)))"
    by (simp add: in_measure)
qed simp

declare clz_loop.simps [simp del]

definition DecodeMiscDP1Source :: "i32 \<Rightarrow> sim \<Rightarrow> sim result" where
  "DecodeMiscDP1Source instr s =
     (if Bit instr 29 \<noteq> 0 then Inl (UnimplementedInstruction instr)
      else
        let rd = RdField instr;
            rn = RnField instr;
            op = Bits instr 10 10;
            rn_val64 = get_register s rn R31IsZR;
            rn_val32 = get_wregister s rn R31IsZR
        in if op = 4 then
             let rn_val = (if SFField instr = 1 then rn_val64 else scast rn_val32);
                 rd_val = (if rn_val \<noteq> 0 then clz_loop rn_val 0
                           else if SFField instr = 1 then 64 else 32)
             in if SFField instr = 1 then set_register (Some instr) rd rd_val R31IsZR s
                else Inr (set_wregister rd (ucast rd_val) R31IsZR s)
           else Inl (UnimplementedInstruction instr))"

definition DecodeMiscDP2Source :: "i32 \<Rightarrow> sim \<Rightarrow> sim result" where
  "DecodeMiscDP2Source instr s =
     (if Bit instr 29 \<noteq> 0 then Inl (UnimplementedInstruction instr)
      else
        let rd = RdField instr;
            rn = RnField instr;
            rm = RmField instr;
            op = Bits instr 10 5;
            rn_val64 = get_register s rn R31IsZR;
            rm_val64 = get_register s rm R31IsZR;
            rn_val32 = get_wregister s rn R31IsZR;
            rm_val32 = get_wregister s rm R31IsZR;
            amount64 = unat (rm_val64 AND 63);
            amount32 = unat (rm_val32 AND 63);
            w_shift = (\<lambda>alu_out. if amount32 < 32 then Inr (set_wregister rd alu_out R31IsZR s)
                                 else Inl (UndefinedShift instr))
        in if op = 2 \<or> op = 3 then
             let signd = (Bit instr 10 = 1)
             in if SFField instr = 1
                then set_register (Some instr) rd (divide64 rn_val64 rm_val64 signd) R31IsZR s
                else Inr (set_wregister rd (divide32 rn_val32 rm_val32 signd) R31IsZR s)
           else if op = 8 then
             if SFField instr = 1
             then set_register (Some instr) rd (push_bit amount64 rn_val64) R31IsZR s
             else w_shift (push_bit amount32 rn_val32)
           else if op = 9 then
             if SFField instr = 1
             then set_register (Some instr) rd (drop_bit amount64 rn_val64) R31IsZR s
             else w_shift (drop_bit amount32 rn_val32)
           else if op = 10 then
             if SFField instr = 1
             then set_register (Some instr) rd (signed_drop_bit amount64 rn_val64) R31IsZR s
             else w_shift (signed_drop_bit amount32 rn_val32)
           else Inl (UnimplementedInstruction instr))"

definition DecodeMiscDP3Source :: "i32 \<Rightarrow> sim \<Rightarrow> sim result" where
  "DecodeMiscDP3Source instr s =
     (let rd = RdField instr;
          rn = RnField instr;
          rm = RmField instr;
          ra = RaField instr;
          rn_val = get_register s rn R31IsZR;
          rm_val = get_register s rm R31IsZR;
          ra_val = get_register s ra R31IsZR;
          rn_val32 = get_wregister s rn R31IsZR;
          rm_val32 = get_wregister s rm R31IsZR;
          ra_val32 = get_wregister s ra R31IsZR
      in if Bits instr 29 2 = 0 \<and> Bits instr 21 3 = 0 \<and> Bit instr 15 = 0 then
           if SFField instr = 1
           then set_register (Some instr) rd (ra_val + rn_val * rm_val) R31IsZR s
           else Inr (set_wregister rd (ra_val32 + rn_val32 * rm_val32) R31IsZR s)
         else if Bits instr 29 2 = 0 \<and> Bits instr 21 3 = 0 \<and> Bit instr 15 = 1 then
           if SFField instr = 1
           then set_register (Some instr) rd (ra_val - rn_val * rm_val) R31IsZR s
           else Inr (set_wregister rd (ra_val32 - rn_val32 * rm_val32) R31IsZR s)
         else if Bits instr 29 3 = 4 \<and> Bits instr 21 3 = 2 \<and> Bit instr 15 = 0 then
           let res = scast rn_val * scast rm_val :: 128 word;
               alu_out = ucast (signed_drop_bit 64 res)
           in set_register (Some instr) rd alu_out R31IsZR s
         else if Bits instr 29 3 = 4 \<and> Bits instr 21 3 = 6 \<and> Bit instr 15 = 0 then
           let res = ucast rn_val * ucast rm_val :: 128 word;
               alu_out = ucast (drop_bit 64 res)
           in set_register (Some instr) rd alu_out R31IsZR s
         else if Bits instr 29 3 = 4 \<and> Bit instr 15 = 0 then
           if Bits instr 21 3 = 5
           then set_register (Some instr) rd (ra_val + ucast rn_val32 * ucast rm_val32) R31IsZR s
           else set_register (Some instr) rd (ra_val + scast rn_val32 * scast rm_val32) R31IsZR s
         else Inl (UnimplementedInstruction instr))"

definition DecodeConditionalSelect :: "i32 \<Rightarrow> sim \<Rightarrow> sim result" where
  "DecodeConditionalSelect instr s =
     (let rd = RdField instr;
          rn = RnField instr;
          rm = RmField instr;
          rm_val64 = get_register s rm R31IsZR;
          rm_val32 = get_wregister s rm R31IsZR;
          rn_val64 = get_register s rn (RnMode instr);
          rn_val32 = get_wregister s rn (RnMode instr);
          select = (\<lambda>result64 result32.
            bindE (ConditionallyExecute instr s) (\<lambda>taken.
              let result64 = (if taken then rn_val64 else result64);
                  result32 = (if taken then rn_val32 else result32)
              in if SFField instr = 1 then set_register (Some instr) rd result64 (RdMode instr) s
                 else Inr (set_wregister rd result32 (RdMode instr) s)))
      in if Bits instr 29 2 = 0 \<and> Bits instr 10 2 = 0 then select rm_val64 rm_val32
         else if Bits instr 29 2 = 0 \<and> Bits instr 10 2 = 1 then select (rm_val64 + 1) (rm_val32 + 1)
         else if Bits instr 29 2 = 2 \<and> Bits instr 10 2 = 0 then select (NOT rm_val64) (NOT rm_val32)
         else if Bits instr 29 2 = 2 \<and> Bits instr 10 2 = 1 then select (- rm_val64) (- rm_val32)
         else Inl (UnimplementedInstruction instr))"

definition DecodeDPRegister :: "i32 \<Rightarrow> sim \<Rightarrow> sim result" where
  "DecodeDPRegister instr s =
     (if IsAddSubShiftExtOp instr then DecodeAddSubShiftExt instr s
      else if IsAddSubWithCarryOp instr then DecodeAddSubWithCarry instr s
      else if IsLogicalShiftOp instr then DecodeLogicalShift instr s
      else if IsMiscDP1SourceOp instr then DecodeMiscDP1Source instr s
      else if IsMiscDP2SourceOp instr then DecodeMiscDP2Source instr s
      else if IsMiscDP3SourceOp instr then DecodeMiscDP3Source instr s
      else if IsConditionalSelectOp instr then DecodeConditionalSelect instr s
      else Inl (UnimplementedInstruction instr))"

end
