(* ===== verification/Arm64_LoadStore.thy ===== *)
theory Arm64_LoadStore
  imports Arm64_DPReg
begin

text \<open>
  Loads and stores: \<open>DecodeLoadStoreReg\<close>, \<open>DecodeLoadStoreRegPair\<close>, \<open>DecodeLoadRegLiteral\<close>,
  \<open>DecodeLoadStoreExclusive\<close> and \<open>DecodeLoadStore\<close> of \<^verbatim>\<open>runtime/vm/simulator_arm64.cc\<close>.

  The body of \<open>DecodeLoadStoreReg\<close> is split where the code has its comments: the calculation of the
  address and the writeback, the access of a V register, and the access of a general register.
\<close>

text \<open>Calculate the address: the address, whether to write back, and the written-back value.\<close>

definition LoadStoreReg_address :: "i32 \<Rightarrow> nat \<Rightarrow> sim \<Rightarrow> (uword \<times> bool \<times> uword) result" where
  "LoadStoreReg_address instr sz s =
     (let rn_val = get_register s (RnField instr) R31IsSP
      in if Bit instr 24 = 1 then
           let imm12 = Imm12Field instr;
               offset = push_bit sz imm12
           in Inr (rn_val + ucast offset, False, 0)
         else if Bits instr 10 2 = 0 then
           let offset = SImm9Field instr
           in Inr (rn_val + offset, False, rn_val)
         else if Bit instr 10 = 1 then
           let offset = SImm9Field instr
           in if Bit instr 11 = 1 then Inr (rn_val + offset, True, rn_val + offset)
              else Inr (rn_val, True, rn_val + offset)
         else if Bits instr 10 2 = 2 then
           let rm = RmField instr;
               ext = ExtendTypeField instr;
               scale = (if ext = UXTX \<and> Bit instr 12 = 1 then sz else 0);
               rm_val = get_register s rm R31IsZR;
               offset = ExtendOperand 64 rm_val ext scale
           in Inr (rn_val + offset, False, 0)
         else Inl (UnimplementedInstruction instr))"

definition LoadStoreReg_access_v :: "i32 \<Rightarrow> nat \<Rightarrow> uword \<Rightarrow> sim \<Rightarrow> sim result" where
  "LoadStoreReg_access_v instr sz address s =
     (let vt = VtField instr
      in if Bit instr 22 = 0 then
           let vt_val = get_vregisterd s vt 0
           in if sz = 2 then WriteW address (ucast (vt_val AND kWRegMask)) s
              else if sz = 3 then WriteX address vt_val s
              else if sz = 4 then
                let val = get_vregister s vt
                in bindE (WriteX address (simd_i64 val 0) s) (WriteX (address + 8) (simd_i64 val 1))
              else Inl (UnimplementedInstruction instr)
         else
           if sz = 2 then
             bindE (ReadWU address s) (\<lambda>v. Inr (set_vregisterd vt 1 0 (set_vregisterd vt 0 (ucast v) s)))
           else if sz = 3 then
             bindE (ReadX address s) (\<lambda>v. Inr (set_vregisterd vt 1 0 (set_vregisterd vt 0 v s)))
           else if sz = 4 then
             bindE (ReadX address s) (\<lambda>v0.
             bindE (ReadX (address + 8) s) (\<lambda>v1.
               Inr (set_vregister vt (simd_set_i64 (simd_set_i64 0 0 v0) 1 v1) s)))
           else Inl (UnimplementedInstruction instr))"

definition LoadStoreReg_access :: "i32 \<Rightarrow> nat \<Rightarrow> uword \<Rightarrow> sim \<Rightarrow> sim result" where
  "LoadStoreReg_access instr sz address s =
     (let rt = RtField instr
      in if Bits instr 22 2 = 0 then
           let rt_val32 = get_wregister s rt R31IsZR
           in if sz = 0 then Inr (WriteB address (ucast rt_val32) s)
              else if sz = 1 then WriteH address (ucast rt_val32) s
              else if sz = 2 then WriteW address rt_val32 s
              else if sz = 3 then WriteX address (get_register s rt R31IsZR) s
              else Inl Unreachable
         else if sz = 3 \<and> Bits instr 22 2 = 3 then Inl (UnimplementedInstruction instr)
         else
           let signd = (Bit instr 23 = 1);
               use_w = (signd \<and> Bit instr 22 = 1) \<or> (\<not> signd \<and> sz = 2)
           in bindE (if sz = 0 then
                       Inr (if signd then scast (ReadB address s) else ucast (ReadBU address s))
                     else if sz = 1 then
                       if signd then bindE (ReadH address s) (\<lambda>v. Inr (scast v))
                       else bindE (ReadHU address s) (\<lambda>v. Inr (ucast v))
                     else if sz = 2 then
                       if signd then bindE (ReadW address s) (\<lambda>v. Inr (scast v))
                       else bindE (ReadWU address s) (\<lambda>v. Inr (ucast v))
                     else if sz = 3 then ReadX address s
                     else Inl Unreachable) (\<lambda>val :: i64.
                if use_w then Inr (set_wregister rt (ucast val) R31IsZR s)
                else set_register (Some instr) rt val R31IsZR s))"

definition LoadStoreReg_size :: "i32 \<Rightarrow> nat" where
  "LoadStoreReg_size instr =
     unat (if Bit instr 26 = 1 then push_bit 2 (Bit instr 23) OR SzField instr else SzField instr)"

definition DecodeLoadStoreReg :: "i32 \<Rightarrow> sim \<Rightarrow> sim result" where
  "DecodeLoadStoreReg instr s =
     (let rn = RnField instr;
          sz = LoadStoreReg_size instr
      in bindE (LoadStoreReg_address instr sz s) (\<lambda>(address, wb, wb_address).
           if IsIllegalAddress address then Inl (HandleIllegalAccess address)
           else bindE (if Bit instr 26 = 1 then LoadStoreReg_access_v instr sz address s
                       else LoadStoreReg_access instr sz address s) (\<lambda>s.
             if wb then set_register (Some instr) rn wb_address R31IsSP s else Inr s)))"

definition LoadStoreRegPair_access :: "i32 \<Rightarrow> i64 \<Rightarrow> uword \<Rightarrow> sim \<Rightarrow> sim result" where
  "LoadStoreRegPair_access instr sz address s =
     (let rt = RtField instr;
          rt2 = Rt2Field instr
      in if Bit instr 22 \<noteq> 0 then
           let signd = (Bit instr 30 = 1)
           in if Bit instr 31 = 1 then
                bindE (ReadX address s) (\<lambda>val1.
                bindE (ReadX (address + sz) s) (\<lambda>val2.
                bindE (set_register (Some instr) rt val1 R31IsZR s) (\<lambda>s.
                  set_register (Some instr) rt2 val2 R31IsZR s)))
              else
                bindE (if signd then bindE (ReadW address s) (\<lambda>v. Inr (scast v))
                       else bindE (ReadWU address s) (\<lambda>v. Inr (ucast v))) (\<lambda>val1 :: i64.
                bindE (if signd then bindE (ReadW (address + sz) s) (\<lambda>v. Inr (scast v))
                       else bindE (ReadWU (address + sz) s) (\<lambda>v. Inr (ucast v))) (\<lambda>val2 :: i64.
                  Inr (set_wregister rt2 (ucast val2) R31IsZR (set_wregister rt (ucast val1) R31IsZR s))))
         else if Bit instr 31 = 1 then
           let val1 = get_register s rt R31IsZR;
               val2 = get_register s rt2 R31IsZR
           in bindE (WriteX address val1 s) (WriteX (address + sz) val2)
         else
           let val1 = get_wregister s rt R31IsZR;
               val2 = get_wregister s rt2 R31IsZR
           in bindE (WriteW address val1 s) (WriteW (address + sz) val2))"

definition DecodeLoadStoreRegPair :: "i32 \<Rightarrow> sim \<Rightarrow> sim result" where
  "DecodeLoadStoreRegPair instr s =
     (let opc = Bits instr 23 3;
          rn = RnField instr;
          rn_val = get_register s rn R31IsSP;
          shift = 2 + unat (SFField instr);
          sz = push_bit shift 1 :: i64;
          offset = scast (ucast (push_bit shift (SImm7Field instr)) :: i32) :: i64
      in if Bits instr 30 2 = 3 \<or> Bit instr 26 \<noteq> 0 then Inl (UnimplementedInstruction instr)
         else bindE (if opc = 1 then Inr (rn_val, True, rn_val + offset)
                     else if opc = 2 then Inr (rn_val + offset, False, 0)
                     else if opc = 3 then Inr (rn_val + offset, True, rn_val + offset)
                     else Inl (UnimplementedInstruction instr)) (\<lambda>(address, wb, wb_address).
           if IsIllegalAddress address then Inl (HandleIllegalAccess address)
           else bindE (LoadStoreRegPair_access instr sz address s) (\<lambda>s.
             if wb then set_register (Some instr) rn wb_address R31IsSP s else Inr s)))"

definition DecodeLoadRegLiteral :: "i32 \<Rightarrow> sim \<Rightarrow> sim result" where
  "DecodeLoadRegLiteral instr s =
     (if Bit instr 31 \<noteq> 0 \<or> Bit instr 29 \<noteq> 0 \<or> Bits instr 24 3 \<noteq> 0
      then Inl (UnimplementedInstruction instr)
      else
        let rt = RtField instr;
            off = push_bit 2 (SImm19Field instr);
            address = pc s + off
        in bindE (ReadX address s) (\<lambda>val.
             if Bit instr 30 \<noteq> 0 then set_register (Some instr) rt val R31IsZR s
             else Inr (set_wregister rt (ucast val) R31IsZR s)))"

definition DecodeLoadStoreExclusive :: "i32 \<Rightarrow> sim \<Rightarrow> sim result" where
  "DecodeLoadStoreExclusive instr s =
     (let sz = Bits instr 30 2;
          rs = RsField instr;
          rn = RnField instr;
          rt = RtField instr;
          is_load = (Bit instr 22 = 1);
          addr = get_register s rn R31IsSP;
          v = get_register s rt R31IsSP
      in if Bit instr 23 \<noteq> 0 \<or> Bit instr 21 \<noteq> 0 \<or> Bit instr 15 \<noteq> 0 then Inl (Unimplemented instr)
         else if sz \<noteq> 3 \<and> sz \<noteq> 2 then Inl (Unimplemented instr)
         else if is_load then
           if sz = 3 then
             bindE (ReadExclusiveX addr s) (\<lambda>(v, s). set_register (Some instr) rt v R31IsSP s)
           else
             bindE (ReadExclusiveW addr s) (\<lambda>(v, s). set_register (Some instr) rt v R31IsSP s)
         else
           let (status, s) = (if sz = 3 then WriteExclusiveX addr v s
                              else WriteExclusiveW addr (ucast (ucast v :: u32)) s)
           in set_register (Some instr) rs status R31IsSP s)"

definition DecodeLoadStore :: "i32 \<Rightarrow> sim \<Rightarrow> sim result" where
  "DecodeLoadStore instr s =
     (if IsLoadStoreRegOp instr then DecodeLoadStoreReg instr s
      else if IsLoadStoreRegPairOp instr then DecodeLoadStoreRegPair instr s
      else if IsLoadRegLiteralOp instr then DecodeLoadRegLiteral instr s
      else if IsLoadStoreExclusiveOp instr then DecodeLoadStoreExclusive instr s
      else Inl (UnimplementedInstruction instr))"

end
