(* ===== verification/Arm64_FP.thy ===== *)
theory Arm64_FP
  imports Arm64_LoadStore
begin

text \<open>
  SIMD and floating-point instructions: the decoders below \<open>DecodeDPSimd1\<close> and \<open>DecodeDPSimd2\<close> of
  \<^verbatim>\<open>runtime/vm/simulator_arm64.cc\<close>. The arithmetic on \<open>float\<close> and \<open>double\<close> values is the host's, a
  parameter of type \<^typ>\<open>fpu\<close>; the constants of the code are written as their bit patterns. A lane
  index that the assertions of the code exclude reads as zero.
\<close>

text \<open>A loop over the lanes \<open>0, \<dots>, n - 1\<close> of a register, in which an iteration may fault.\<close>

definition for_lanes :: "nat \<Rightarrow> (nat \<Rightarrow> sim \<Rightarrow> sim result) \<Rightarrow> sim \<Rightarrow> sim result" where
  "for_lanes n f s = fold (\<lambda>i r. bindE r (f i)) [0..<n] (Inr s)"

definition DecodeSIMDCopy :: "i32 \<Rightarrow> sim \<Rightarrow> sim result" where
  "DecodeSIMDCopy instr s =
     (let Q = Bit instr 30;
          op = Bit instr 29;
          imm4 = Bits instr 11 4;
          imm5 = Bits instr 16 5
      in bindE (if imm5 AND 0x1 \<noteq> 0 then Inr (unat imm4, unat (drop_bit 1 imm5), 1)
                else if imm5 AND 0x2 \<noteq> 0 then Inr (unat (drop_bit 1 imm4), unat (drop_bit 2 imm5), 2)
                else if imm5 AND 0x4 \<noteq> 0 then Inr (unat (drop_bit 2 imm4), unat (drop_bit 3 imm5), 4)
                else if imm5 AND 0x8 \<noteq> 0 then Inr (unat (drop_bit 3 imm4), unat (drop_bit 4 imm5), 8)
                else Inl (UnimplementedInstruction instr)) (\<lambda>(idx4, idx5, element_bytes :: nat).
           let vd = VdField instr;
               vn = VnField instr;
               rn = RnField instr;
               rd = RdField instr
           in if op = 0 \<and> imm4 = 7 then
                if Q = 0 then Inr (set_wregister rd (get_vregisters s vn idx5) R31IsZR s)
                else set_register (Some instr) rd (get_vregisterd s vn idx5) R31IsZR s
              else if Q = 1 \<and> op = 0 \<and> imm4 = 0 then
                if element_bytes = 4 then
                  for_lanes 4 (\<lambda>i s. Inr (set_vregisters vd i (get_vregisters s vn idx5) s)) s
                else if element_bytes = 8 then
                  for_lanes 2 (\<lambda>i s. Inr (set_vregisterd vd i (get_vregisterd s vn idx5) s)) s
                else Inl (UnimplementedInstruction instr)
              else if Q = 1 \<and> op = 0 \<and> imm4 = 3 then
                if element_bytes = 4 then Inr (set_vregisters vd idx5 (get_wregister s rn R31IsZR) s)
                else if element_bytes = 8 then Inr (set_vregisterd vd idx5 (get_register s rn R31IsZR) s)
                else Inl (UnimplementedInstruction instr)
              else if Q = 1 \<and> op = 0 \<and> imm4 = 1 then
                if element_bytes = 4 then
                  for_lanes 4 (\<lambda>i s. Inr (set_vregisters vd i (get_wregister s rn R31IsZR) s)) s
                else if element_bytes = 8 then
                  for_lanes 2 (\<lambda>i s. Inr (set_vregisterd vd i (get_register s rn R31IsZR) s)) s
                else Inl (UnimplementedInstruction instr)
              else if Q = 1 \<and> op = 1 then
                if element_bytes = 4 then Inr (set_vregisters vd idx5 (get_vregisters s vn idx4) s)
                else if element_bytes = 8 then Inr (set_vregisterd vd idx5 (get_vregisterd s vn idx4) s)
                else Inl (UnimplementedInstruction instr)
              else Inl (UnimplementedInstruction instr)))"

text \<open>The result of one 32-bit lane and of one 64-bit lane of a three-register SIMD instruction.\<close>

definition SIMDThreeSame_f32 :: "fpu \<Rightarrow> i32 \<Rightarrow> i32 \<Rightarrow> i32 \<Rightarrow> i32 result" where
  "SIMDThreeSame_f32 f instr vn_val vm_val =
     (let U = Bit instr 29;
          opcode = Bits instr 11 5
      in if U = 0 \<and> opcode = 0x3 then
           if Bit instr 23 = 0 then Inr (vn_val AND vm_val) else Inr (vn_val OR vm_val)
         else if U = 1 \<and> opcode = 0x3 then Inr (vn_val XOR vm_val)
         else if U = 0 \<and> opcode = 0x10 then Inr (vn_val + vm_val)
         else if U = 1 \<and> opcode = 0x10 then Inr (vn_val - vm_val)
         else if U = 0 \<and> opcode = 0x1a then
           if Bit instr 23 = 0 then Inr (f32_add f vn_val vm_val) else Inr (f32_sub f vn_val vm_val)
         else if U = 1 \<and> opcode = 0x1b then Inr (f32_mul f vn_val vm_val)
         else if U = 1 \<and> opcode = 0x1f then Inr (f32_div f vn_val vm_val)
         else if U = 0 \<and> opcode = 0x1c then
           Inr (if f32_eq f vn_val vm_val then 0xffffffff else 0)
         else if U = 1 \<and> opcode = 0x1c then
           if Bit instr 23 = 1 then Inr (if f32_lt f vm_val vn_val then 0xffffffff else 0)
           else Inr (if f32_le f vm_val vn_val then 0xffffffff else 0)
         else if U = 0 \<and> opcode = 0x1e then
           if Bit instr 23 = 1 then Inr (if f32_lt f vm_val vn_val then vm_val else vn_val)
           else Inr (if f32_lt f vn_val vm_val then vm_val else vn_val)
         else if U = 0 \<and> opcode = 0x1f then
           let product = f32_to_f64 f (f32_mul f vn_val vm_val)
           in if Bit instr 23 = 0
              then Inr (f64_to_f32 f (f64_sub f 0x4000000000000000 product))
              else Inr (f64_to_f32 f (f64_div f (f64_sub f 0x4008000000000000 product) 0x4000000000000000))
         else Inl (UnimplementedInstruction instr))"

definition SIMDThreeSame_f64 :: "fpu \<Rightarrow> i32 \<Rightarrow> i64 \<Rightarrow> i64 \<Rightarrow> i64 result" where
  "SIMDThreeSame_f64 f instr vn_val vm_val =
     (let U = Bit instr 29;
          opcode = Bits instr 11 5
      in if U = 0 \<and> opcode = 0x3 then
           if Bit instr 23 = 0 then Inr (vn_val AND vm_val) else Inr (vn_val OR vm_val)
         else if U = 1 \<and> opcode = 0x3 then Inr (vn_val XOR vm_val)
         else if U = 0 \<and> opcode = 0x10 then Inr (vn_val + vm_val)
         else if U = 1 \<and> opcode = 0x10 then Inr (vn_val - vm_val)
         else if U = 0 \<and> opcode = 0x1a then
           if Bit instr 23 = 0 then Inr (f64_add f vn_val vm_val) else Inr (f64_sub f vn_val vm_val)
         else if U = 1 \<and> opcode = 0x1b then Inr (f64_mul f vn_val vm_val)
         else if U = 1 \<and> opcode = 0x1f then Inr (f64_div f vn_val vm_val)
         else if U = 0 \<and> opcode = 0x1c then
           Inr (if f64_eq f vn_val vm_val then 0xffffffffffffffff else 0)
         else if U = 1 \<and> opcode = 0x1c then
           if Bit instr 23 = 1 then Inr (if f64_lt f vm_val vn_val then 0xffffffffffffffff else 0)
           else Inr (if f64_le f vm_val vn_val then 0xffffffffffffffff else 0)
         else if U = 0 \<and> opcode = 0x1e then
           if Bit instr 23 = 1 then Inr (if f64_lt f vm_val vn_val then vm_val else vn_val)
           else Inr (if f64_lt f vn_val vm_val then vm_val else vn_val)
         else Inl (UnimplementedInstruction instr))"

definition DecodeSIMDThreeSame :: "fpu \<Rightarrow> i32 \<Rightarrow> sim \<Rightarrow> sim result" where
  "DecodeSIMDThreeSame f instr s =
     (if Bit instr 30 = 0 then Inl (UnimplementedInstruction instr)
      else
        let vd = VdField instr;
            vn = VnField instr;
            vm = VmField instr
        in if Bit instr 22 = 0 then
             for_lanes 4 (\<lambda>idx s.
               bindE (SIMDThreeSame_f32 f instr (get_vregisters s vn idx) (get_vregisters s vm idx)) (\<lambda>res.
                 Inr (set_vregisters vd idx res s))) s
           else
             for_lanes 2 (\<lambda>idx s.
               bindE (SIMDThreeSame_f64 f instr (get_vregisterd s vn idx) (get_vregisterd s vm idx)) (\<lambda>res.
                 Inr (set_vregisterd vd idx res s))) s)"

definition arm_reciprocal_sqrt_estimate :: "fpu \<Rightarrow> i32 \<Rightarrow> i32" where
  "arm_reciprocal_sqrt_estimate f a =
     (if f32_isinf f a \<or> f32_le f 0x7e800000 (f32_abs f a) then 0
      else if f32_eq f a 0 then 0x7f800000
      else if f32_isnan f a then a
      else
        let frac = push_bit 29 (ucast a AND 0x7fffff) :: u64;
            scaled = (if drop_bit 23 a AND 1 \<noteq> 0 then push_bit 52 0x3fd OR frac
                      else push_bit 52 0x3fe OR frac);
            result_exp = (380 - (drop_bit 23 a AND 0xff)) div 2 :: i32;
            r = (if f64_lt f scaled 0x3fe0000000000000 then
                   let q0 = f64_to_i32 f (f64_mul f scaled 0x4080000000000000)
                   in f64_div f 0x3ff0000000000000
                        (f64_sqrt f (f64_div f (f64_add f (i32_to_f64 f q0) 0x3fe0000000000000)
                                               0x4080000000000000))
                 else
                   let q1 = f64_to_i32 f (f64_mul f scaled 0x4070000000000000)
                   in f64_div f 0x3ff0000000000000
                        (f64_sqrt f (f64_div f (f64_add f (i32_to_f64 f q1) 0x3fe0000000000000)
                                               0x4070000000000000)));
            s = f64_to_i32 f (f64_add f (f64_mul f 0x4070000000000000 r) 0x3fe0000000000000);
            estimate = f64_div f (i32_to_f64 f s) 0x4070000000000000
        in push_bit 23 (result_exp AND 0xff) OR ucast (drop_bit 29 estimate AND 0x7fffff))"

definition arm_recip_estimate :: "fpu \<Rightarrow> i32 \<Rightarrow> i32" where
  "arm_recip_estimate f a =
     (if f32_isinf f a \<or> f32_le f 0x7e800000 (f32_abs f a) then 0
      else if f32_eq f a 0 then 0x7f800000
      else if f32_isnan f a then a
      else
        let scaled = push_bit 52 0x3fe OR push_bit 29 (ucast a AND 0x7fffff) :: u64;
            result_exp = 253 - (drop_bit 23 a AND 0xff) :: i32;
            q = f64_to_i32 f (f64_mul f scaled 0x4080000000000000);
            r = f64_div f 0x3ff0000000000000
                  (f64_div f (f64_add f (i32_to_f64 f q) 0x3fe0000000000000) 0x4080000000000000);
            s = f64_to_i32 f (f64_add f (f64_mul f 0x4070000000000000 r) 0x3fe0000000000000);
            estimate = f64_div f (i32_to_f64 f s) 0x4070000000000000
        in (a AND 0x80000000) OR push_bit 23 (result_exp AND 0xff)
           OR ucast (drop_bit 29 estimate AND 0x7fffff))"

definition DecodeSIMDTwoReg :: "fpu \<Rightarrow> i32 \<Rightarrow> sim \<Rightarrow> sim result" where
  "DecodeSIMDTwoReg f instr s =
     (let Q = Bit instr 30;
          U = Bit instr 29;
          op = Bits instr 12 5;
          sz = Bits instr 22 2;
          vd = VdField instr;
          vn = VnField instr;
          lanes32 = (\<lambda>g. for_lanes 4 (\<lambda>i s. Inr (set_vregisters vd i (g (get_vregisters s vn i)) s)) s);
          lanes64 = (\<lambda>g. for_lanes 2 (\<lambda>i s. Inr (set_vregisterd vd i (g (get_vregisterd s vn i)) s)) s)
      in if Q \<noteq> 1 then Inl (UnimplementedInstruction instr)
         else if U = 1 \<and> op = 5 then lanes64 (\<lambda>v. NOT v)
         else if U = 0 \<and> op = 0xf then
           if sz = 2 then lanes32 (f32_abs f)
           else if sz = 3 then lanes64 (f64_abs f)
           else Inl (UnimplementedInstruction instr)
         else if U = 1 \<and> op = 0xf then
           if sz = 2 then lanes32 (f32_neg f)
           else if sz = 3 then lanes64 (f64_neg f)
           else Inl (UnimplementedInstruction instr)
         else if U = 1 \<and> op = 0x1f then
           if sz = 2 then lanes32 (f32_sqrt f)
           else if sz = 3 then lanes64 (f64_sqrt f)
           else Inl (UnimplementedInstruction instr)
         else if U = 0 \<and> op = 0x1d then
           if sz \<noteq> 2 then Inl (UnimplementedInstruction instr) else lanes32 (arm_recip_estimate f)
         else if U = 1 \<and> op = 0x1d then
           if sz \<noteq> 2 then Inl (UnimplementedInstruction instr)
           else lanes32 (arm_reciprocal_sqrt_estimate f)
         else Inl (UnimplementedInstruction instr))"

definition DecodeDPSimd1 :: "fpu \<Rightarrow> i32 \<Rightarrow> sim \<Rightarrow> sim result" where
  "DecodeDPSimd1 f instr s =
     (if IsSIMDCopyOp instr then DecodeSIMDCopy instr s
      else if IsSIMDThreeSameOp instr then DecodeSIMDThreeSame f instr s
      else if IsSIMDTwoRegOp instr then DecodeSIMDTwoReg f instr s
      else Inl (UnimplementedInstruction instr))"

definition DecodeFPImm :: "i32 \<Rightarrow> sim \<Rightarrow> sim result" where
  "DecodeFPImm instr s =
     (if Bit instr 31 \<noteq> 0 \<or> Bit instr 29 \<noteq> 0 \<or> Bit instr 23 \<noteq> 0 \<or> Bits instr 5 5 \<noteq> 0
      then Inl (UnimplementedInstruction instr)
      else if Bit instr 22 = 1 then
        let vd = VdField instr;
            immd = VFPExpandImm (ucast (Imm8Field instr))
        in Inr (set_vregisterd vd 1 0 (set_vregisterd vd 0 immd s))
      else Inl (UnimplementedInstruction instr))"

definition DecodeFPIntCvt :: "fpu \<Rightarrow> i32 \<Rightarrow> sim \<Rightarrow> sim result" where
  "DecodeFPIntCvt f instr s =
     (let vd = VdField instr;
          vn = VnField instr;
          rd = RdField instr;
          rn = RnField instr
      in if Bit instr 29 \<noteq> 0 then Inl (UnimplementedInstruction instr)
         else if SFField instr = 0 \<and> Bits instr 22 2 = 0 then
           if Bits instr 16 5 = 6 then
             let vn_val = get_vregisters s vn 0
             in Inr (set_wregister rd vn_val R31IsZR s)
           else if Bits instr 16 5 = 7 then
             let rn_val = get_wregister s rn R31IsZR
             in Inr (set_vregisters vd 3 0 (set_vregisters vd 2 0 (set_vregisters vd 1 0
                      (set_vregisters vd 0 rn_val s))))
           else Inl (UnimplementedInstruction instr)
         else if Bits instr 22 2 = 1 then
           if Bits instr 16 5 = 2 then
             let rn_val64 = get_register s rn (RnMode instr);
                 rn_val32 = get_wregister s rn (RnMode instr);
                 vn_dbl = (if SFField instr = 1 then i64_to_f64 f rn_val64 else i32_to_f64 f rn_val32)
             in Inr (set_vregisterd vd 1 0 (set_vregisterd vd 0 vn_dbl s))
           else if Bits instr 16 5 = 6 then
             let vn_val = get_vregisterd s vn 0
             in set_register (Some instr) rd vn_val R31IsZR s
           else if Bits instr 16 5 = 7 then
             let rn_val = get_register s rn R31IsZR
             in Inr (set_vregisterd vd 1 0 (set_vregisterd vd 0 rn_val s))
           else if Bits instr 16 5 = 24 then
             let vn_val = get_vregisterd s vn 0
             in if f64_le f (i64_to_f64 f kMaxInt64) vn_val then
                  set_register (Some instr) rd kMaxInt64 (RdMode instr) s
                else if f64_le f vn_val (i64_to_f64 f kMinInt64) then
                  set_register (Some instr) rd kMinInt64 (RdMode instr) s
                else set_register (Some instr) rd (f64_to_i64 f vn_val) (RdMode instr) s
           else Inl (UnimplementedInstruction instr)
         else Inl (UnimplementedInstruction instr))"

definition DecodeFPOneSource :: "fpu \<Rightarrow> i32 \<Rightarrow> sim \<Rightarrow> sim result" where
  "DecodeFPOneSource f instr s =
     (let opc = Bits instr 15 6;
          vd = VdField instr;
          vn = VnField instr;
          vn_val = get_vregisterd s vn 0;
          vn_val32 = ucast (vn_val AND kWRegMask) :: i32
      in if opc \<noteq> 5 \<and> Bit instr 22 \<noteq> 1 then Inl (UnimplementedInstruction instr)
         else bindE (if opc = 0 then Inr (get_vregisterd s vn 0)
                     else if opc = 1 then Inr (f64_abs f vn_val)
                     else if opc = 2 then Inr (f64_neg f vn_val)
                     else if opc = 3 then Inr (f64_sqrt f vn_val)
                     else if opc = 4 then Inr (ucast (f64_to_f32 f vn_val))
                     else if opc = 5 then Inr (f32_to_f64 f vn_val32)
                     else Inl (UnimplementedInstruction instr)) (\<lambda>res_val.
                Inr (set_vregisterd vd 1 0 (set_vregisterd vd 0 res_val s))))"

definition DecodeFPTwoSource :: "fpu \<Rightarrow> i32 \<Rightarrow> sim \<Rightarrow> sim result" where
  "DecodeFPTwoSource f instr s =
     (if Bits instr 22 2 \<noteq> 1 then Inl (UnimplementedInstruction instr)
      else
        let vd = VdField instr;
            vn = VnField instr;
            vm = VmField instr;
            vn_val = get_vregisterd s vn 0;
            vm_val = get_vregisterd s vm 0;
            opc = Bits instr 12 4
        in bindE (if opc = 0 then Inr (f64_mul f vn_val vm_val)
                  else if opc = 1 then Inr (f64_div f vn_val vm_val)
                  else if opc = 2 then Inr (f64_add f vn_val vm_val)
                  else if opc = 3 then Inr (f64_sub f vn_val vm_val)
                  else Inl (UnimplementedInstruction instr)) (\<lambda>result.
             Inr (set_vregisterd vd 1 0 (set_vregisterd vd 0 result s))))"

definition DecodeFPCompare :: "fpu \<Rightarrow> i32 \<Rightarrow> sim \<Rightarrow> sim result" where
  "DecodeFPCompare f instr s =
     (let vn = VnField instr;
          vm = VmField instr;
          vn_val = get_vregisterd s vn 0
      in bindE (if Bit instr 22 = 1 \<and> Bits instr 3 2 = 0 then Inr (get_vregisterd s vm 0)
                else if Bit instr 22 = 1 \<and> Bits instr 3 2 = 1 then
                  if VmField instr = 0 then Inr 0 else Inl (UnimplementedInstruction instr)
                else Inl (UnimplementedInstruction instr)) (\<lambda>vm_val.
           let s = s\<lparr>n_flag := False, z_flag := False, c_flag := False, v_flag := False\<rparr>
           in Inr (if f64_isnan f vn_val \<or> f64_isnan f vm_val then s\<lparr>c_flag := True, v_flag := True\<rparr>
                   else if f64_eq f vn_val vm_val then s\<lparr>z_flag := True, c_flag := True\<rparr>
                   else if f64_lt f vn_val vm_val then s\<lparr>n_flag := True\<rparr>
                   else s\<lparr>c_flag := True\<rparr>)))"

definition DecodeFP :: "fpu \<Rightarrow> i32 \<Rightarrow> sim \<Rightarrow> sim result" where
  "DecodeFP f instr s =
     (if IsFPImmOp instr then DecodeFPImm instr s
      else if IsFPIntCvtOp instr then DecodeFPIntCvt f instr s
      else if IsFPOneSourceOp instr then DecodeFPOneSource f instr s
      else if IsFPTwoSourceOp instr then DecodeFPTwoSource f instr s
      else if IsFPCompareOp instr then DecodeFPCompare f instr s
      else Inl (UnimplementedInstruction instr))"

definition DecodeDPSimd2 :: "fpu \<Rightarrow> i32 \<Rightarrow> sim \<Rightarrow> sim result" where
  "DecodeDPSimd2 f instr s =
     (if IsFPOp instr then DecodeFP f instr s else Inl (UnimplementedInstruction instr))"

end
