(* ===== verification/Arm64_Simulator.thy ===== *)
theory Arm64_Simulator
  imports Arm64_FP
begin

text \<open>
  The main loop of the simulator: \<open>InstructionDecode\<close>, \<open>Execute\<close> and \<open>Call\<close> of
  \<^verbatim>\<open>runtime/vm/simulator_arm64.cc\<close>. Printing of the trace is left out. \<open>Execute\<close> runs until the
  program counter is \<open>kEndSimulatingPC\<close>, which code may never reach: it is a partial function
  whose value is \<^const>\<open>None\<close> on a run that does not end.
\<close>

text \<open>The chain of operation classes in \<open>InstructionDecode\<close>.\<close>

definition InstructionDecode_dispatch :: "host \<Rightarrow> i32 \<Rightarrow> sim \<Rightarrow> sim result" where
  "InstructionDecode_dispatch h instr s =
     (if IsDPImmediateOp instr then DecodeDPImmediate instr s
      else if IsCompareBranchOp instr then DecodeCompareBranch h instr s
      else if IsLoadStoreOp instr then DecodeLoadStore instr s
      else if IsDPRegisterOp instr then DecodeDPRegister instr s
      else if IsDPSimd1Op instr then DecodeDPSimd1 (fp h) instr s
      else if IsDPSimd2Op instr then DecodeDPSimd2 (fp h) instr s
      else Inl (UnimplementedInstruction instr))"

definition InstructionDecode :: "host \<Rightarrow> uword \<Rightarrow> sim \<Rightarrow> sim result" where
  "InstructionDecode h addr s =
     (let s = s\<lparr>pc_modified := False\<rparr>;
          instr = load_bytes 4 (mem s) addr :: i32
      in bindE (InstructionDecode_dispatch h instr s) (\<lambda>s.
           if \<not> pc_modified s then Inr (set_pc (addr + kInstrSize) s) else Inr s))"

text \<open>One iteration of the loops of \<open>Execute\<close>, of the fast one and of the one that checks \<open>stop_sim_at\<close>.\<close>

definition Execute_iteration :: "host \<Rightarrow> sim \<Rightarrow> sim result" where
  "Execute_iteration h s =
     (let program_counter = pc s;
          s = s\<lparr>icount := icount s + 1\<rparr>
      in if stop_sim_at h \<noteq> 0xffffffffffffffff \<and>
            (icount s = stop_sim_at h \<or> program_counter = stop_sim_at h)
         then Inl (StopSimulation (load_bytes 4 (mem s) program_counter))
         else if IsIllegalAddress program_counter then Inl (HandleIllegalAccess program_counter)
         else InstructionDecode h program_counter s)"

partial_function (option) Execute :: "host \<Rightarrow> sim \<Rightarrow> sim result option" where
  "Execute h s =
     (if pc s = kEndSimulatingPC then Some (Inr s)
      else case Execute_iteration h s of
             Inl e \<Rightarrow> Some (Inl e)
           | Inr s \<Rightarrow> Execute h s)"

declare Execute.simps [code]

definition kAbiPreservedCpuRegs :: "Register list" where "kAbiPreservedCpuRegs = [19..<29]"
definition kAbiPreservedFpuRegs :: "VRegister list" where "kAbiPreservedFpuRegs = [8..<16]"

text \<open>The state in which \<open>Call\<close> starts the simulation, and the restoration after it.\<close>

definition Call_setup :: "host \<Rightarrow> uword \<Rightarrow> i64 \<Rightarrow> i64 list \<Rightarrow> bool \<Rightarrow> sim \<Rightarrow> sim" where
  "Call_setup h frame_alignment entry parameters fp_args s =
     (let sp_before_call = get_register s R31 R31IsSP;
          s = (if fp_args
               then fold (\<lambda>i s. set_vregisterd i 1 0 (set_vregisterd i 0 (parameters ! i) s)) [0..<4] s
               else fold (\<lambda>i s. set_registers [i] (parameters ! i) s) [0..<4] s);
          stack_pointer = (if 1 < frame_alignment then RoundDown sp_before_call frame_alignment
                           else sp_before_call);
          s = set_registers [R31] stack_pointer s;
          s = set_pc entry s;
          s = set_registers [LR] kEndSimulatingPC s;
          callee_saved_value = u64_to_f64 (fp h) (icount s);
          s = set_registers kAbiPreservedCpuRegs callee_saved_value s
      in fold (\<lambda>r s. set_vregisterd r 1 0 (set_vregisterd r 0 callee_saved_value s)) kAbiPreservedFpuRegs s)"

definition Call_restore :: "sim \<Rightarrow> sim \<Rightarrow> sim" where
  "Call_restore before s =
     (let s = fold (\<lambda>r s. set_registers [r] (get_register before r R31IsSP) s) kAbiPreservedCpuRegs s;
          s = fold (\<lambda>r s. set_vregisterd r 1 0 (set_vregisterd r 0 (get_vregisterd before r 0) s))
                   kAbiPreservedFpuRegs s
      in set_registers [R31] (get_register before R31 R31IsSP) s)"

definition Call :: "host \<Rightarrow> uword \<Rightarrow> i64 \<Rightarrow> i64 list \<Rightarrow> bool \<Rightarrow> bool \<Rightarrow> sim \<Rightarrow> (i64 \<times> sim) result option" where
  "Call h frame_alignment entry parameters fp_return fp_args s =
     (case Execute h (Call_setup h frame_alignment entry parameters fp_args s) of
        None \<Rightarrow> None
      | Some (Inl e) \<Rightarrow> Some (Inl e)
      | Some (Inr s') \<Rightarrow>
          let s' = Call_restore s s'
          in Some (Inr (if fp_return then get_vregisterd s' 0 0 else get_register s' 0 R31IsSP, s')))"

end
