(* ===== verification/Arm64_Assembler.thy ===== *)
theory Arm64_Assembler
  imports Utils Arm64_Instr
begin

text \<open>
  The instruction encoders of the ARM64 assembler: \<open>Operand\<close>, \<open>Address\<close> and the \<open>Emit\<close> functions of
  \<^verbatim>\<open>runtime/vm/compiler/assembler/assembler_arm64.h\<close>, \<open>Operand::IsImmLogical\<close> and the macro
  instructions with an immediate of \<^verbatim>\<open>assembler_arm64.cc\<close>.

  An emitter returns the instructions it appends to the code buffer, in order. An \<open>Immediate\<close> is its
  value. Overloaded constructors and methods have a suffix naming the argument that
  distinguishes them.
\<close>

definition Rd :: "Register \<Rightarrow> u32" where "Rd rd = push_bit 0 (of_nat (ConcreteRegister rd))"
definition Rm :: "Register \<Rightarrow> u32" where "Rm rm = push_bit 16 (of_nat (ConcreteRegister rm))"
definition Rn :: "Register \<Rightarrow> u32" where "Rn rn = push_bit 5 (of_nat (ConcreteRegister rn))"
definition Ra :: "Register \<Rightarrow> u32" where "Ra ra = push_bit 10 (of_nat (ConcreteRegister ra))"
definition Rs :: "Register \<Rightarrow> u32" where "Rs rs = push_bit 16 (of_nat (ConcreteRegister rs))"
definition Rt :: "Register \<Rightarrow> u32" where "Rt rt = push_bit 0 (of_nat (ConcreteRegister rt))"
definition Rt2 :: "Register \<Rightarrow> u32" where "Rt2 rt2 = push_bit 10 (of_nat (ConcreteRegister rt2))"

section \<open>Addresses\<close>

datatype AddressType =
  Offset | PreIndex | PostIndex | PairOffset | PairPreIndex | PairPostIndex | Reg | PCOffset | Unknown

datatype Scaling = Unscaled | Scaled

text \<open>A base of \<open>kNoRegister\<close> is \<^const>\<open>None\<close>.\<close>

record Address =
  addr_encoding :: u32
  addr_type :: AddressType
  addr_base :: "Register option"

definition CanHoldOffset :: "i32 \<Rightarrow> AddressType \<Rightarrow> OperandSize \<Rightarrow> bool" where
  "CanHoldOffset offset at sz =
     (let scale = Log2OperandSizeBytes sz
      in if at = Offset then
           (IsUint (12 + scale) offset \<and> offset = push_bit scale (signed_drop_bit scale offset))
           \<or> IsInt 9 offset
         else if at = PCOffset then IsInt 21 offset \<and> offset = push_bit 2 (signed_drop_bit 2 offset)
         else if at = PreIndex \<or> at = PostIndex then IsInt 9 offset
         else IsInt (7 + scale) offset \<and> offset = push_bit scale (signed_drop_bit scale offset))"

text \<open>\<^const>\<open>None\<close> is the \<open>UNREACHABLE\<close> of an addressing mode that is not a pair.\<close>

definition Address_imm :: "Register \<Rightarrow> i32 \<Rightarrow> AddressType \<Rightarrow> OperandSize \<Rightarrow> Address option" where
  "Address_imm rn offset at sz =
     (let scale = Log2OperandSizeBytes sz;
          addr = (\<lambda>e. Some \<lparr>addr_encoding = e, addr_type = at, addr_base = Some (ConcreteRegister rn)\<rparr>)
      in if at = Offset \<and> IsUint (12 + scale) offset \<and>
            offset = push_bit scale (signed_drop_bit scale offset) then
           addr (B24 OR push_bit 10 (signed_drop_bit scale offset) OR Rn rn)
         else if at = Offset \<and> IsInt 9 offset then
           addr (push_bit 12 (offset AND 0x1ff) OR Rn rn)
         else if at = PreIndex \<or> at = PostIndex then
           let idx = (if at = PostIndex then B10 else B11 OR B10)
           in addr (idx OR push_bit 12 (offset AND 0x1ff) OR Rn rn)
         else
           let pair = (\<lambda>idx. addr (idx OR (push_bit 15 (signed_drop_bit scale offset) AND push_bit 15 0x7f)
                                   OR Rn rn))
           in case at of
                PairPostIndex \<Rightarrow> pair B23
              | PairPreIndex \<Rightarrow> pair (B24 OR B23)
              | PairOffset \<Rightarrow> pair B24
              | _ \<Rightarrow> None)"

definition Address_PC :: "i32 \<Rightarrow> Address" where
  "Address_PC pc_off =
     \<lparr>addr_encoding = push_bit 5 (signed_drop_bit 2 pc_off) AND push_bit 5 0x7ffff,
      addr_type = PCOffset, addr_base = None\<rparr>"

definition Address_reg :: "Register \<Rightarrow> Register \<Rightarrow> Extend \<Rightarrow> Scaling \<Rightarrow> Address" where
  "Address_reg rn rm ext scale =
     (let s = (if scale = Scaled then B12 else 0)
      in \<lparr>addr_encoding = B21 OR B11 OR s OR Rn rn OR Rm rm OR push_bit 13 (Extend_val ext),
          addr_type = Reg, addr_base = Some (ConcreteRegister rn)\<rparr>)"

section \<open>Operands\<close>

datatype OperandType = Shifted | Extended | Immediate | BitfieldImm | UnknownOperand

record Operand =
  encoding :: u32
  operand_type :: OperandType

definition Operand_reg :: "Register \<Rightarrow> Operand" where
  "Operand_reg rm = \<lparr>encoding = Rm rm, operand_type = Shifted\<rparr>"

definition Operand_shift :: "Register \<Rightarrow> Shift \<Rightarrow> i32 \<Rightarrow> Operand" where
  "Operand_shift rm shift imm =
     \<lparr>encoding = push_bit 10 imm OR Rm rm OR push_bit 22 (Shift_val shift), operand_type = Shifted\<rparr>"

definition Operand_extend :: "Register \<Rightarrow> Extend \<Rightarrow> i32 \<Rightarrow> Operand" where
  "Operand_extend rm ext imm =
     \<lparr>encoding = B21 OR Rm rm OR push_bit 13 (Extend_val ext) OR push_bit 10 (imm AND 0x7),
      operand_type = Extended\<rparr>"

definition Operand_imm :: "i32 \<Rightarrow> Operand" where
  "Operand_imm imm =
     (if IsUint 12 imm then \<lparr>encoding = push_bit 10 imm, operand_type = Immediate\<rparr>
      else \<lparr>encoding = B22 OR push_bit 10 (signed_drop_bit 12 imm), operand_type = Immediate\<rparr>)"

definition Operand_bitfield :: "u8 \<Rightarrow> u8 \<Rightarrow> u8 \<Rightarrow> Operand" where
  "Operand_bitfield n imm_s imm_r =
     \<lparr>encoding = push_bit 22 (ucast n) OR push_bit 10 (scast imm_s) OR push_bit 16 (scast imm_r),
      operand_type = BitfieldImm\<rparr>"

text \<open>The file-local bit counting functions; \<open>count\<close> is an \<open>int\<close>.\<close>

function CountLeadingZeros_loop :: "u64 \<Rightarrow> int \<Rightarrow> int" where
  "CountLeadingZeros_loop v count =
     (let count = count + 1;
          v = drop_bit 1 v
      in if v \<noteq> 0 then CountLeadingZeros_loop v count else count)"
  by pat_completeness auto
termination
proof (relation "measure (\<lambda>(v, _). unat v)")
  fix v v' :: u64 and count count' :: int
  assume "v' = drop_bit 1 v" "v' \<noteq> 0"
  moreover have "unat (drop_bit 1 v) = unat v div 2"
    unfolding unat_drop_bit_eq by (simp add: drop_bit_eq_div)
  moreover have "v \<noteq> 0" using \<open>v' \<noteq> 0\<close> \<open>v' = drop_bit 1 v\<close> by auto
  ultimately show "((v', count'), (v, count)) \<in> measure (\<lambda>(v, _). unat v)"
    by (simp add: unat_gt_0)
qed simp

declare CountLeadingZeros_loop.simps [simp del]

definition CountLeadingZeros_width :: "u64 \<Rightarrow> int \<Rightarrow> int" where
  "CountLeadingZeros_width v width =
     (if v = 0 then width else width - CountLeadingZeros_loop v 0)"

definition CountOneBits_width :: "u64 \<Rightarrow> nat \<Rightarrow> u64" where
  "CountOneBits_width v width =
     (let v = v AND drop_bit (64 - width) 0xffffffffffffffff;
          v = (drop_bit 1 v AND 0x5555555555555555) + (v AND 0x5555555555555555);
          v = (drop_bit 2 v AND 0x3333333333333333) + (v AND 0x3333333333333333);
          v = (drop_bit 4 v AND 0x0f0f0f0f0f0f0f0f) + (v AND 0x0f0f0f0f0f0f0f0f);
          v = (drop_bit 8 v AND 0x00ff00ff00ff00ff) + (v AND 0x00ff00ff00ff00ff);
          v = (drop_bit 16 v AND 0x0000ffff0000ffff) + (v AND 0x0000ffff0000ffff)
      in (drop_bit 32 v AND 0x00000000ffffffff) + (v AND 0x00000000ffffffff))"

text \<open>
  The loop of \<open>IsImmLogical\<close>. The width halves in each round and the round at width 2 returns, so
  that a width which is a power of two is enough for it to end; the last case is never reached.
\<close>

function IsImmLogical_loop ::
    "u64 \<Rightarrow> nat \<Rightarrow> int \<Rightarrow> int \<Rightarrow> int \<Rightarrow> int \<Rightarrow> int \<Rightarrow> int \<Rightarrow> Operand option" where
  "IsImmLogical_loop v width lead_zero lead_one trail_zero trail_one set_bits imm_s_fixed =
     (if width = 2 then Some (Operand_bitfield 0 0x3C (ucast ((v AND 3) - 1)))
      else
        let n = (if width = 64 then 1 else 0);
            imm_s = word_of_int ((imm_s_fixed OR (set_bits - 1)) AND 0x3F) :: u8;
            imm_r = (if lead_zero + set_bits = int width then 0
                     else word_of_int (if 0 < lead_zero then int width - trail_zero else lead_one)) :: u8
        in if lead_zero + trail_zero + set_bits = int width then Some (Operand_bitfield n imm_s imm_r)
           else if lead_one + trail_one + (int width - set_bits) = int width
             then Some (Operand_bitfield n imm_s imm_r)
           else
             let m = push_bit (width div 2) 1 - 1
             in if 2 < width \<and> v AND m = drop_bit (width div 2) v AND m
                then IsImmLogical_loop v (width div 2) lead_zero lead_one trail_zero trail_one
                       (set_bits div 2) (imm_s_fixed div 2)
                else None)"
  by pat_completeness auto
termination by (relation "measure (\<lambda>(v, width, _). width)") auto

declare IsImmLogical_loop.simps [simp del]

definition IsImmLogical :: "u64 \<Rightarrow> nat \<Rightarrow> Operand option" where
  "IsImmLogical v width =
     (if v = 0 \<or> v = 0xffffffffffffffff \<or> (width = 32 \<and> v = 0xffffffff) then None
      else
        let lead_zero = CountLeadingZeros_width v (int width);
            lead_one = CountLeadingZeros_width (NOT v) (int width);
            trail_zero = int (CountTrailingZeros v);
            trail_one = int (CountTrailingZeros (NOT v));
            set_bits = uint (CountOneBits_width v width);
            imm_s_fixed = (if width = 64 then - 128 else - 64)
        in IsImmLogical_loop v width lead_zero lead_one trail_zero trail_one set_bits imm_s_fixed)"

text \<open>\<open>CanHold\<close> returns the operand it writes; its type is the value the code returns.\<close>

definition CanHold :: "i64 \<Rightarrow> nat \<Rightarrow> Operand" where
  "CanHold imm sz =
     (if IsUint 12 imm then \<lparr>encoding = ucast (push_bit 10 imm), operand_type = Immediate\<rparr>
      else if imm AND 0xfff = 0 \<and> IsUint 12 (signed_drop_bit 12 imm) then
        \<lparr>encoding = ucast (ucast B22 OR push_bit 10 (signed_drop_bit 12 imm)), operand_type = Immediate\<rparr>
      else case IsImmLogical imm sz of
             Some oper \<Rightarrow> oper\<lparr>operand_type := BitfieldImm\<rparr>
           | None \<Rightarrow> \<lparr>encoding = 0, operand_type = UnknownOperand\<rparr>)"

section \<open>Encoders\<close>

definition size_bit :: "OperandSize \<Rightarrow> i32" where
  "size_bit sz = (if sz = kDoubleWord then B31 else 0)"

definition EmitAddSubImmOp ::
    "AddSubImmOp \<Rightarrow> Register \<Rightarrow> Register \<Rightarrow> Operand \<Rightarrow> OperandSize \<Rightarrow> bool \<Rightarrow> i32 list" where
  "EmitAddSubImmOp op rd rn oper sz set_flags =
     [AddSubImmOp_bits op OR size_bit sz OR (if set_flags then B29 else 0) OR Rd rd OR Rn rn
      OR encoding oper]"

definition EmitBitfieldOp ::
    "BitfieldOp \<Rightarrow> Register \<Rightarrow> Register \<Rightarrow> i32 \<Rightarrow> i32 \<Rightarrow> OperandSize \<Rightarrow> i32 list" where
  "EmitBitfieldOp op rd rn r_imm s_imm sz =
     [BitfieldOp_bits op OR (if sz = kDoubleWord then Bitfield64 else 0)
      OR encoding (Operand_bitfield 0 (ucast s_imm) (ucast r_imm)) OR Rd rd OR Rn rn]"

definition EmitLogicalImmOp ::
    "LogicalImmOp \<Rightarrow> Register \<Rightarrow> Register \<Rightarrow> Operand \<Rightarrow> OperandSize \<Rightarrow> i32 list" where
  "EmitLogicalImmOp op rd rn oper sz =
     [LogicalImmOp_bits op OR size_bit sz OR Rd rd OR Rn rn OR encoding oper]"

definition EmitLogicalShiftOp ::
    "LogicalShiftOp \<Rightarrow> Register \<Rightarrow> Register \<Rightarrow> Operand \<Rightarrow> OperandSize \<Rightarrow> i32 list" where
  "EmitLogicalShiftOp op rd rn oper sz =
     [LogicalShiftOp_bits op OR size_bit sz OR Rd rd OR Rn rn OR encoding oper]"

definition EmitAddSubShiftExtOp ::
    "AddSubShiftExtOp \<Rightarrow> Register \<Rightarrow> Register \<Rightarrow> Operand \<Rightarrow> OperandSize \<Rightarrow> bool \<Rightarrow> i32 list" where
  "EmitAddSubShiftExtOp op rd rn oper sz set_flags =
     [AddSubShiftExtOp_bits op OR size_bit sz OR (if set_flags then B29 else 0) OR Rd rd OR Rn rn
      OR encoding oper]"

definition AddSubHelper ::
    "OperandSize \<Rightarrow> bool \<Rightarrow> bool \<Rightarrow> Register \<Rightarrow> Register \<Rightarrow> Operand \<Rightarrow> i32 list" where
  "AddSubHelper os set_flags subtract rd rn oper =
     (let crd = ConcreteRegister rd;
          crn = ConcreteRegister rn
      in if operand_type oper = Immediate then
           EmitAddSubImmOp (if subtract then SUBI else ADDI) crd crn oper os set_flags
         else EmitAddSubShiftExtOp (if subtract then SUB else ADD) crd crn oper os set_flags)"

definition AddSubWithCarryHelper ::
    "OperandSize \<Rightarrow> bool \<Rightarrow> bool \<Rightarrow> Register \<Rightarrow> Register \<Rightarrow> Register \<Rightarrow> i32 list" where
  "AddSubWithCarryHelper sz set_flags subtract rd rn rm =
     [AddSubWithCarryOp_bits (if subtract then SBC else ADC) OR size_bit sz
      OR (if set_flags then B29 else 0) OR Rd rd OR Rn rn OR Rm rm]"

definition EmitUnconditionalBranchOp :: "UnconditionalBranchOp \<Rightarrow> i64 \<Rightarrow> i32 list" where
  "EmitUnconditionalBranchOp op offset =
     [UnconditionalBranchOp_bits op OR ucast (signed_drop_bit 2 offset AND 0x03ffffff)]"

definition EmitUnconditionalBranchRegOp :: "UnconditionalBranchRegOp \<Rightarrow> Register \<Rightarrow> i32 list" where
  "EmitUnconditionalBranchRegOp op rn = [UnconditionalBranchRegOp_bits op OR Rn rn]"

definition ExceptionGenOpEncoding :: "ExceptionGenOp \<Rightarrow> u16 \<Rightarrow> i32" where
  "ExceptionGenOpEncoding op imm = ExceptionGenOp_bits op OR push_bit 5 (ucast imm)"

definition EmitMoveWideOp :: "MoveWideOp \<Rightarrow> Register \<Rightarrow> i64 \<Rightarrow> nat \<Rightarrow> OperandSize \<Rightarrow> i32 list" where
  "EmitMoveWideOp op rd imm hw_idx sz =
     [MoveWideOp_bits op OR size_bit sz OR Rd rd OR push_bit 21 (of_nat hw_idx)
      OR push_bit 5 (ucast (imm AND 0xffff))]"

definition EmitLoadStoreExclusive ::
    "LoadStoreExclusiveOp \<Rightarrow> Register \<Rightarrow> Register \<Rightarrow> Register \<Rightarrow> OperandSize \<Rightarrow> i32 list" where
  "EmitLoadStoreExclusive op rs rn rt sz =
     [LoadStoreExclusiveOp_bits op OR (B31 OR (if sz = kDoubleWord then B30 else 0)) OR Rs rs OR Rt2 R31
      OR Rn rn OR Rt rt]"

definition EmitLoadStoreReg :: "LoadStoreRegOp \<Rightarrow> Register \<Rightarrow> Address \<Rightarrow> OperandSize \<Rightarrow> i32 list" where
  "EmitLoadStoreReg op rt a sz =
     [LoadStoreRegOp_bits op OR push_bit 30 (of_nat (Log2OperandSizeBytes sz) AND 0x3) OR Rt rt
      OR addr_encoding a]"

definition EmitLoadRegLiteral :: "LoadRegLiteralOp \<Rightarrow> Register \<Rightarrow> Address \<Rightarrow> OperandSize \<Rightarrow> i32 list" where
  "EmitLoadRegLiteral op rt a sz =
     [LoadRegLiteralOp_bits op OR (if sz = kDoubleWord then B30 else 0) OR Rt rt OR addr_encoding a]"

definition EmitLoadStoreRegPair ::
    "LoadStoreRegPairOp \<Rightarrow> Register \<Rightarrow> Register \<Rightarrow> Address \<Rightarrow> OperandSize \<Rightarrow> i32 list option" where
  "EmitLoadStoreRegPair op rt rt2 a sz =
     (let code = (\<lambda>opc. Some [opc OR LoadStoreRegPairOp_bits op OR Rt rt OR Rt2 rt2 OR addr_encoding a])
      in case sz of
           kDoubleWord \<Rightarrow> code B31
         | kWord \<Rightarrow> code B30
         | kUnsignedWord \<Rightarrow> code 0
         | _ \<Rightarrow> None)"

definition EmitPCRelOp :: "PCRelOp \<Rightarrow> Register \<Rightarrow> i64 \<Rightarrow> i32 list" where
  "EmitPCRelOp op rd imm =
     [PCRelOp_bits op OR ucast (push_bit 29 (imm AND 0x3))
      OR ucast (push_bit 5 (signed_drop_bit 2 imm) AND push_bit 5 0x7ffff) OR Rd rd]"

definition EmitMiscDP1Source :: "MiscDP1SourceOp \<Rightarrow> Register \<Rightarrow> Register \<Rightarrow> OperandSize \<Rightarrow> i32 list" where
  "EmitMiscDP1Source op rd rn sz = [MiscDP1SourceOp_bits op OR size_bit sz OR Rd rd OR Rn rn]"

definition EmitMiscDP2Source ::
    "MiscDP2SourceOp \<Rightarrow> Register \<Rightarrow> Register \<Rightarrow> Register \<Rightarrow> OperandSize \<Rightarrow> i32 list" where
  "EmitMiscDP2Source op rd rn rm sz =
     [MiscDP2SourceOp_bits op OR size_bit sz OR Rd rd OR Rn rn OR Rm rm]"

definition EmitMiscDP3Source ::
    "MiscDP3SourceOp \<Rightarrow> Register \<Rightarrow> Register \<Rightarrow> Register \<Rightarrow> Register \<Rightarrow> OperandSize \<Rightarrow> i32 list" where
  "EmitMiscDP3Source op rd rn rm ra sz =
     [MiscDP3SourceOp_bits op OR size_bit sz OR Rd rd OR Rn rn OR Rm rm OR Ra ra]"

definition EmitConditionalSelect ::
    "ConditionalSelectOp \<Rightarrow> Register \<Rightarrow> Register \<Rightarrow> Register \<Rightarrow> Condition \<Rightarrow> OperandSize \<Rightarrow> i32 list" where
  "EmitConditionalSelect op rd rn rm cond sz =
     [ConditionalSelectOp_bits op OR size_bit sz OR Rd rd OR Rn rn OR Rm rm
      OR push_bit 12 (Condition_val cond)]"

definition EmitFPImm :: "FPImmOp \<Rightarrow> VRegister \<Rightarrow> u8 \<Rightarrow> i32 list" where
  "EmitFPImm op vd imm8 = [FPImmOp_bits op OR of_nat vd OR push_bit 13 (ucast imm8)]"

definition EmitFPIntCvtOp :: "FPIntCvtOp \<Rightarrow> Register \<Rightarrow> Register \<Rightarrow> OperandSize \<Rightarrow> i32 list" where
  "EmitFPIntCvtOp op rd rn sz = [FPIntCvtOp_bits op OR Rd rd OR Rn rn OR size_bit sz]"

definition EmitFPOneSourceOp :: "FPOneSourceOp \<Rightarrow> VRegister \<Rightarrow> VRegister \<Rightarrow> i32 list" where
  "EmitFPOneSourceOp op vd vn = [FPOneSourceOp_bits op OR of_nat vd OR push_bit 5 (of_nat vn)]"

definition EmitFPTwoSourceOp :: "FPTwoSourceOp \<Rightarrow> VRegister \<Rightarrow> VRegister \<Rightarrow> VRegister \<Rightarrow> i32 list" where
  "EmitFPTwoSourceOp op vd vn vm =
     [FPTwoSourceOp_bits op OR of_nat vd OR push_bit 5 (of_nat vn) OR push_bit 16 (of_nat vm)]"

definition EmitFPCompareOp :: "FPCompareOp \<Rightarrow> VRegister \<Rightarrow> VRegister \<Rightarrow> i32 list" where
  "EmitFPCompareOp op vn vm =
     [FPCompareOp_bits op OR push_bit 5 (of_nat vn) OR push_bit 16 (of_nat vm)]"

definition EmitSIMDThreeSameOp :: "SIMDThreeSameOp \<Rightarrow> VRegister \<Rightarrow> VRegister \<Rightarrow> VRegister \<Rightarrow> i32 list" where
  "EmitSIMDThreeSameOp op vd vn vm =
     [SIMDThreeSameOp_bits op OR of_nat vd OR push_bit 5 (of_nat vn) OR push_bit 16 (of_nat vm)]"

definition EmitSIMDCopyOp ::
    "SIMDCopyOp \<Rightarrow> VRegister \<Rightarrow> VRegister \<Rightarrow> OperandSize \<Rightarrow> i32 \<Rightarrow> i32 \<Rightarrow> i32 list" where
  "EmitSIMDCopyOp op vd vn sz idx4 idx5 =
     (let shift = Log2OperandSizeBytes sz;
          imm5 = (push_bit (shift + 1) idx5 OR push_bit shift 1) AND 0x1f;
          imm4 = push_bit shift idx4 AND 0xf
      in [SIMDCopyOp_bits op OR push_bit 16 imm5 OR push_bit 11 imm4 OR of_nat vd
          OR push_bit 5 (of_nat vn)])"

definition EmitSIMDTwoRegOp :: "SIMDTwoRegOp \<Rightarrow> VRegister \<Rightarrow> VRegister \<Rightarrow> i32 list" where
  "EmitSIMDTwoRegOp op vd vn = [SIMDTwoRegOp_bits op OR of_nat vd OR push_bit 5 (of_nat vn)]"

section \<open>Instructions\<close>

definition add :: "Register \<Rightarrow> Register \<Rightarrow> Operand \<Rightarrow> i32 list" where
  "add rd rn oper = AddSubHelper kDoubleWord False False rd rn oper"
definition adds :: "Register \<Rightarrow> Register \<Rightarrow> Operand \<Rightarrow> i32 list" where
  "adds rd rn oper = AddSubHelper kDoubleWord True False rd rn oper"
definition addw :: "Register \<Rightarrow> Register \<Rightarrow> Operand \<Rightarrow> i32 list" where
  "addw rd rn oper = AddSubHelper kWord False False rd rn oper"
definition addsw :: "Register \<Rightarrow> Register \<Rightarrow> Operand \<Rightarrow> i32 list" where
  "addsw rd rn oper = AddSubHelper kWord True False rd rn oper"
definition sub :: "Register \<Rightarrow> Register \<Rightarrow> Operand \<Rightarrow> i32 list" where
  "sub rd rn oper = AddSubHelper kDoubleWord False True rd rn oper"
definition subs :: "Register \<Rightarrow> Register \<Rightarrow> Operand \<Rightarrow> i32 list" where
  "subs rd rn oper = AddSubHelper kDoubleWord True True rd rn oper"
definition subw :: "Register \<Rightarrow> Register \<Rightarrow> Operand \<Rightarrow> i32 list" where
  "subw rd rn oper = AddSubHelper kWord False True rd rn oper"
definition subsw :: "Register \<Rightarrow> Register \<Rightarrow> Operand \<Rightarrow> i32 list" where
  "subsw rd rn oper = AddSubHelper kWord True True rd rn oper"
definition adc :: "Register \<Rightarrow> Register \<Rightarrow> Register \<Rightarrow> i32 list" where
  "adc rd rn rm = AddSubWithCarryHelper kDoubleWord False False rd rn rm"
definition adcs :: "Register \<Rightarrow> Register \<Rightarrow> Register \<Rightarrow> i32 list" where
  "adcs rd rn rm = AddSubWithCarryHelper kDoubleWord True False rd rn rm"
definition sbc :: "Register \<Rightarrow> Register \<Rightarrow> Register \<Rightarrow> i32 list" where
  "sbc rd rn rm = AddSubWithCarryHelper kDoubleWord False True rd rn rm"
definition sbcs :: "Register \<Rightarrow> Register \<Rightarrow> Register \<Rightarrow> i32 list" where
  "sbcs rd rn rm = AddSubWithCarryHelper kDoubleWord True True rd rn rm"
definition adr :: "Register \<Rightarrow> i64 \<Rightarrow> i32 list" where
  "adr rd imm = EmitPCRelOp ADR rd imm"
definition ubfx :: "Register \<Rightarrow> Register \<Rightarrow> i32 \<Rightarrow> i32 \<Rightarrow> OperandSize \<Rightarrow> i32 list" where
  "ubfx rd rn low_bit width sz = EmitBitfieldOp UBFM rd rn low_bit (low_bit + width - 1) sz"
definition sbfx :: "Register \<Rightarrow> Register \<Rightarrow> i32 \<Rightarrow> i32 \<Rightarrow> OperandSize \<Rightarrow> i32 list" where
  "sbfx rd rn low_bit width sz = EmitBitfieldOp SBFM rd rn low_bit (low_bit + width - 1) sz"
definition sxtw :: "Register \<Rightarrow> Register \<Rightarrow> i32 list" where
  "sxtw rd rn = EmitBitfieldOp SBFM rd rn 0 31 kDoubleWord"
definition uxtw :: "Register \<Rightarrow> Register \<Rightarrow> i32 list" where
  "uxtw rd rn = EmitBitfieldOp UBFM rd rn 0 31 kDoubleWord"

text \<open>
  The logical instructions with an immediate; the code asserts that the immediate can be
  encoded, and \<^const>\<open>None\<close> stands for the failed assertion.
\<close>

definition logical_imm :: "LogicalImmOp \<Rightarrow> Register \<Rightarrow> Register \<Rightarrow> i64 \<Rightarrow> i32 list option" where
  "logical_imm op rd rn imm =
     (case IsImmLogical imm 64 of
        Some imm_op \<Rightarrow> Some (EmitLogicalImmOp op rd rn imm_op kDoubleWord)
      | None \<Rightarrow> None)"
definition andi :: "Register \<Rightarrow> Register \<Rightarrow> i64 \<Rightarrow> i32 list option" where
  "andi rd rn imm = logical_imm ANDI rd rn imm"
definition orri :: "Register \<Rightarrow> Register \<Rightarrow> i64 \<Rightarrow> i32 list option" where
  "orri rd rn imm = logical_imm ORRI rd rn imm"
definition eori :: "Register \<Rightarrow> Register \<Rightarrow> i64 \<Rightarrow> i32 list option" where
  "eori rd rn imm = logical_imm EORI rd rn imm"
definition andis :: "Register \<Rightarrow> Register \<Rightarrow> i64 \<Rightarrow> i32 list option" where
  "andis rd rn imm = logical_imm ANDIS rd rn imm"

definition and_reg :: "Register \<Rightarrow> Register \<Rightarrow> Operand \<Rightarrow> i32 list" where
  "and_reg rd rn oper = EmitLogicalShiftOp AND_op rd rn oper kDoubleWord"
definition orr :: "Register \<Rightarrow> Register \<Rightarrow> Operand \<Rightarrow> i32 list" where
  "orr rd rn oper = EmitLogicalShiftOp ORR rd rn oper kDoubleWord"
definition orn :: "Register \<Rightarrow> Register \<Rightarrow> Operand \<Rightarrow> i32 list" where
  "orn rd rn oper = EmitLogicalShiftOp ORN rd rn oper kDoubleWord"
definition eor :: "Register \<Rightarrow> Register \<Rightarrow> Operand \<Rightarrow> i32 list" where
  "eor rd rn oper = EmitLogicalShiftOp EOR rd rn oper kDoubleWord"
definition ands :: "Register \<Rightarrow> Register \<Rightarrow> Operand \<Rightarrow> i32 list" where
  "ands rd rn oper = EmitLogicalShiftOp ANDS rd rn oper kDoubleWord"
definition clz :: "Register \<Rightarrow> Register \<Rightarrow> i32 list" where
  "clz rd rn = EmitMiscDP1Source CLZ rd rn kDoubleWord"
definition udiv :: "Register \<Rightarrow> Register \<Rightarrow> Register \<Rightarrow> i32 list" where
  "udiv rd rn rm = EmitMiscDP2Source UDIV rd rn rm kDoubleWord"
definition sdiv_ins :: "Register \<Rightarrow> Register \<Rightarrow> Register \<Rightarrow> i32 list" where
  "sdiv_ins rd rn rm = EmitMiscDP2Source SDIV rd rn rm kDoubleWord"
definition lslv :: "Register \<Rightarrow> Register \<Rightarrow> Register \<Rightarrow> i32 list" where
  "lslv rd rn rm = EmitMiscDP2Source LSLV rd rn rm kDoubleWord"
definition lslvw :: "Register \<Rightarrow> Register \<Rightarrow> Register \<Rightarrow> i32 list" where
  "lslvw rd rn rm = EmitMiscDP2Source LSLV rd rn rm kWord"
definition madd :: "Register \<Rightarrow> Register \<Rightarrow> Register \<Rightarrow> Register \<Rightarrow> OperandSize \<Rightarrow> i32 list" where
  "madd rd rn rm ra sz = EmitMiscDP3Source MADD rd rn rm ra sz"
definition smulh :: "Register \<Rightarrow> Register \<Rightarrow> Register \<Rightarrow> OperandSize \<Rightarrow> i32 list" where
  "smulh rd rn rm sz = EmitMiscDP3Source SMULH rd rn rm R31 sz"
definition umulh :: "Register \<Rightarrow> Register \<Rightarrow> Register \<Rightarrow> OperandSize \<Rightarrow> i32 list" where
  "umulh rd rn rm sz = EmitMiscDP3Source UMULH rd rn rm R31 sz"
definition mulw :: "Register \<Rightarrow> Register \<Rightarrow> Register \<Rightarrow> i32 list" where
  "mulw rd rn rm = madd rd rn rm ZR kWord"
definition mul :: "Register \<Rightarrow> Register \<Rightarrow> Register \<Rightarrow> i32 list" where
  "mul rd rn rm = madd rd rn rm ZR kDoubleWord"
definition movk :: "Register \<Rightarrow> i64 \<Rightarrow> nat \<Rightarrow> i32 list" where
  "movk rd imm hw_idx = EmitMoveWideOp MOVK (ConcreteRegister rd) imm hw_idx kDoubleWord"
definition movn :: "Register \<Rightarrow> i64 \<Rightarrow> nat \<Rightarrow> i32 list" where
  "movn rd imm hw_idx = EmitMoveWideOp MOVN (ConcreteRegister rd) imm hw_idx kDoubleWord"
definition movz :: "Register \<Rightarrow> i64 \<Rightarrow> nat \<Rightarrow> i32 list" where
  "movz rd imm hw_idx = EmitMoveWideOp MOVZ (ConcreteRegister rd) imm hw_idx kDoubleWord"

definition ldr :: "Register \<Rightarrow> Address \<Rightarrow> OperandSize \<Rightarrow> i32 list" where
  "ldr rt a sz =
     (if addr_type a = PCOffset then EmitLoadRegLiteral LDRpc rt a sz
      else if IsSignedOperand sz then EmitLoadStoreReg LDRS rt a sz
      else EmitLoadStoreReg LDR rt a sz)"
definition str :: "Register \<Rightarrow> Address \<Rightarrow> OperandSize \<Rightarrow> i32 list" where
  "str rt a sz = EmitLoadStoreReg STR_op rt a sz"
definition ldp :: "Register \<Rightarrow> Register \<Rightarrow> Address \<Rightarrow> OperandSize \<Rightarrow> i32 list option" where
  "ldp rt rt2 a sz = EmitLoadStoreRegPair LDP rt rt2 a sz"
definition stp :: "Register \<Rightarrow> Register \<Rightarrow> Address \<Rightarrow> OperandSize \<Rightarrow> i32 list option" where
  "stp rt rt2 a sz = EmitLoadStoreRegPair STP rt rt2 a sz"
definition ldxr :: "Register \<Rightarrow> Register \<Rightarrow> OperandSize \<Rightarrow> i32 list" where
  "ldxr rt rn sz = EmitLoadStoreExclusive LDXR R31 rn rt sz"
definition stxr :: "Register \<Rightarrow> Register \<Rightarrow> Register \<Rightarrow> OperandSize \<Rightarrow> i32 list" where
  "stxr rs rt rn sz = EmitLoadStoreExclusive STXR rs rn rt sz"
definition clrex :: "i32 list" where
  "clrex = [SystemOp_bits CLREX]"

definition csel :: "Register \<Rightarrow> Register \<Rightarrow> Register \<Rightarrow> Condition \<Rightarrow> i32 list" where
  "csel rd rn rm cond = EmitConditionalSelect CSEL rd rn rm cond kDoubleWord"
definition csinc :: "Register \<Rightarrow> Register \<Rightarrow> Register \<Rightarrow> Condition \<Rightarrow> i32 list" where
  "csinc rd rn rm cond = EmitConditionalSelect CSINC rd rn rm cond kDoubleWord"
definition cinc :: "Register \<Rightarrow> Register \<Rightarrow> Condition \<Rightarrow> i32 list" where
  "cinc rd rn cond = csinc rd rn rn (InvertCondition cond)"
definition cset :: "Register \<Rightarrow> Condition \<Rightarrow> i32 list" where
  "cset rd cond = csinc rd ZR ZR (InvertCondition cond)"
definition csinv :: "Register \<Rightarrow> Register \<Rightarrow> Register \<Rightarrow> Condition \<Rightarrow> i32 list" where
  "csinv rd rn rm cond = EmitConditionalSelect CSINV rd rn rm cond kDoubleWord"
definition csetm :: "Register \<Rightarrow> Condition \<Rightarrow> i32 list" where
  "csetm rd cond = csinv rd ZR ZR (InvertCondition cond)"
definition csneg :: "Register \<Rightarrow> Register \<Rightarrow> Register \<Rightarrow> Condition \<Rightarrow> i32 list" where
  "csneg rd rn rm cond = EmitConditionalSelect CSNEG rd rn rm cond kDoubleWord"
definition cneg :: "Register \<Rightarrow> Register \<Rightarrow> Condition \<Rightarrow> i32 list" where
  "cneg rd rn cond = EmitConditionalSelect CSNEG rd rn rn (InvertCondition cond) kDoubleWord"

definition cmp :: "Register \<Rightarrow> Operand \<Rightarrow> i32 list" where
  "cmp rn oper = subs ZR rn oper"
definition cmpw :: "Register \<Rightarrow> Operand \<Rightarrow> i32 list" where
  "cmpw rn oper = subsw ZR rn oper"
definition cmn :: "Register \<Rightarrow> Operand \<Rightarrow> i32 list" where
  "cmn rn oper = adds ZR rn oper"
definition CompareRegisters :: "Register \<Rightarrow> Register \<Rightarrow> i32 list" where
  "CompareRegisters rn rm =
     (if rn = CSP then cmp CSP (Operand_extend rm UXTX 0) else cmp rn (Operand_reg rm))"
definition tst :: "Register \<Rightarrow> Operand \<Rightarrow> i32 list" where
  "tst rn oper = ands ZR rn oper"
definition tsti :: "Register \<Rightarrow> i64 \<Rightarrow> i32 list option" where
  "tsti rn imm = andis ZR rn imm"

definition b_offset :: "i32 \<Rightarrow> i32 list" where
  "b_offset offset = EmitUnconditionalBranchOp UnconditionalBranchOp.B (scast offset)"
definition bl_offset :: "i32 \<Rightarrow> i32 list" where
  "bl_offset offset = EmitUnconditionalBranchOp BL (scast offset)"
definition br :: "Register \<Rightarrow> i32 list" where
  "br rn = EmitUnconditionalBranchRegOp BR rn"
definition blr :: "Register \<Rightarrow> i32 list" where
  "blr rn = EmitUnconditionalBranchRegOp BLR rn"
definition ret :: "Register \<Rightarrow> i32 list" where
  "ret rn = EmitUnconditionalBranchRegOp RET rn"
definition brk :: "u16 \<Rightarrow> i32 list" where
  "brk imm = [ExceptionGenOpEncoding BRK imm]"

definition fmovdi :: "VRegister \<Rightarrow> i64 \<Rightarrow> i32 list option" where
  "fmovdi vd imm64 =
     (let bit7 = ucast (signed_drop_bit 63 imm64) :: u8;
          bit6 = ucast (NOT (signed_drop_bit 62 imm64) AND 0x1) :: u8;
          bit54 = ucast (signed_drop_bit 52 imm64 AND 0x3) :: u8;
          bit30 = ucast (signed_drop_bit 48 imm64 AND 0xf) :: u8;
          imm8 = push_bit 7 bit7 OR push_bit 6 bit6 OR push_bit 4 bit54 OR bit30;
          expimm8 = VFPExpandImm imm8
      in if imm64 \<noteq> expimm8 then None else Some (EmitFPImm FMOVDI vd imm8))"
definition fmovdr :: "VRegister \<Rightarrow> Register \<Rightarrow> i32 list" where
  "fmovdr vd rn = EmitFPIntCvtOp FMOVDR vd (ConcreteRegister rn) kDoubleWord"
definition fmovrd :: "Register \<Rightarrow> VRegister \<Rightarrow> i32 list" where
  "fmovrd rd vn = EmitFPIntCvtOp FMOVRD (ConcreteRegister rd) vn kDoubleWord"
definition fcmpd :: "VRegister \<Rightarrow> VRegister \<Rightarrow> i32 list" where
  "fcmpd vn vm = EmitFPCompareOp FCMPD vn vm"
definition fldrd :: "VRegister \<Rightarrow> Address \<Rightarrow> i32 list" where
  "fldrd vt a = EmitLoadStoreReg FLDR vt a kDWord"
definition fstrd :: "VRegister \<Rightarrow> Address \<Rightarrow> i32 list" where
  "fstrd vt a = EmitLoadStoreReg FSTR vt a kDWord"
definition fldrq :: "VRegister \<Rightarrow> Address \<Rightarrow> i32 list" where
  "fldrq vt a = EmitLoadStoreReg FLDRQ vt a kByte"
definition fstrq :: "VRegister \<Rightarrow> Address \<Rightarrow> i32 list" where
  "fstrq vt a = EmitLoadStoreReg FSTRQ vt a kByte"

section \<open>Aliases\<close>

definition SP :: Register where "SP = 15"

definition mov :: "Register \<Rightarrow> Register \<Rightarrow> i32 list" where
  "mov rd rn =
     (if rd = CSP \<or> rn = CSP then add rd rn (Operand_imm 0) else orr rd ZR (Operand_reg rn))"
definition mvn :: "Register \<Rightarrow> Register \<Rightarrow> i32 list" where
  "mvn rd rm = orn rd ZR (Operand_reg rm)"
definition neg :: "Register \<Rightarrow> Register \<Rightarrow> i32 list" where
  "neg rd rm = sub rd ZR (Operand_reg rm)"
definition negs :: "Register \<Rightarrow> Register \<Rightarrow> i32 list" where
  "negs rd rm = subs rd ZR (Operand_reg rm)"
definition MoveRegister :: "Register \<Rightarrow> Register \<Rightarrow> i32 list" where
  "MoveRegister rd rn = (if rd \<noteq> rn then mov rd rn else [])"

definition with_address :: "Address option \<Rightarrow> (Address \<Rightarrow> i32 list) \<Rightarrow> i32 list option" where
  "with_address a f = map_option f a"

definition Push :: "Register \<Rightarrow> i32 list option" where
  "Push reg = with_address (Address_imm SP (- 8) PreIndex kDoubleWord) (\<lambda>a. str reg a kDoubleWord)"
definition Pop :: "Register \<Rightarrow> i32 list option" where
  "Pop reg = with_address (Address_imm SP 8 PostIndex kDoubleWord) (\<lambda>a. ldr reg a kDoubleWord)"
definition PushPair :: "Register \<Rightarrow> Register \<Rightarrow> i32 list option" where
  "PushPair low high =
     Option.bind (Address_imm SP (- 16) PairPreIndex kDoubleWord) (\<lambda>a. stp low high a kDoubleWord)"
definition PopPair :: "Register \<Rightarrow> Register \<Rightarrow> i32 list option" where
  "PopPair low high =
     Option.bind (Address_imm SP 16 PairPostIndex kDoubleWord) (\<lambda>a. ldp low high a kDoubleWord)"

definition LslImmediate :: "Register \<Rightarrow> Register \<Rightarrow> i32 \<Rightarrow> OperandSize \<Rightarrow> i32 list" where
  "LslImmediate rd rn shift sz =
     (if sz = kDoubleWord then add rd ZR (Operand_shift rn LSL shift)
      else addw rd ZR (Operand_shift rn LSL shift))"
definition LsrImmediate :: "Register \<Rightarrow> Register \<Rightarrow> i32 \<Rightarrow> OperandSize \<Rightarrow> i32 list" where
  "LsrImmediate rd rn shift sz =
     (if sz = kDoubleWord then add rd ZR (Operand_shift rn LSR shift)
      else addw rd ZR (Operand_shift rn LSR shift))"
definition AsrImmediate :: "Register \<Rightarrow> Register \<Rightarrow> i32 \<Rightarrow> i32 list" where
  "AsrImmediate rd rn shift = add rd ZR (Operand_shift rn ASR shift)"
definition SmiUntag :: "Register \<Rightarrow> Register \<Rightarrow> i32 list" where
  "SmiUntag dst src = AsrImmediate dst src 1"
definition SmiTag :: "Register \<Rightarrow> Register \<Rightarrow> i32 list" where
  "SmiTag dst src = LslImmediate dst src 1 kDoubleWord"

section \<open>Macro instructions\<close>

definition PP :: Register where "PP = 27"

definition LoadWordFromPoolOffset :: "Register \<Rightarrow> u32 \<Rightarrow> Register \<Rightarrow> i32 list option" where
  "LoadWordFromPoolOffset dst offset pp =
     (let upper20 = offset AND 0xfffff000;
          held = CanHold (ucast upper20) 64
      in if CanHoldOffset offset Offset kDoubleWord then
           map_option (\<lambda>a. ldr dst a kDoubleWord) (Address_imm pp offset Offset kDoubleWord)
         else if operand_type held = Immediate then
           let lower12 = offset AND 0x00000fff
           in map_option (\<lambda>a. add dst pp held @ ldr dst a kDoubleWord)
                (Address_imm dst lower12 Offset kDoubleWord)
         else
           let offset_low = Low16Bits offset AND 0xffff;
               offset_high = High16Bits offset AND 0xffff
           in Some (movz dst (ucast offset_low) 0
                    @ (if offset_high \<noteq> 0 then movk dst (ucast offset_high) 1 else [])
                    @ ldr dst (Address_reg pp dst UXTX Unscaled) kDoubleWord))"

text \<open>
  \<open>LoadImmediate\<close> may use the object pool when \<open>constant_pool_allowed\<close>; then \<open>pool\<close> is the function
  that gives the offset of the pool entry which the object pool builder has for an immediate, and
  otherwise it is \<^const>\<open>None\<close>.
\<close>

type_synonym pool = "(i64 \<Rightarrow> u32) option"

definition LoadImmediate :: "pool \<Rightarrow> Register \<Rightarrow> i64 \<Rightarrow> i32 list option" where
  "LoadImmediate pool reg imm =
     (if imm = 0 then Some (movz reg 0 0)
      else if operand_type (CanHold imm 64) = BitfieldImm then orri reg ZR imm
      else
        let w0 = Low32Bits imm;
            w1 = High32Bits imm;
            h0 = Low16Bits w0 AND 0xffff;
            h1 = High16Bits w0 AND 0xffff;
            h2 = Low16Bits w1 AND 0xffff;
            h3 = High16Bits w1 AND 0xffff
        in if w1 = 0xffffffff then
             if h1 = 0xffff then Some (movn reg (scast (NOT h0)) 0)
             else Some (movn reg (scast (NOT h1)) 1 @ movk reg (ucast h0) 0)
           else if h3 = 0xffff then
             Some (movn reg (scast (NOT h2)) 2
                   @ (if h1 \<noteq> 0xffff then movk reg (ucast h1) 1 else [])
                   @ (if h0 \<noteq> 0xffff then movk reg (ucast h0) 0 else []))
           else if w1 \<noteq> 0 \<and> pool \<noteq> None then LoadWordFromPoolOffset reg (the pool imm) PP
           else
             let (code, initialized) =
                   (if h0 \<noteq> 0 then (movz reg (ucast h0) 0, True) else ([], False));
                 (code, initialized) =
                   (if h1 \<noteq> 0
                    then (code @ (if initialized then movk reg (ucast h1) 1 else movz reg (ucast h1) 1), True)
                    else (code, initialized));
                 (code, initialized) =
                   (if h2 \<noteq> 0
                    then (code @ (if initialized then movk reg (ucast h2) 2 else movz reg (ucast h2) 2), True)
                    else (code, initialized))
             in Some (if h3 \<noteq> 0
                      then code @ (if initialized then movk reg (ucast h3) 3 else movz reg (ucast h3) 3)
                      else code))"

definition LoadDImmediate :: "pool \<Rightarrow> VRegister \<Rightarrow> i64 \<Rightarrow> i32 list option" where
  "LoadDImmediate pool vd immd =
     (case fmovdi vd immd of
        Some code \<Rightarrow> Some code
      | None \<Rightarrow> map_option (\<lambda>code. code @ fmovdr vd TMP) (LoadImmediate pool TMP immd))"

definition AddImmediate :: "pool \<Rightarrow> Register \<Rightarrow> Register \<Rightarrow> i64 \<Rightarrow> i32 list option" where
  "AddImmediate pool dest rn imm =
     (if imm = 0 then Some (if dest \<noteq> rn then mov dest rn else [])
      else if operand_type (CanHold imm 64) = Immediate then Some (add dest rn (CanHold imm 64))
      else if operand_type (CanHold (- imm) 64) = Immediate then Some (sub dest rn (CanHold (- imm) 64))
      else map_option (\<lambda>code. code @ add dest rn (Operand_reg TMP2)) (LoadImmediate pool TMP2 imm))"

definition AddImmediateSetFlags ::
    "pool \<Rightarrow> Register \<Rightarrow> Register \<Rightarrow> i64 \<Rightarrow> OperandSize \<Rightarrow> i32 list option" where
  "AddImmediateSetFlags pool dest rn imm sz =
     (let adds = (if sz = kDoubleWord then adds else addsw);
          subs = (if sz = kDoubleWord then subs else subsw)
      in if operand_type (CanHold imm 64) = Immediate then Some (adds dest rn (CanHold imm 64))
         else if operand_type (CanHold (- imm) 64) = Immediate then Some (subs dest rn (CanHold (- imm) 64))
         else map_option (\<lambda>code. code @ adds dest rn (Operand_reg TMP2)) (LoadImmediate pool TMP2 imm))"

definition SubImmediateSetFlags ::
    "pool \<Rightarrow> Register \<Rightarrow> Register \<Rightarrow> i64 \<Rightarrow> OperandSize \<Rightarrow> i32 list option" where
  "SubImmediateSetFlags pool dest rn imm sz =
     (let adds = (if sz = kDoubleWord then adds else addsw);
          subs = (if sz = kDoubleWord then subs else subsw)
      in if operand_type (CanHold imm 64) = Immediate then Some (subs dest rn (CanHold imm 64))
         else if operand_type (CanHold (- imm) 64) = Immediate then Some (adds dest rn (CanHold (- imm) 64))
         else map_option (\<lambda>code. code @ subs dest rn (Operand_reg TMP2)) (LoadImmediate pool TMP2 imm))"

definition AndImmediate :: "pool \<Rightarrow> Register \<Rightarrow> Register \<Rightarrow> i64 \<Rightarrow> i32 list option" where
  "AndImmediate pool rd rn imm =
     (if IsImmLogical imm 64 \<noteq> None then andi rd rn imm
      else map_option (\<lambda>code. code @ and_reg rd rn (Operand_reg TMP)) (LoadImmediate pool TMP imm))"
definition OrImmediate :: "pool \<Rightarrow> Register \<Rightarrow> Register \<Rightarrow> i64 \<Rightarrow> i32 list option" where
  "OrImmediate pool rd rn imm =
     (if IsImmLogical imm 64 \<noteq> None then orri rd rn imm
      else map_option (\<lambda>code. code @ orr rd rn (Operand_reg TMP)) (LoadImmediate pool TMP imm))"
definition XorImmediate :: "pool \<Rightarrow> Register \<Rightarrow> Register \<Rightarrow> i64 \<Rightarrow> i32 list option" where
  "XorImmediate pool rd rn imm =
     (if IsImmLogical imm 64 \<noteq> None then eori rd rn imm
      else map_option (\<lambda>code. code @ eor rd rn (Operand_reg TMP)) (LoadImmediate pool TMP imm))"
definition TestImmediate :: "pool \<Rightarrow> Register \<Rightarrow> i64 \<Rightarrow> i32 list option" where
  "TestImmediate pool rn imm =
     (if IsImmLogical imm 64 \<noteq> None then tsti rn imm
      else map_option (\<lambda>code. code @ tst rn (Operand_reg TMP)) (LoadImmediate pool TMP imm))"
definition CompareImmediate :: "pool \<Rightarrow> Register \<Rightarrow> i64 \<Rightarrow> i32 list option" where
  "CompareImmediate pool rn imm =
     (if operand_type (CanHold imm 64) = Immediate then Some (cmp rn (CanHold imm 64))
      else if operand_type (CanHold (- imm) 64) = Immediate then Some (cmn rn (CanHold (- imm) 64))
      else map_option (\<lambda>code. code @ cmp rn (Operand_reg TMP2)) (LoadImmediate pool TMP2 imm))"

definition LoadFromOffset :: "pool \<Rightarrow> Register \<Rightarrow> Register \<Rightarrow> i32 \<Rightarrow> OperandSize \<Rightarrow> i32 list option" where
  "LoadFromOffset pool dest base offset sz =
     (if CanHoldOffset offset Offset sz
      then map_option (\<lambda>a. ldr dest a sz) (Address_imm base offset Offset sz)
      else Option.bind (AddImmediate pool TMP2 base (scast offset)) (\<lambda>code.
             map_option (\<lambda>a. code @ ldr dest a sz) (Address_imm TMP2 0 Offset kDoubleWord)))"
definition StoreToOffset :: "pool \<Rightarrow> Register \<Rightarrow> Register \<Rightarrow> i32 \<Rightarrow> OperandSize \<Rightarrow> i32 list option" where
  "StoreToOffset pool src base offset sz =
     (if CanHoldOffset offset Offset sz
      then map_option (\<lambda>a. str src a sz) (Address_imm base offset Offset sz)
      else Option.bind (AddImmediate pool TMP2 base (scast offset)) (\<lambda>code.
             map_option (\<lambda>a. code @ str src a sz) (Address_imm TMP2 0 Offset kDoubleWord)))"

end
