(* ===== verification/Arm64_Codec.thy ===== *)
theory Arm64_Codec
  imports Arm64_Assembler
begin

text \<open>
  The bridge between the encoders of the assembler and the decoders of the simulator. An encoder
  joins shifted fields by bitwise or; a decoder cuts fields out with \<open>Bits\<close> and \<open>Bit\<close> and tests the
  class of an instruction against a mask. The predicate \<open>fits\<close> bounds the width of a field, the
  \<open>field_\<close> lemmas cut a field out of a disjunction of shifted ones, and the lemmas on the class
  tests \<open>Is...Op\<close> state each test as the values of its runs of bits. The bundle
  \<open>codec_simps\<close> decodes whatever the assembler emits by rewriting.
\<close>

section \<open>Fields\<close>

definition fits :: "nat \<Rightarrow> i32 \<Rightarrow> bool" where
  "fits m x \<longleftrightarrow> take_bit m x = x"

lemma fits_bit: "fits m x \<Longrightarrow> bit x n \<Longrightarrow> n < m"
  unfolding fits_def by (metis bit_take_bit_iff)

lemma Bits_eq [field_simps_arm64]:
  "shift + count \<le> 32 \<Longrightarrow> Bits i shift count = take_bit count (drop_bit shift i)"
  unfolding Bits_def and_mask_word by (rule take_bit_signed_drop_bit) simp

lemma Bit_eq [field_simps_arm64]: "n < 32 \<Longrightarrow> Bit i n = of_bool (bit i n)"
  by (rule bit_word_eqI) (auto simp: Bit_def bit_and_iff bit_1_iff bit_signed_drop_bit_iff bit_of_bool_iff)

lemma field_same: "s + c \<le> 32 \<Longrightarrow> take_bit c (drop_bit s (push_bit s x)) = take_bit c (x :: i32)"
  by (rule bit_word_eqI) (auto simp: bit_take_bit_iff bit_drop_bit_eq bit_push_bit_iff)

lemma field_below: "fits m x \<Longrightarrow> k + m \<le> s \<Longrightarrow> drop_bit s (push_bit k x) = 0"
  by (rule bit_word_eqI) (auto simp: bit_drop_bit_eq bit_push_bit_iff dest: fits_bit)

lemma field_below0: "fits m x \<Longrightarrow> m \<le> s \<Longrightarrow> drop_bit s x = 0"
  using field_below [of m x 0 s] by simp

lemma field_above: "s + c \<le> k \<Longrightarrow> take_bit c (drop_bit s (push_bit k (x :: i32))) = 0"
  by (rule bit_word_eqI) (auto simp: bit_take_bit_iff bit_drop_bit_eq bit_push_bit_iff)

lemma field_above0: "c \<le> k \<Longrightarrow> take_bit c (push_bit k (x :: i32)) = 0"
  using field_above [of 0 c k x] by simp

lemma field_same0: "fits c x \<Longrightarrow> take_bit c x = x"
  by (simp add: fits_def)

lemma bit_push_field: "fits m x \<Longrightarrow> k + m \<le> n \<Longrightarrow> \<not> bit (push_bit k x) n"
  by (auto simp: bit_push_bit_iff dest: fits_bit)

lemma bit_field0: "fits m x \<Longrightarrow> m \<le> n \<Longrightarrow> \<not> bit x n"
  by (auto dest: fits_bit)

lemma mask_run:
  assumes "s + c \<le> 32" and "fits c k"
  shows "i AND push_bit s (mask c) = push_bit s k \<longleftrightarrow> take_bit c (drop_bit s i) = k"
proof
  assume eq: "i AND push_bit s (mask c) = push_bit s k"
  show "take_bit c (drop_bit s i) = k"
  proof (rule bit_word_eqI)
    fix n assume "n < LENGTH(32)"
    have "bit (i AND push_bit s (mask c)) (s + n) \<longleftrightarrow> bit (push_bit s k) (s + n)" by (simp only: eq)
    then show "bit (take_bit c (drop_bit s i)) n \<longleftrightarrow> bit k n"
      using assms fits_bit [OF assms(2), of n]
      by (auto simp: bit_and_iff bit_push_bit_iff bit_mask_iff bit_take_bit_iff bit_drop_bit_eq)
  qed
next
  assume eq: "take_bit c (drop_bit s i) = k"
  show "i AND push_bit s (mask c) = push_bit s k"
    unfolding eq [symmetric]
    by (rule bit_word_eqI) (use assms in \<open>auto simp: bit_and_iff bit_push_bit_iff bit_mask_iff bit_take_bit_iff bit_drop_bit_eq\<close>)
qed

lemma mask_runs:
  assumes "s1 + c1 \<le> s2" "s2 + c2 \<le> 32" and k1: "fits c1 k1" and k2: "fits c2 k2"
  shows "i AND (push_bit s1 (mask c1) OR push_bit s2 (mask c2)) = push_bit s1 k1 OR push_bit s2 k2 \<longleftrightarrow>
     take_bit c1 (drop_bit s1 i) = k1 \<and> take_bit c2 (drop_bit s2 i) = k2" (is "?l \<longleftrightarrow> ?r")
proof
  assume eq: ?l
  have b: "bit i n \<and> ((s1 \<le> n \<and> n < s1 + c1) \<or> (s2 \<le> n \<and> n < s2 + c2)) \<longleftrightarrow>
      (s1 \<le> n \<and> bit k1 (n - s1)) \<or> (s2 \<le> n \<and> bit k2 (n - s2))" if "n < 32" for n
  proof -
    have "bit (i AND (push_bit s1 (mask c1) OR push_bit s2 (mask c2))) n \<longleftrightarrow> bit (push_bit s1 k1 OR push_bit s2 k2) n"
      by (simp only: eq)
    then show ?thesis using that assms(1,2)
      by (auto simp: bit_and_iff bit_or_iff bit_push_bit_iff bit_mask_iff)
  qed
  have "bit (take_bit c1 (drop_bit s1 i)) n \<longleftrightarrow> bit k1 n" if "n < 32" for n
  proof (cases "n < c1")
    case True
    then show ?thesis using b [of "s1 + n"] assms(1,2)
      by (auto simp: bit_take_bit_iff bit_drop_bit_eq)
  qed (use fits_bit [OF k1, of n] in \<open>auto simp: bit_take_bit_iff\<close>)
  moreover have "bit (take_bit c2 (drop_bit s2 i)) n \<longleftrightarrow> bit k2 n" if "n < 32" for n
  proof (cases "n < c2")
    case True
    then show ?thesis using b [of "s2 + n"] assms(1,2) fits_bit [OF k1, of "s2 + n - s1"]
      by (auto simp: bit_take_bit_iff bit_drop_bit_eq)
  qed (use fits_bit [OF k2, of n] in \<open>auto simp: bit_take_bit_iff\<close>)
  ultimately show ?r by (auto intro: bit_word_eqI)
next
  assume ?r
  then have "k1 = take_bit c1 (drop_bit s1 i)" "k2 = take_bit c2 (drop_bit s2 i)" by simp_all
  then show ?l
    by (intro bit_word_eqI)
      (use assms(1,2) in \<open>auto simp: bit_and_iff bit_or_iff bit_push_bit_iff bit_mask_iff bit_take_bit_iff bit_drop_bit_eq\<close>)
qed

section \<open>Instruction classes\<close>

lemma IsDPImmediateOp_iff [field_simps_arm64]: "IsDPImmediateOp i \<longleftrightarrow> take_bit 3 (drop_bit 26 i) = 0x4"
  using mask_run [of 26 3 "0x4" i]
  by (simp add: IsDPImmediateOp_def op_consts fits_def mask_eq_exp_minus_1)

lemma IsCompareBranchOp_iff [field_simps_arm64]: "IsCompareBranchOp i \<longleftrightarrow> take_bit 3 (drop_bit 26 i) = 0x5"
  using mask_run [of 26 3 "0x5" i]
  by (simp add: IsCompareBranchOp_def op_consts fits_def mask_eq_exp_minus_1)

lemma IsLoadStoreOp_iff [field_simps_arm64]:
  "IsLoadStoreOp i \<longleftrightarrow> take_bit 1 (drop_bit 25 i) = 0x0 \<and> take_bit 1 (drop_bit 27 i) = 0x1"
  using mask_runs [of 25 1 27 1 "0x0" "0x1" i]
  by (simp add: IsLoadStoreOp_def op_consts fits_def mask_eq_exp_minus_1)

lemma IsDPRegisterOp_iff [field_simps_arm64]: "IsDPRegisterOp i \<longleftrightarrow> take_bit 3 (drop_bit 25 i) = 0x5"
  using mask_run [of 25 3 "0x5" i]
  by (simp add: IsDPRegisterOp_def op_consts fits_def mask_eq_exp_minus_1)

lemma IsDPSimd1Op_iff [field_simps_arm64]: "IsDPSimd1Op i \<longleftrightarrow> take_bit 4 (drop_bit 25 i) = 0x7"
  using mask_run [of 25 4 "0x7" i]
  by (simp add: IsDPSimd1Op_def op_consts fits_def mask_eq_exp_minus_1)

lemma IsDPSimd2Op_iff [field_simps_arm64]: "IsDPSimd2Op i \<longleftrightarrow> take_bit 4 (drop_bit 25 i) = 0xf"
  using mask_run [of 25 4 "0xf" i]
  by (simp add: IsDPSimd2Op_def op_consts fits_def mask_eq_exp_minus_1)

lemma IsFPOp_iff [field_simps_arm64]:
  "IsFPOp i \<longleftrightarrow> take_bit 4 (drop_bit 25 i) = 0xf \<and> take_bit 1 (drop_bit 30 i) = 0x0"
  using mask_runs [of 25 4 30 1 "0xf" "0x0" i]
  by (simp add: IsFPOp_def op_consts fits_def mask_eq_exp_minus_1)

lemma IsCompareAndBranchOp_iff [field_simps_arm64]: "IsCompareAndBranchOp i \<longleftrightarrow> take_bit 6 (drop_bit 25 i) = 0x1a"
  using mask_run [of 25 6 "0x1a" i]
  by (simp add: IsCompareAndBranchOp_def op_consts fits_def mask_eq_exp_minus_1)

lemma IsConditionalBranchOp_iff [field_simps_arm64]: "IsConditionalBranchOp i \<longleftrightarrow> take_bit 7 (drop_bit 25 i) = 0x2a"
  using mask_run [of 25 7 "0x2a" i]
  by (simp add: IsConditionalBranchOp_def op_consts fits_def mask_eq_exp_minus_1)

lemma IsExceptionGenOp_iff [field_simps_arm64]: "IsExceptionGenOp i \<longleftrightarrow> take_bit 8 (drop_bit 24 i) = 0xd4"
  using mask_run [of 24 8 "0xd4" i]
  by (simp add: IsExceptionGenOp_def op_consts fits_def mask_eq_exp_minus_1)

lemma IsSystemOp_iff [field_simps_arm64]: "IsSystemOp i \<longleftrightarrow> take_bit 10 (drop_bit 22 i) = 0x354"
  using mask_run [of 22 10 "0x354" i]
  by (simp add: IsSystemOp_def op_consts fits_def mask_eq_exp_minus_1)

lemma IsTestAndBranchOp_iff [field_simps_arm64]: "IsTestAndBranchOp i \<longleftrightarrow> take_bit 6 (drop_bit 25 i) = 0x1b"
  using mask_run [of 25 6 "0x1b" i]
  by (simp add: IsTestAndBranchOp_def op_consts fits_def mask_eq_exp_minus_1)

lemma IsUnconditionalBranchOp_iff [field_simps_arm64]: "IsUnconditionalBranchOp i \<longleftrightarrow> take_bit 5 (drop_bit 26 i) = 0x5"
  using mask_run [of 26 5 "0x5" i]
  by (simp add: IsUnconditionalBranchOp_def op_consts fits_def mask_eq_exp_minus_1)

lemma IsUnconditionalBranchRegOp_iff [field_simps_arm64]: "IsUnconditionalBranchRegOp i \<longleftrightarrow> take_bit 7 (drop_bit 25 i) = 0x6b"
  using mask_run [of 25 7 "0x6b" i]
  by (simp add: IsUnconditionalBranchRegOp_def op_consts fits_def mask_eq_exp_minus_1)

lemma IsLoadStoreRegOp_iff [field_simps_arm64]:
  "IsLoadStoreRegOp i \<longleftrightarrow> take_bit 1 (drop_bit 25 i) = 0x0 \<and> take_bit 3 (drop_bit 27 i) = 0x7"
  using mask_runs [of 25 1 27 3 "0x0" "0x7" i]
  by (simp add: IsLoadStoreRegOp_def op_consts fits_def mask_eq_exp_minus_1)

lemma IsLoadStoreRegPairOp_iff [field_simps_arm64]:
  "IsLoadStoreRegPairOp i \<longleftrightarrow> take_bit 1 (drop_bit 25 i) = 0x0 \<and> take_bit 3 (drop_bit 27 i) = 0x5"
  using mask_runs [of 25 1 27 3 "0x0" "0x5" i]
  by (simp add: IsLoadStoreRegPairOp_def op_consts fits_def mask_eq_exp_minus_1)

lemma IsLoadRegLiteralOp_iff [field_simps_arm64]:
  "IsLoadRegLiteralOp i \<longleftrightarrow> take_bit 2 (drop_bit 24 i) = 0x0 \<and> take_bit 3 (drop_bit 27 i) = 0x3"
  using mask_runs [of 24 2 27 3 "0x0" "0x3" i]
  by (simp add: IsLoadRegLiteralOp_def op_consts fits_def mask_eq_exp_minus_1)

lemma IsLoadStoreExclusiveOp_iff [field_simps_arm64]: "IsLoadStoreExclusiveOp i \<longleftrightarrow> take_bit 6 (drop_bit 24 i) = 0x8"
  using mask_run [of 24 6 "0x8" i]
  by (simp add: IsLoadStoreExclusiveOp_def op_consts fits_def mask_eq_exp_minus_1)

lemma IsAddSubImmOp_iff [field_simps_arm64]: "IsAddSubImmOp i \<longleftrightarrow> take_bit 5 (drop_bit 24 i) = 0x11"
  using mask_run [of 24 5 "0x11" i]
  by (simp add: IsAddSubImmOp_def op_consts fits_def mask_eq_exp_minus_1)

lemma IsBitfieldOp_iff [field_simps_arm64]: "IsBitfieldOp i \<longleftrightarrow> take_bit 6 (drop_bit 23 i) = 0x26"
  using mask_run [of 23 6 "0x26" i]
  by (simp add: IsBitfieldOp_def op_consts fits_def mask_eq_exp_minus_1)

lemma IsLogicalImmOp_iff [field_simps_arm64]: "IsLogicalImmOp i \<longleftrightarrow> take_bit 6 (drop_bit 23 i) = 0x24"
  using mask_run [of 23 6 "0x24" i]
  by (simp add: IsLogicalImmOp_def op_consts fits_def mask_eq_exp_minus_1)

lemma IsMoveWideOp_iff [field_simps_arm64]: "IsMoveWideOp i \<longleftrightarrow> take_bit 6 (drop_bit 23 i) = 0x25"
  using mask_run [of 23 6 "0x25" i]
  by (simp add: IsMoveWideOp_def op_consts fits_def mask_eq_exp_minus_1)

lemma IsPCRelOp_iff [field_simps_arm64]: "IsPCRelOp i \<longleftrightarrow> take_bit 5 (drop_bit 24 i) = 0x10"
  using mask_run [of 24 5 "0x10" i]
  by (simp add: IsPCRelOp_def op_consts fits_def mask_eq_exp_minus_1)

lemma IsAddSubShiftExtOp_iff [field_simps_arm64]: "IsAddSubShiftExtOp i \<longleftrightarrow> take_bit 5 (drop_bit 24 i) = 0xb"
  using mask_run [of 24 5 "0xb" i]
  by (simp add: IsAddSubShiftExtOp_def op_consts fits_def mask_eq_exp_minus_1)

lemma IsAddSubWithCarryOp_iff [field_simps_arm64]: "IsAddSubWithCarryOp i \<longleftrightarrow> take_bit 8 (drop_bit 21 i) = 0xd0"
  using mask_run [of 21 8 "0xd0" i]
  by (simp add: IsAddSubWithCarryOp_def op_consts fits_def mask_eq_exp_minus_1)

lemma IsConditionalSelectOp_iff [field_simps_arm64]: "IsConditionalSelectOp i \<longleftrightarrow> take_bit 8 (drop_bit 21 i) = 0xd4"
  using mask_run [of 21 8 "0xd4" i]
  by (simp add: IsConditionalSelectOp_def op_consts fits_def mask_eq_exp_minus_1)

lemma IsMiscDP1SourceOp_iff [field_simps_arm64]:
  "IsMiscDP1SourceOp i \<longleftrightarrow> take_bit 8 (drop_bit 21 i) = 0xd6 \<and> take_bit 1 (drop_bit 30 i) = 0x1"
  using mask_runs [of 21 8 30 1 "0xd6" "0x1" i]
  by (simp add: IsMiscDP1SourceOp_def op_consts fits_def mask_eq_exp_minus_1)

lemma IsMiscDP2SourceOp_iff [field_simps_arm64]:
  "IsMiscDP2SourceOp i \<longleftrightarrow> take_bit 8 (drop_bit 21 i) = 0xd6 \<and> take_bit 1 (drop_bit 30 i) = 0x0"
  using mask_runs [of 21 8 30 1 "0xd6" "0x0" i]
  by (simp add: IsMiscDP2SourceOp_def op_consts fits_def mask_eq_exp_minus_1)

lemma IsMiscDP3SourceOp_iff [field_simps_arm64]: "IsMiscDP3SourceOp i \<longleftrightarrow> take_bit 5 (drop_bit 24 i) = 0x1b"
  using mask_run [of 24 5 "0x1b" i]
  by (simp add: IsMiscDP3SourceOp_def op_consts fits_def mask_eq_exp_minus_1)

lemma IsLogicalShiftOp_iff [field_simps_arm64]: "IsLogicalShiftOp i \<longleftrightarrow> take_bit 5 (drop_bit 24 i) = 0xa"
  using mask_run [of 24 5 "0xa" i]
  by (simp add: IsLogicalShiftOp_def op_consts fits_def mask_eq_exp_minus_1)

section \<open>Registers and immediates as fields\<close>

lemma fits_of_nat: "r < 2 ^ m \<Longrightarrow> fits m (of_nat r)"
  unfolding fits_def by (simp add: take_bit_of_nat take_bit_nat_eq_self)

lemma fits_reg: "r < 32 \<Longrightarrow> fits 5 (of_nat r)"
  using fits_of_nat [of r 5] by simp

lemma unat_reg: "r < 32 \<Longrightarrow> unat (of_nat r :: i32) = r"
  by (simp add: unat_of_nat)

text \<open>The \<open>Register\<close> enumerators are the numbers below 34, \<open>CSP\<close> and \<open>ZR\<close> being the last two.\<close>

lemma ConcreteRegister_bound: "r < 34 \<Longrightarrow> ConcreteRegister r < 32"
  by (simp add: ConcreteRegister_def ZR_def CSP_def R31_def)

lemma fits_creg: "r < 34 \<Longrightarrow> fits 5 (of_nat (ConcreteRegister r))"
  by (rule fits_reg [OF ConcreteRegister_bound])

lemma unat_creg: "r < 34 \<Longrightarrow> unat (of_nat (ConcreteRegister r) :: i32) = ConcreteRegister r"
  by (rule unat_reg [OF ConcreteRegister_bound])

lemma fits_imm16: "fits 16 (ucast ((imm :: i64) AND 0xffff))"
proof -
  have "imm AND 0xffff = take_bit 16 imm" by (simp add: take_bit_eq_mask mask_eq_exp_minus_1)
  then show ?thesis
    unfolding fits_def by (intro bit_word_eqI) (auto simp: bit_take_bit_iff bit_ucast_iff)
qed

lemmas codec_simps =
  field_simps_arm64 field_defs op_consts
  field_below field_below0 field_above field_above0 field_same field_same0 bit_push_field bit_field0
  take_bit_or drop_bit_or bit_or_iff

lemma ConcreteRegister_low [simp]: "r < 32 \<Longrightarrow> ConcreteRegister r = r"
  by (simp add: ConcreteRegister_def ZR_def CSP_def)

end
