(* ===== verification/Arm64_LogicalImm.thy ===== *)
theory Arm64_LogicalImm
  imports Arm64_Codec
begin

text \<open>
  Logical immediates: the encoder \<open>Operand::IsImmLogical\<close> of the assembler against the decoder
  \<open>Instr::ImmLogical\<close> of the instruction set. Both are related to one description of the
  encodable values, a run of \<open>S\<close> ones in a window of \<open>w\<close> bits, rotated right by \<open>R\<close> and repeated
  (\<open>pattern\<close>). The decoder builds the pattern of its fields. The encoder counts leading and trailing
  zeros and ones and the set bits, the latter by the parallel addition of \<open>CountOneBits\<close>, and
  halves its window; the counts of the whole word are those of every window the value is periodic in.
\<close>

section \<open>Counting bits in parallel\<close>

text \<open>\<open>fsum k n x\<close> adds the \<open>n\<close> fields of \<open>k\<close> bits of \<open>x\<close>; \<open>fmask k n\<close> selects every other field.\<close>

primrec fsum :: "nat \<Rightarrow> nat \<Rightarrow> nat \<Rightarrow> nat" where
  "fsum k 0 x = 0"
| "fsum k (Suc n) x = take_bit k x + fsum k n (drop_bit k x)"

primrec fmask :: "nat \<Rightarrow> nat \<Rightarrow> nat" where
  "fmask k 0 = 0"
| "fmask k (Suc n) = mask k OR push_bit (2 * k) (fmask k n)"

lemma and_nat_le: "(x::nat) AND y \<le> y"
proof -
  have "int (x AND y) \<le> int y" unfolding of_nat_and_eq by (rule AND_upper2) simp
  then show ?thesis by simp
qed

lemma fsum_add:
  assumes "\<And>j. j < n \<Longrightarrow> take_bit k (drop_bit (k * j) a) + take_bit k (drop_bit (k * j) b) < 2 ^ k"
  shows "fsum k n (a + b) = fsum k n a + fsum k n b"
  using assms
proof (induction n arbitrary: a b)
  case (Suc n)
  have lt: "take_bit k a + take_bit k b < 2 ^ k" using Suc.prems [of 0] by simp
  then have t: "take_bit k (a + b) = take_bit k a + take_bit k b"
    by (metis take_bit_add take_bit_nat_eq_self)
  have d: "drop_bit k (a + b) = drop_bit k a + drop_bit k b"
    using lt unfolding drop_bit_eq_div take_bit_eq_mod
    by (metis div_add1_eq div_eq_0_iff add.right_neutral mod_0_imp_dvd)
  have "fsum k n (drop_bit k a + drop_bit k b) = fsum k n (drop_bit k a) + fsum k n (drop_bit k b)"
    by (rule Suc.IH) (use Suc.prems [of "Suc _"] in \<open>simp add: drop_bit_drop_bit ac_simps\<close>)
  then show ?case by (simp add: t d)
qed simp

lemma fmask_take: "take_bit (2 * k) (v AND fmask k (Suc n)) = take_bit k v"
  by (rule bit_eqI) (auto simp: bit_take_bit_iff bit_and_iff bit_or_iff bit_mask_iff bit_push_bit_iff)

lemma fmask_drop: "drop_bit (2 * k) (v AND fmask k (Suc n)) = drop_bit (2 * k) v AND fmask k n"
  by (rule bit_eqI) (auto simp: bit_drop_bit_eq bit_and_iff bit_or_iff bit_mask_iff bit_push_bit_iff)

lemma fsum_split:
  "fsum k (2 * n) v = fsum (2 * k) n (v AND fmask k n) + fsum (2 * k) n (drop_bit k v AND fmask k n)"
proof (induction n arbitrary: v)
  case (Suc n)
  have "fsum k (2 * Suc n) v = take_bit k v + (take_bit k (drop_bit k v) + fsum k (2 * n) (drop_bit (2 * k) v))"
    by (simp add: drop_bit_drop_bit mult_2)
  then show ?case
    unfolding Suc.IH fsum.simps(2) fmask_take fmask_drop
    by (simp add: drop_bit_drop_bit add.commute)
qed simp

lemma fmask_field: "take_bit (2 * k) (drop_bit (2 * k * j) (v AND fmask k n)) < 2 ^ k"
proof -
  have "bit (fmask k n) i \<Longrightarrow> i mod (2 * k) < k" for i
  proof (induction n arbitrary: i)
    case (Suc n)
    then show ?case
      by (auto simp: bit_or_iff bit_mask_iff bit_push_bit_iff le_mod_geq)
  qed simp
  then have "take_bit (2 * k) (drop_bit (2 * k * j) (v AND fmask k n))
      = take_bit k (take_bit (2 * k) (drop_bit (2 * k * j) (v AND fmask k n)))"
    by (intro bit_eqI) (force simp: bit_take_bit_iff bit_drop_bit_eq bit_and_iff)
  then show ?thesis by (metis take_bit_nat_less_exp)
qed

lemma fsum_step:
  assumes "0 < k"
  shows "fsum (2 * k) n ((drop_bit k v AND fmask k n) + (v AND fmask k n)) = fsum k (2 * n) v"
proof -
  have "fsum (2 * k) n ((drop_bit k v AND fmask k n) + (v AND fmask k n))
      = fsum (2 * k) n (drop_bit k v AND fmask k n) + fsum (2 * k) n (v AND fmask k n)"
  proof (rule fsum_add)
    fix j
    have "(2::nat) ^ Suc k \<le> 2 ^ (2 * k)"
      using assms by (intro power_increasing) auto
    then have "(2::nat) ^ k + 2 ^ k \<le> 2 ^ (2 * k)" by simp
    then show "take_bit (2 * k) (drop_bit (2 * k * j) (drop_bit k v AND fmask k n)) +
         take_bit (2 * k) (drop_bit (2 * k * j) (v AND fmask k n)) < 2 ^ (2 * k)"
      using fmask_field [of k j "drop_bit k v" n] fmask_field [of k j v n] by linarith
  qed
  then show ?thesis by (simp add: fsum_split)
qed

lemma fsum_one: "fsum 1 n v = card {i. i < n \<and> bit v i}"
proof (induction n arbitrary: v)
  case (Suc n)
  have "{i. i < Suc n \<and> bit v i} = (if bit v 0 then {0} else {}) \<union> Suc ` {i. i < n \<and> bit (drop_bit 1 v) i}"
    by (auto simp: bit_drop_bit_eq image_iff less_Suc_eq_0_disj)
  moreover have "finite {i. i < n \<and> bit (drop_bit 1 v) i}" by simp
  ultimately have "card {i. i < Suc n \<and> bit v i} = of_bool (bit v 0) + card {i. i < n \<and> bit (drop_bit 1 v) i}"
    by (auto simp: card_image card_insert_if)
  moreover have "take_bit 1 v = of_bool (bit v 0)"
    by (simp add: bit_0 take_bit_Suc_from_most)
  ultimately show ?case
    unfolding fsum.simps Suc.IH by simp
qed simp

lemma swar_step:
  fixes v M :: u64
  assumes w: "w = (drop_bit k v AND M) + (v AND M)"
    and M: "unat M = fmask k n" and k: "0 < k" and b: "unat M < 2 ^ 63" and K: "K = 2 * k" "N = 2 * n"
  shows "fsum K n (unat w) = fsum k N (unat v)"
proof -
  have u: "unat (v AND M) = unat v AND fmask k n" "unat (drop_bit k v AND M) = drop_bit k (unat v) AND fmask k n"
    by (simp_all only: unsigned_and_eq M unat_drop_bit_eq)
  have "unat v AND fmask k n \<le> fmask k n" "drop_bit k (unat v) AND fmask k n \<le> fmask k n"
    by (rule and_nat_le)+
  then have "unat ((drop_bit k v AND M) + (v AND M)) = (drop_bit k (unat v) AND fmask k n) + (unat v AND fmask k n)"
    using b unat_add_lem [of "drop_bit k v AND M" "v AND M"] by (simp add: u M)
  then show ?thesis by (simp only: w K fsum_step [OF k])
qed

lemma fmask_numeral:
  "fmask k (numeral n) = mask k OR push_bit (2 * k) (fmask k (pred_numeral n))"
  by (simp only: numeral_eq_Suc fmask.simps)

lemma fmask_values:
  "fmask (Suc 0) 32 = 0x5555555555555555" "fmask 2 16 = 0x3333333333333333" "fmask 4 8 = 0x0f0f0f0f0f0f0f0f"
  "fmask 8 4 = 0x00ff00ff00ff00ff" "fmask 16 2 = 0x0000ffff0000ffff" "fmask 32 1 = 0x00000000ffffffff"
  by (simp_all add: fmask_numeral mask_eq_exp_minus_1 push_bit_eq_mult)

lemma CountOneBits_width_64: "unat (CountOneBits_width v 64) = card {i. i < 64 \<and> bit v i}"
proof -
  define v1 where "v1 = (drop_bit 1 v AND 0x5555555555555555) + (v AND 0x5555555555555555)"
  define v2 where "v2 = (drop_bit 2 v1 AND 0x3333333333333333) + (v1 AND 0x3333333333333333)"
  define v4 where "v4 = (drop_bit 4 v2 AND 0x0f0f0f0f0f0f0f0f) + (v2 AND 0x0f0f0f0f0f0f0f0f)"
  define v8 where "v8 = (drop_bit 8 v4 AND 0x00ff00ff00ff00ff) + (v4 AND 0x00ff00ff00ff00ff)"
  define v16 where "v16 = (drop_bit 16 v8 AND 0x0000ffff0000ffff) + (v8 AND 0x0000ffff0000ffff)"
  define v32 where "v32 = (drop_bit 32 v16 AND 0x00000000ffffffff) + (v16 AND 0x00000000ffffffff)"
  have "(0xffffffffffffffff :: u64) = - 1" by simp
  then have m: "v AND drop_bit (64 - 64) 0xffffffffffffffff = v" by (simp only: diff_self_eq_0 drop_bit_0 id_apply and.right_neutral)
  have c: "CountOneBits_width v 64 = v32"
    unfolding CountOneBits_width_def Let_def m v1_def v2_def v4_def v8_def v16_def v32_def by (rule refl)
  have "fsum 64 1 (unat v32) = fsum 32 2 (unat v16)"
    by (rule swar_step [OF v32_def]) (simp_all add: fmask_values mask_eq_exp_minus_1)
  also have "\<dots> = fsum 16 4 (unat v8)"
    by (rule swar_step [OF v16_def]) (simp_all add: fmask_values)
  also have "\<dots> = fsum 8 8 (unat v4)"
    by (rule swar_step [OF v8_def]) (simp_all add: fmask_values)
  also have "\<dots> = fsum 4 16 (unat v2)"
    by (rule swar_step [OF v4_def]) (simp_all add: fmask_values)
  also have "\<dots> = fsum 2 32 (unat v1)"
    by (rule swar_step [OF v2_def]) (simp_all add: fmask_values)
  also have "\<dots> = fsum 1 64 (unat v)"
    by (rule swar_step [OF v1_def]) (simp_all add: fmask_values)
  also have "\<dots> = card {i. i < 64 \<and> bit v i}"
    by (simp only: fsum_one bit_unsigned_iff) simp
  finally have "fsum 64 1 (unat v32) = card {i. i < 64 \<and> bit v i}" .
  moreover have "fsum 64 1 (unat v32) = unat v32"
    using unsigned_less [of v32, where ?'a = nat] by (simp add: take_bit_nat_eq_self)
  ultimately show ?thesis by (simp only: c)
qed

section \<open>Patterns\<close>

definition pattern :: "nat \<Rightarrow> nat \<Rightarrow> nat \<Rightarrow> u64 \<Rightarrow> bool" where
  "pattern w S R v \<longleftrightarrow> (\<forall>i<64. bit v i \<longleftrightarrow> (i + R) mod w < S)"

lemma pattern_unique: "pattern w S R v \<Longrightarrow> pattern w S R v' \<Longrightarrow> v = v'"
  by (auto simp: pattern_def intro: bit_word_eqI)

lemma rotated:
  fixes i :: nat
  assumes "i < w" "R < w"
  shows "(i + R) mod w = (if i < w - R then i + R else i - (w - R))"
proof (cases "i + R < w")
  case False
  then have "(i + R) mod w = (i + R - w) mod w" "i + R - w < w"
    using assms le_mod_geq [of w "i + R"] by linarith+
  then have "(i + R) mod w = i + R - w" by simp
  then show ?thesis using False assms by auto
qed (use assms in auto)

lemma bit_RotateRight:
  assumes "w \<le> 64" "R < w" "S \<le> w" "i < w" 
  shows "bit (RotateRight (push_bit S 1 - 1) R w) i \<longleftrightarrow> (i + R) mod w < S"
proof -
  have r: "take_bit 6 R = R"
    using assms by (intro take_bit_nat_eq_self) simp
  have "i < 64" using assms by simp
  then show ?thesis
    using assms unfolding RotateRight_def r Let_def rotated [OF assms(4,2)] mask_word_eq
    by (auto simp: bit_or_iff bit_push_bit_iff bit_drop_bit_eq bit_and_iff bit_mask_iff)
qed

lemma bit_RepeatBits_loop:
  assumes "0 < w" and "\<forall>i. bit v i \<longrightarrow> i < w"
  shows "\<forall>i<64. bit (RepeatBits_loop 64 w v) i \<longleftrightarrow> bit v (i mod w)"
  using assms
proof (induction "64 - w" arbitrary: w v rule: less_induct)
  case less
  show ?case
  proof (cases "w < 64")
    case True
    define v' where "v' = v OR push_bit w v"
    have b: "bit v' i \<longleftrightarrow> i < w * 2 \<and> bit v (i mod w)" if "i < 64" for i
    proof -
      have "i < w * 2 \<Longrightarrow> \<not> i < w \<Longrightarrow> i mod w = i - w"
        using less.prems by (simp add: mod_if)
      then show ?thesis
        using that less.prems unfolding v'_def
        by (cases "i < w") (auto simp: bit_or_iff bit_push_bit_iff)
    qed
    have "\<forall>i. bit v' i \<longrightarrow> i < w * 2"
      using b bit_imp_le_length [of v'] by auto
    then have "\<forall>i<64. bit (RepeatBits_loop 64 (w * 2) v') i \<longleftrightarrow> bit v' (i mod (w * 2))"
      using True less.prems by (intro less.hyps) auto
    moreover have "bit v' (i mod (w * 2)) \<longleftrightarrow> bit v (i mod w)" if "i < 64" for i
    proof -
      have "i mod (w * 2) < 64" "i mod (w * 2) < w * 2"
        using less.prems le_less_trans [OF mod_less_eq_dividend that] by auto
      moreover have "i mod (w * 2) mod w = i mod w" by (simp add: mod_mod_cancel)
      ultimately show ?thesis using that b [of "i mod (w * 2)"] by simp
    qed
    ultimately show ?thesis
      using True less.prems by (subst RepeatBits_loop.simps) (simp add: v'_def)
  next
    case False
    then show ?thesis by (subst RepeatBits_loop.simps) simp
  qed
qed

lemma pattern_repeat:
  assumes "w \<le> 64" "R < w" "S < w" 
  shows "pattern w S R (RepeatBitsAcrossReg 64 (RotateRight (push_bit S 1 - 1) R w) w)"
proof -
  let ?r = "RotateRight (push_bit S 1 - 1) R w :: u64"
  have "bit (take_bit w ?r) i \<Longrightarrow> i < w" for i by (simp add: bit_take_bit_iff)
  then have "\<forall>i<64. bit (RepeatBits_loop 64 w (take_bit w ?r)) i \<longleftrightarrow> bit (take_bit w ?r) (i mod w)"
    using assms by (intro bit_RepeatBits_loop) auto
  moreover have "bit (take_bit w ?r) (i mod w) \<longleftrightarrow> (i + R) mod w < S" for i
    using assms bit_RotateRight [of w R S "i mod w"] by (simp add: bit_take_bit_iff mod_add_left_eq)
  ultimately show ?thesis
    unfolding pattern_def RepeatBitsAcrossReg_def and_mask_word by blast
qed

lemma pattern_rotate64:
  assumes "R < 64" "S \<le> 64" 
  shows "pattern 64 S R (RotateRight (push_bit S 1 - 1) R 64)"
  using assms bit_RotateRight [of 64 R S] by (auto simp: pattern_def)

section \<open>The decoder\<close>

lemma unat_take_bit_less: "n \<le> 63 \<Longrightarrow> unat (take_bit n (x :: u64)) < 2 ^ n"
  by (simp add: unsigned_take_bit_eq)

lemma unat_take_bit_Suc:
  assumes "take_bit n (x :: u64) \<noteq> mask n" "n \<le> 63"
  shows "unat (take_bit n x + 1) = Suc (unat (take_bit n x))" "Suc (unat (take_bit n x)) < 2 ^ n"
proof -
  have "unat (take_bit n x) \<noteq> unat (mask n :: u64)" using assms(1) unsigned_word_eqI by blast
  moreover have "unat (mask n :: u64) = 2 ^ n - 1"
    using assms(2) unat_minus_one [of "2 ^ n :: u64"] unat_pow2 [of n, where ?'a = 64] by (simp add: mask_eq_exp_minus_1)
  ultimately show lt: "Suc (unat (take_bit n x)) < 2 ^ n" using unat_take_bit_less [OF assms(2), of x] by linarith
  have "(2::nat) ^ n \<le> 2 ^ 63" using assms(2) by (intro power_increasing) auto
  then show "unat (take_bit n x + 1) = Suc (unat (take_bit n x))"
    using lt unat_add_lem [of "take_bit n x" 1] by simp
qed

lemma ImmLogical_loop_pattern:
  assumes "ImmLogical_loop 64 s r w = Some v" and "w = 2 ^ k" "k < 6" 
  shows "v = 0 \<or> (\<exists>k S R. 0 < k \<and> k < 6 \<and> 0 < S \<and> S < 2 ^ k \<and> R < 2 ^ k \<and> pattern (2 ^ k) S R v)"
  using assms
proof (induction k arbitrary: w)
  case 0
  then show ?case by (simp add: ImmLogical_loop.simps)
next
  case (Suc k)
  let ?m = "of_nat w - 1 :: u64"
  have m: "?m = mask (Suc k)" using Suc.prems by (simp add: mask_eq_exp_minus_1)
  have w: "2 \<le> w" "w div 2 = 2 ^ k" using Suc.prems by auto
  show ?case
  proof (cases "s AND of_nat w = 0 \<and> s AND ?m \<noteq> ?m")
    case False
    then show ?thesis
      using Suc.prems w Suc.IH [of "w div 2"] by (subst (asm) ImmLogical_loop.simps) (auto simp: Let_def split: if_splits)
  next
    case True
    define S where "S = unat (take_bit (Suc k) s + 1)"
    define R where "R = unat (take_bit (Suc k) r)"
    have "take_bit (Suc k) s \<noteq> mask (Suc k)" using True m by (simp add: take_bit_eq_mask)
    have v: "v = RepeatBitsAcrossReg 64 (RotateRight (push_bit S 1 - 1) R w) w"
      using Suc.prems(1) True w by (subst (asm) ImmLogical_loop.simps) (simp add: S_def R_def m take_bit_eq_mask Let_def)
    have "(2::nat) ^ Suc k \<le> 2 ^ 6" using Suc.prems by (intro power_increasing) auto
    then have "w \<le> 64" using Suc.prems by simp
    moreover have "0 < S" "S < w"
      using unat_take_bit_Suc [OF \<open>take_bit (Suc k) s \<noteq> _\<close>] Suc.prems by (auto simp: S_def)
    moreover have "R < w" using unat_take_bit_less [of "Suc k" r] Suc.prems by (simp add: R_def)
    moreover note calculation
    ultimately have "0 < S \<and> S < w \<and> R < w \<and> w \<le> 64" by blast
    then show ?thesis using pattern_repeat [of w R S] Suc.prems v by blast
  qed
qed

definition imm_s_word :: "nat \<Rightarrow> nat \<Rightarrow> u64" where
  "imm_s_word k x = take_bit 6 (NOT (mask (Suc k)) OR of_nat x)"

lemma bit_of_nat_below: "x < 2 ^ k \<Longrightarrow> bit (of_nat x :: u64) n \<longleftrightarrow> n < 64 \<and> n < k \<and> bit x n"
proof (cases "n < k")
  case False
  assume "x < 2 ^ k"
  then have "take_bit k x = x" by (rule take_bit_nat_eq_self)
  then have "\<not> bit x n" using False by (metis bit_take_bit_iff)
  then show ?thesis by (simp add: bit_of_nat_iff False)
qed (simp add: bit_of_nat_iff)

lemma bit_imm_s_word: "x < 2 ^ k \<Longrightarrow> bit (imm_s_word k x) n \<longleftrightarrow> n < 6 \<and> (k < n \<or> n < k \<and> bit x n)"
  by (auto simp: imm_s_word_def bit_take_bit_iff bit_or_iff bit_not_iff bit_mask_iff bit_of_nat_below)

lemma imm_s_word_low: "x < 2 ^ k \<Longrightarrow> k \<le> 6 \<Longrightarrow> imm_s_word k x AND mask k = of_nat x"
  by (rule bit_word_eqI) (auto simp: bit_and_iff bit_imm_s_word bit_mask_iff bit_of_nat_below)

lemma and_pow2_eq_0: "(s :: u64) AND of_nat (2 ^ k) = 0 \<longleftrightarrow> \<not> bit s k" if "k < 64"
  using that by (simp add: and_exp_eq_0_iff_not_bit)

lemma ImmLogical_loop_hit:
  assumes x: "Suc x < 2 ^ j" and R: "R < 2 ^ j" and j: "0 < j"
    and s: "s = imm_s_word j x" and "j \<le> k" "k < 6"
  shows "\<exists>v. ImmLogical_loop 64 s (of_nat R) (2 ^ k) = Some v \<and> pattern (2 ^ j) (Suc x) R v"
  using \<open>j \<le> k\<close> \<open>k < 6\<close>
proof (induction k)
  case 0
  then show ?case using j by simp
next
  case (Suc k)
  have x': "x < 2 ^ j" using x by simp
  have w: "2 \<le> (2::nat) ^ Suc k" by simp
  have pw: "(2::nat) ^ Suc k \<le> 2 ^ 6" using Suc.prems by (intro power_increasing) auto
  show ?case
  proof (cases "j = Suc k")
    case True
    have "\<not> bit s (Suc k)" using bit_imm_s_word [OF x'] s True by simp
    then have z: "s AND of_nat (2 ^ Suc k) = 0" using Suc.prems and_pow2_eq_0 [of "Suc k" s] by simp
    have m: "of_nat (2 ^ Suc k) - 1 = (mask (Suc k) :: u64)" by (simp add: mask_eq_exp_minus_1)
    have lo: "s AND mask (Suc k) = of_nat x" using imm_s_word_low [OF x'] s True Suc.prems by simp
    have b: "(2::nat) ^ j < 2 ^ 64" using True Suc.prems by (intro power_strict_increasing) auto
    have ux: "unat (of_nat x :: u64) = x" and uR: "unat (of_nat R :: u64) = R"
      and uS: "unat (of_nat x + 1 :: u64) = Suc x"
      using b x R unat_of_nat_small [of x] unat_of_nat_small [of R] unat_of_nat_small [of "Suc x"]
      by (simp_all add: add.commute)
    have "of_nat x \<noteq> (mask (Suc k) :: u64)"
    proof
      assume "of_nat x = (mask (Suc k) :: u64)"
      then have "(of_nat x + 1 :: u64) = 2 ^ j" using True by (simp add: mask_eq_exp_minus_1)
      then show False using x uS unat_pow2 [of j, where ?'a = 64] True Suc.prems by simp
    qed
    moreover have "of_nat R AND mask (Suc k) = (of_nat R :: u64)"
      by (rule bit_word_eqI) (use True in \<open>auto simp: bit_and_iff bit_mask_iff bit_of_nat_below [OF R]\<close>)
    ultimately have "ImmLogical_loop 64 s (of_nat R) (2 ^ Suc k)
        = Some (RepeatBitsAcrossReg 64 (RotateRight (push_bit (Suc x) 1 - 1) R (2 ^ Suc k)) (2 ^ Suc k))"
      using z w by (subst ImmLogical_loop.simps) (simp only: Let_def m lo uR uS if_True if_False simp_thms)
    then show ?thesis
      using pattern_repeat [of "2 ^ Suc k" R "Suc x"] pw x R True by simp
  next
    case False
    then have "bit s (Suc k)" using bit_imm_s_word [OF x'] s Suc.prems by simp
    then have "s AND of_nat (2 ^ Suc k) \<noteq> 0" using Suc.prems and_pow2_eq_0 [of "Suc k" s] by simp
    then show ?thesis using Suc.IH False Suc.prems w by (subst ImmLogical_loop.simps) simp
  qed
qed

section \<open>The encoder\<close>

text \<open>What the counts the encoder computes once, on all 64 bits, say of a window of \<open>w\<close> bits.\<close>

definition periodic :: "nat \<Rightarrow> u64 \<Rightarrow> bool" where
  "periodic w v \<longleftrightarrow> (\<forall>i<64. bit v i \<longleftrightarrow> bit v (i mod w))"

definition leads :: "nat \<Rightarrow> (nat \<Rightarrow> bool) \<Rightarrow> nat \<Rightarrow> bool" where
  "leads w P n \<longleftrightarrow> n \<le> w \<and> (\<forall>i<w. w - n \<le> i \<longrightarrow> \<not> P i) \<and> (n < w \<longrightarrow> P (w - 1 - n))"

definition trails :: "nat \<Rightarrow> (nat \<Rightarrow> bool) \<Rightarrow> nat \<Rightarrow> bool" where
  "trails w P n \<longleftrightarrow> n \<le> w \<and> (\<forall>i<n. \<not> P i) \<and> (n < w \<longrightarrow> P n)"

lemma CountLeadingZeros_loop_top:
  assumes "unat v < 2 ^ Suc n" "2 ^ n \<le> unat v"
  shows "CountLeadingZeros_loop v c = c + 1 + int n"
  using assms
proof (induction n arbitrary: v c)
  case 0
  then have "v = 1" by (metis One_nat_def Suc_1 le_antisym less_Suc_eq_le power_0 power_one_right unat_1 unsigned_word_eqI)
  then show ?case by (subst CountLeadingZeros_loop.simps) simp
next
  case (Suc n)
  have u: "unat (drop_bit 1 v) = unat v div 2"
    unfolding unat_drop_bit_eq by (simp add: drop_bit_eq_div)
  then have "CountLeadingZeros_loop (drop_bit 1 v) (c + 1) = c + 1 + 1 + int n"
    using Suc.prems by (intro Suc.IH) auto
  moreover have "drop_bit 1 v \<noteq> 0"
  proof
    assume "drop_bit 1 v = 0"
    then have "unat v div 2 = 0" using u by simp
    moreover have "2 \<le> unat v" using Suc.prems(2) by (rule le_trans [rotated]) simp
    ultimately show False by simp
  qed
  ultimately show ?case by (subst CountLeadingZeros_loop.simps) (simp add: Let_def del: drop_bit_Suc)
qed

lemma CountLeadingZeros_width_leads:
  "\<exists>n. CountLeadingZeros_width v 64 = int n \<and> leads 64 (bit v) n"
proof (cases "v = 0")
  case False
  then obtain k where k: "k < 64" "bit v k" "\<And>j. k < j \<Longrightarrow> \<not> bit v j" "2 ^ k \<le> unat v" "unat v < 2 ^ Suc k"
    using word_top_bit [of v] by auto
  then have "CountLeadingZeros_width v 64 = int (63 - k)"
    using False CountLeadingZeros_loop_top [of v k 0] by (simp add: CountLeadingZeros_width_def)
  moreover have "leads 64 (bit v) (63 - k)"
    using k by (auto simp: leads_def)
  ultimately show ?thesis by blast
qed (auto simp: CountLeadingZeros_width_def leads_def)

lemma takeWhile_trails: "trails n P (length (takeWhile (\<lambda>i. \<not> P i) [0..<n]))"
proof -
  let ?t = "takeWhile (\<lambda>i. \<not> P i) [0..<n]"
  have "length ?t \<le> n" using length_takeWhile_le [of _ "[0..<n]"] by simp
  moreover have "\<not> P i" if "i < length ?t" for i
    using that calculation takeWhile_nth [of i _ "[0..<n]"] set_takeWhileD [OF nth_mem [OF that]] by simp
  moreover have "P (length ?t)" if "length ?t < n"
    using that nth_length_takeWhile [of "\<lambda>i. \<not> P i" "[0..<n]"] by simp
  ultimately show ?thesis unfolding trails_def by blast
qed

lemma CountTrailingZeros_trails: "trails 64 (bit v) (CountTrailingZeros v)"
  unfolding CountTrailingZeros_def by (rule takeWhile_trails)

lemma leads_unique: "leads w P n \<Longrightarrow> leads w P m \<Longrightarrow> n = m"
proof (induction n m rule: linorder_wlog)
  case (le n m)
  show ?case
  proof (rule ccontr)
    assume "n \<noteq> m"
    then have "w - m \<le> w - 1 - n" "w - 1 - n < w" "n < w" using le by (auto simp: leads_def)
    then show False using le by (auto simp: leads_def)
  qed
qed auto

lemma trails_unique: "trails w P n \<Longrightarrow> trails w P m \<Longrightarrow> n = m"
  by (cases n m rule: linorder_cases) (auto simp: trails_def)

lemma window_mod:
  fixes w :: nat
  assumes "w dvd 64" "i < w"
  shows "(i + (64 - w)) mod w = i"
proof -
  have "w \<le> 64" using assms(1) by (auto dest: dvd_imp_le)
  then obtain q where "64 - w = w * q" using assms(1) by (metis dvd_diff_nat dvd_refl dvdE)
  then show ?thesis using assms(2) by simp
qed

lemma leads_window:
  assumes l: "leads 64 P n" and p: "\<And>i. i < 64 \<Longrightarrow> P i \<longleftrightarrow> P (i mod w)" and w: "w dvd 64" and e: "\<exists>i<w. P i"
  shows "leads w P n"
proof -
  have w64: "w \<le> 64" using w by (auto dest: dvd_imp_le)
  have s: "P i \<longleftrightarrow> P (i + (64 - w))" if "i < w" for i
    using p [of "i + (64 - w)"] window_mod [OF w that] that w64 by simp
  obtain j where j: "j < w" "P j" using e by blast
  then have "P (j + (64 - w))" using s by blast
  moreover have "\<not> 64 - n \<le> j + (64 - w)"
    using l j w64 calculation unfolding leads_def by auto
  ultimately have n: "n < w" using j w64 by linarith
  have "\<not> P i" if "i < w" "w - n \<le> i" for i
    using l s [OF that(1)] that n w64 unfolding leads_def by auto
  moreover have "P (w - 1 - n)"
  proof -
    have "P (64 - 1 - n)" using l n w64 by (auto simp: leads_def)
    moreover have "w - 1 - n + (64 - w) = 64 - 1 - n" using n w64 by simp
    ultimately show ?thesis using s [of "w - 1 - n"] n by simp
  qed
  ultimately show ?thesis using n by (auto simp: leads_def)
qed

lemma trails_window:
  assumes t: "trails 64 P n" and w: "w dvd 64" and e: "\<exists>i<w. P i"
  shows "trails w P n"
proof -
  have w64: "w \<le> 64" using w by (auto dest: dvd_imp_le)
  obtain j where j: "j < w" "P j" using e by blast
  then have "n < w" using t unfolding trails_def by (metis le_less_trans not_le)
  then show ?thesis using t w64 by (auto simp: trails_def)
qed


section \<open>Runs\<close>

lemma run_shape:
  assumes l: "leads w Q l" and t: "trails w Q t" and e: "\<exists>i<w. Q i" and c: "l + t + card {i. i < w \<and> Q i} = w"
  shows "l + t < w" "i < w \<Longrightarrow> Q i \<longleftrightarrow> t \<le> i \<and> i < w - l"
proof -
  have "t \<le> i" if "i < w" "Q i" for i
    by (rule leI) (use that t in \<open>auto simp: trails_def\<close>)
  moreover have "i < w - l" if "i < w" "Q i" for i
    by (rule ccontr) (use that l in \<open>simp add: leads_def\<close>)
  ultimately have sub: "{i. i < w \<and> Q i} \<subseteq> {t..<w - l}" by auto
  moreover have "card {t..<w - l} = card {i. i < w \<and> Q i}" using c by simp
  ultimately have eq: "{i. i < w \<and> Q i} = {t..<w - l}" by (intro card_subset_eq) auto
  obtain i where "i < w" "Q i" using e by blast
  then have "i \<in> {t..<w - l}" using sub by blast
  then show "l + t < w" by auto
  show "i < w \<Longrightarrow> Q i \<longleftrightarrow> t \<le> i \<and> i < w - l" for i
    using eq [THEN eqset_imp_iff, of i] by simp
qed

lemma card_window_le: "card {i. i < (w :: nat) \<and> P i} \<le> w"
  using card_mono [of "{..<w}" "{i. i < w \<and> P i}"] by (simp add: subset_eq)

lemma card_complement: "card {i. i < w \<and> \<not> P i} = w - card {i. i < (w :: nat) \<and> P i}"
proof -
  have "{i. i < w \<and> \<not> P i} = {..<w} - {i. i < w \<and> P i}" by auto
  moreover have "{i. i < w \<and> P i} \<subseteq> {..<w}" by auto
  ultimately show ?thesis by (simp add: card_Diff_subset finite_subset)
qed

lemma run_encodes:
  assumes lz: "leads w P lz" and lo: "leads w (\<lambda>i. \<not> P i) lo" and tz: "trails w P tz" and tr: "trails w (\<lambda>i. \<not> P i) tr"
    and sb: "sb = card {i. i < w \<and> P i}" and e: "\<exists>i<w. P i" and f: "\<exists>i<w. \<not> P i"
    and c: "lz + tz + sb = w \<or> lo + tr + (w - sb) = w"
    and R: "R = (if lz + sb = w then 0 else if 0 < lz then w - tz else lo)"
  shows "R < w \<and> (\<forall>i<w. P i \<longleftrightarrow> (i + R) mod w < sb)"
  using c
proof
  assume c: "lz + tz + sb = w"
  note sh = run_shape [OF lz tz e c [unfolded sb]]
  show ?thesis
  proof (cases "tz = 0")
    case True
    then have "w - lz = sb" using c by simp
    then show ?thesis using sh R c True by simp
  next
    case False
    have "\<not> P (tz - 1)" using False sh(1) sh(2) [of "tz - 1"] by simp
    then have "leads w (\<lambda>i. \<not> P i) (w - tz)" if "lz = 0"
      using that sh(1) sh(2) False by (auto simp: leads_def)
    then have "R = w - tz" using False R c leads_unique [OF lo, of "w - tz"] by auto
    moreover have "w - tz < w" using False sh(1) by simp
    moreover have "P i \<longleftrightarrow> (i + (w - tz)) mod w < sb" if "i < w" for i
      unfolding rotated [OF that \<open>w - tz < w\<close>] sh(2) [OF that] using that c sh(1) by auto
    ultimately show ?thesis by simp
  qed
next
  assume c: "lo + tr + (w - sb) = w"
  note sh = run_shape [OF lo tr f c [unfolded sb, folded card_complement]]
  have sb': "sb = lo + tr" 
    using c card_window_le [of w P] sb by simp
  show ?thesis
  proof (cases "lo = 0")
    case True
    have "tr - 1 < w" using sh(1) by simp
    then have "P (tr - 1)" if "0 < tr" using sh(2) [of "tr - 1"] that by auto
    then have "leads w P (w - tr)" using sh(1) sh(2) True by (auto simp: leads_def)
    then have "lz = w - tr" by (rule leads_unique [OF lz])
    then have "R = 0" using R sb' True sh(1) by simp
    moreover have "P i \<longleftrightarrow> (i + 0) mod w < sb" if "i < w" for i
      using sh(2) [OF that] that sb' True by auto
    ultimately show ?thesis using sh(1) by auto
  next
    case False
    have "P (w - 1)" using False sh(1) sh(2) [of "w - 1"] by auto
    then have "leads w P 0" by (simp add: leads_def)
    then have "lz = 0" by (rule leads_unique [OF lz])
    then have "R = lo" using R sb' sh(1) by simp
    moreover have "lo < w" using sh(1) by simp
    moreover have "P i \<longleftrightarrow> (i + lo) mod w < sb" if "i < w" for i
      unfolding rotated [OF that \<open>lo < w\<close>] using sh(2) [OF that] sb' sh(1) that by auto
    ultimately show ?thesis by simp
  qed
qed

lemma run_recognised:
  assumes lz: "leads w P lz" and lo: "leads w (\<lambda>i. \<not> P i) lo" and tz: "trails w P tz" and tr: "trails w (\<lambda>i. \<not> P i) tr"
    and sb: "sb = card {i. i < w \<and> P i}"
    and P: "\<And>i. i < w \<Longrightarrow> P i \<longleftrightarrow> (i + R) mod w < S" and S: "0 < S" "S < w" and R: "R < w"
  shows "lz + tz + sb = w \<or> lo + tr + (w - sb) = w"
proof (cases "R = 0 \<or> S \<le> R")
  case True
  define t where "t = (if R = 0 then 0 else w - R)"
  have t: "P i \<longleftrightarrow> t \<le> i \<and> i < t + S" if "i < w" for i
    unfolding P [OF that] rotated [OF that R] using True that R S by (auto simp: t_def)
  have tS: "t + S \<le> w" using True R S by (auto simp: t_def)
  then have e: "w - (w - (t + S)) = t + S" "w - 1 - (w - (t + S)) = t + S - 1" "t + S - 1 < w" "t < w"
    using S by simp_all
  have "P t" "P (t + S - 1)" using t [OF e(4)] t [OF e(3)] S by auto
  then have "trails w P t" "leads w P (w - (t + S))"
    using t e(4) unfolding trails_def leads_def e by auto
  then have "tz = t" "lz = w - (t + S)" using trails_unique [OF tz] leads_unique [OF lz] by simp_all
  moreover have "{i. i < w \<and> P i} = {t..<t + S}" using t tS by auto
  ultimately show ?thesis using sb tS by simp
next
  case False
  have p: "P i \<longleftrightarrow> i < S - R \<or> w - R \<le> i" if "i < w" for i
    unfolding P [OF that] rotated [OF that R] using False that S R by auto
  have e: "S - R < w" "w - 1 - R < w" "w - R \<le> w" using S R by simp_all
  have "\<not> P (S - R)" "\<not> P (w - 1 - R)" using p [OF e(1)] p [OF e(2)] False S R by auto
  then have "trails w (\<lambda>i. \<not> P i) (S - R)" "leads w (\<lambda>i. \<not> P i) R"
    using p e R unfolding trails_def leads_def by auto
  then have "tr = S - R" "lo = R" using trails_unique [OF tr] leads_unique [OF lo] by simp_all
  moreover have "{i. i < w \<and> \<not> P i} = {S - R..<w - R}" using p R by auto
  then have "w - sb = w - R - (S - R)" using sb card_complement [of w P] by simp
  ultimately show ?thesis using False S R by simp
qed

section \<open>The loop of the encoder\<close>

definition counts :: "u64 \<Rightarrow> nat \<Rightarrow> nat \<Rightarrow> nat \<Rightarrow> nat \<Rightarrow> nat \<Rightarrow> bool" where
  "counts v w lz lo tz tr \<longleftrightarrow>
     leads w (bit v) lz \<and> leads w (\<lambda>i. \<not> bit v i) lo \<and> trails w (bit v) tz \<and> trails w (\<lambda>i. \<not> bit v i) tr"

abbreviation ones :: "u64 \<Rightarrow> nat \<Rightarrow> nat" where
  "ones v w \<equiv> card {i. i < w \<and> bit v i}"

lemma periodicD: "periodic w v \<Longrightarrow> i < 64 \<Longrightarrow> bit v i \<longleftrightarrow> bit v (i mod w)"
  unfolding periodic_def by blast

lemma periodic_pattern:
  assumes p: "periodic w v" and P: "\<forall>i<w. bit v i \<longleftrightarrow> (i + R) mod w < S" and w: "0 < w"
  shows "pattern w S R v"
  unfolding pattern_def
proof (intro allI impI)
  fix i :: nat assume "i < 64"
  then have "bit v i \<longleftrightarrow> bit v (i mod w)" using p by (rule periodicD [rotated])
  also have "\<dots> \<longleftrightarrow> (i mod w + R) mod w < S" using P w by simp
  finally show "bit v i \<longleftrightarrow> (i + R) mod w < S" by (simp add: mod_add_left_eq)
qed

lemma pattern_periodic:
  assumes "pattern w S R v" "w dvd w'" "w dvd 64" "0 < w'"
  shows "periodic w' v"
  unfolding periodic_def
proof (intro allI impI)
  fix i :: nat assume i: "i < 64"
  have "i mod w' < 64" using i by (rule le_less_trans [OF mod_less_eq_dividend])
  moreover have "(i mod w' + R) mod w = (i + R) mod w"
    using assms(2) by (metis mod_add_left_eq mod_mod_cancel)
  ultimately show "bit v i \<longleftrightarrow> bit v (i mod w')"
    using assms(1) i by (simp add: pattern_def)
qed

lemma periodic_shift: "periodic w v \<Longrightarrow> i < w \<Longrightarrow> w + i < 64 \<Longrightarrow> bit v (w + i) \<longleftrightarrow> bit v i"
  using periodicD [of w v "w + i"] by (simp only: mod_add_self1 mod_less)

lemma periodic_inhabited:
  assumes "periodic w v" "0 < w"
  shows "v \<noteq> 0 \<Longrightarrow> \<exists>i<w. bit v i" "v \<noteq> - 1 \<Longrightarrow> \<exists>i<w. \<not> bit v i"
proof -
  assume "v \<noteq> 0"
  then obtain i where "i < 64" "bit v i" using word_top_bit [of v] by auto
  then have "bit v (i mod w)" using assms(1) periodicD by blast
  then show "\<exists>i<w. bit v i" using assms(2) by (intro exI [of _ "i mod w"]) simp
next
  assume "v \<noteq> - 1"
  then obtain i where "i < 64" "\<not> bit v i" using bit_word_eqI [of v "- 1"] by auto
  then have "\<not> bit v (i mod w)" using assms(1) periodicD by blast
  then show "\<exists>i<w. \<not> bit v i" using assms(2) by (intro exI [of _ "i mod w"]) simp
qed

lemma counts_window:
  assumes "counts v 64 lz lo tz tr" "periodic w v" "w dvd 64" "0 < w" "v \<noteq> 0" "v \<noteq> - 1"
  shows "counts v w lz lo tz tr"
proof -
  note e = periodic_inhabited [OF assms(2,4)]
  have p: "bit v i \<longleftrightarrow> bit v (i mod w)" "\<not> bit v i \<longleftrightarrow> \<not> bit v (i mod w)" if "i < 64" for i
    using periodicD [OF assms(2) that] by blast+
  show ?thesis
    using assms(1) unfolding counts_def
    using leads_window [OF _ p(1) assms(3) e(1) [OF assms(5)]] leads_window [OF _ p(2) assms(3) e(2) [OF assms(6)]]
      trails_window [OF _ assms(3) e(1) [OF assms(5)]] trails_window [OF _ assms(3) e(2) [OF assms(6)]]
    by blast
qed

lemma periodic_half:
  assumes p: "periodic (2 * w) v" and h: "v AND (push_bit w 1 - 1) = drop_bit w v AND (push_bit w 1 - 1)" and w: "0 < w" "w < 64"
  shows "periodic w v"
  unfolding periodic_def
proof (intro allI impI)
  fix i :: nat assume i: "i < 64"
  have same: "bit v j \<longleftrightarrow> bit v (w + j)" if "j < w" for j
    using arg_cong [OF h [unfolded and_mask_word], of "\<lambda>x. bit x j"] that w
    by (simp add: bit_take_bit_iff bit_drop_bit_eq)
  have "bit v i \<longleftrightarrow> bit v (i mod (2 * w))" using p i by (rule periodicD)
  also have "\<dots> \<longleftrightarrow> bit v (i mod (2 * w) mod w)"
  proof (cases "i mod (2 * w) < w")
    case False
    have lt: "i mod (2 * w) < 2 * w" using w by simp
    then have "i mod (2 * w) mod w = i mod (2 * w) - w" using False by (simp add: le_mod_geq)
    moreover have "i mod (2 * w) = w + (i mod (2 * w) - w)" using False by simp
    moreover have "i mod (2 * w) - w < w" using lt by linarith
    ultimately show ?thesis using same [of "i mod (2 * w) - w"] by simp
  qed simp
  also have "i mod (2 * w) mod w = i mod w" by (simp add: mod_mod_cancel)
  finally show "bit v i \<longleftrightarrow> bit v (i mod w)" .
qed

lemma half_periodic:
  assumes "periodic w v" "0 < w" "2 * w \<le> 64"
  shows "v AND (push_bit w 1 - 1) = drop_bit w v AND (push_bit w 1 - 1)"
  unfolding and_mask_word
proof (rule bit_word_eqI)
  fix i assume "i < LENGTH(64)"
  have "bit v i \<longleftrightarrow> bit v (w + i)" if "i < w"
    using periodic_shift [OF assms(1) that] assms(3) that by simp
  then show "bit (take_bit w v) i \<longleftrightarrow> bit (take_bit w (drop_bit w v)) i"
    by (auto simp: bit_take_bit_iff bit_drop_bit_eq)
qed

lemma ones_half:
  assumes "periodic w v" "0 < w" "2 * w \<le> 64"
  shows "ones v (2 * w) = 2 * ones v w"
proof -
  have s: "bit v (w + i) \<longleftrightarrow> bit v i" if "i < w" for i
    using periodic_shift [OF assms(1) that] assms(3) that by simp
  then have "x \<in> (+) w ` {i. i < w \<and> bit v i}" if "x < 2 * w" "bit v x" "\<not> x < w" for x
    using that s [of "x - w"] by (intro image_eqI [of _ _ "x - w"]) auto
  then have "{i. i < 2 * w \<and> bit v i} = {i. i < w \<and> bit v i} \<union> (+) w ` {i. i < w \<and> bit v i}"
    using s by auto
  moreover have "card ((+) w ` {i. i < w \<and> bit v i}) = ones v w" by (rule card_image) simp
  moreover have "{i. i < w \<and> bit v i} \<inter> (+) w ` {i. i < w \<and> bit v i} = {}" by auto
  ultimately show ?thesis by (simp add: card_Un_disjoint)
qed

definition imm_s_field :: "nat \<Rightarrow> nat \<Rightarrow> u8" where
  "imm_s_field k S = word_of_int ((- (2 ^ Suc k) OR (int S - 1)) AND 0x3F)"

definition encodes :: "Operand \<Rightarrow> u64 \<Rightarrow> bool" where
  "encodes oper v \<longleftrightarrow> (\<exists>k S R. 0 < k \<and> k \<le> 6 \<and> 0 < S \<and> S < 2 ^ k \<and> R < 2 ^ k \<and> pattern (2 ^ k) S R v \<and>
     oper = Operand_bitfield (if k = 6 then 1 else 0) (imm_s_field k S) (of_nat R))"

lemma encodesI:
  assumes "0 < k" "k \<le> 6" "0 < S" "S < 2 ^ k" "R < 2 ^ k" "pattern (2 ^ k) S R v"
  shows "encodes (Operand_bitfield (if k = 6 then 1 else 0) (imm_s_field k S) (of_nat R)) v"
  using assms unfolding encodes_def by blast

lemma width_two:
  assumes p: "periodic 2 v" and "v \<noteq> 0" "v \<noteq> - 1"
  shows "encodes (Operand_bitfield 0 0x3C (ucast ((v AND 3) - 1))) v"
proof -
  have a: "v AND 3 = take_bit 2 v" by (simp add: take_bit_eq_mask mask_eq_exp_minus_1)
  have lt2: "(\<forall>i<2. Q i) \<longleftrightarrow> Q 0 \<and> Q 1" "(\<exists>i<2. Q i) \<longleftrightarrow> Q 0 \<or> Q 1" for Q :: "nat \<Rightarrow> bool"
    by (auto simp: less_2_cases_iff)
  have e: "bit v 0 \<or> bit v 1" "\<not> bit v 0 \<or> \<not> bit v 1"
    using periodic_inhabited [OF p] assms by (auto simp: lt2)
  define R where "R = (if bit v 0 then 0 else 1 :: nat)"
  have "take_bit 2 v = of_nat (Suc R)"
    by (rule bit_word_eqI) (use e in \<open>auto simp: R_def bit_take_bit_iff less_2_cases_iff bit_1_iff bit_2_iff\<close>)
  then have "ucast ((v AND 3) - 1) = (of_nat R :: u8)"
    by (simp add: a R_def)
  moreover have "pattern 2 1 R v"
    by (rule periodic_pattern [OF p]) (use e in \<open>auto simp: R_def lt2\<close>)
  moreover have "imm_s_field 1 1 = 0x3C" by (simp add: imm_s_field_def)
  ultimately show ?thesis
    unfolding encodes_def by (intro exI [of _ 1] exI [of _ R]) (auto simp: R_def)
qed

lemma card_window_less:
  assumes "\<exists>i<w. \<not> P i"
  shows "card {i. i < (w :: nat) \<and> P i} < w"
proof -
  obtain j where "j < w" "\<not> P j" using assms by blast
  then have "{i. i < w \<and> P i} \<subset> {..<w}" by auto
  then have "card {i. i < w \<and> P i} < card {..<w}" by (intro psubset_card_mono) simp
  then show ?thesis by simp
qed

lemma loop_window:
  assumes c: "counts v w lz lo tz tr" and e: "\<exists>i<w. bit v i" "\<exists>i<w. \<not> bit v i"
    and h: "lz + tz + ones v w = w \<or> lo + tr + (w - ones v w) = w"
    and p: "periodic w v" and w: "w = 2 ^ k" "0 < k" "k \<le> 6"
  shows "encodes (Operand_bitfield (if w = 64 then 1 else 0) (imm_s_field k (ones v w))
     (of_nat (if lz + ones v w = w then 0 else if 0 < lz then w - tz else lo))) v"
proof -
  define R where "R = (if lz + ones v w = w then 0 else if 0 < lz then w - tz else lo)"
  define S where "S = ones v w"
  have cs: "leads w (bit v) lz" "leads w (\<lambda>i. \<not> bit v i) lo" "trails w (bit v) tz" "trails w (\<lambda>i. \<not> bit v i) tr"
    using c unfolding counts_def by blast+
  have r: "R < w" "\<forall>i<w. bit v i \<longleftrightarrow> (i + R) mod w < S"
    using run_encodes [OF cs refl e h R_def] unfolding S_def by blast+
  have "{i. i < w \<and> bit v i} \<noteq> {}" using e(1) by blast
  then have S0: "0 < S" unfolding S_def card_gt_0_iff by simp
  have Sw: "S < w" unfolding S_def by (rule card_window_less [OF e(2)])
  have "w = 64 \<longleftrightarrow> 2 ^ k = (2 ^ 6 :: nat)" using w by simp
  then have w64: "w = 64 \<longleftrightarrow> k = 6" by (simp only: power_inject_exp)
  have "pattern w S R v" using w r(1) by (intro periodic_pattern [OF p r(2)]) simp
  then have "encodes (Operand_bitfield (if k = 6 then 1 else 0) (imm_s_field k S) (of_nat R)) v"
    using encodesI [OF w(2,3) S0] Sw r(1) unfolding w(1) by blast
  then have "encodes (Operand_bitfield (if w = 64 then 1 else 0) (imm_s_field k S) (of_nat R)) v"
    unfolding w64 .
  then show ?thesis unfolding R_def S_def .
qed

lemma loop_step:
  assumes w: "w \<noteq> 2" "2 < w" and b: "sb \<le> w" "tz \<le> w"
  shows "IsImmLogical_loop v w (int lz) (int lo) (int tz) (int tr) (int sb) (- (2 ^ Suc k)) =
    (if lz + tz + sb = w \<or> lo + tr + (w - sb) = w
     then Some (Operand_bitfield (if w = 64 then 1 else 0) (imm_s_field k sb)
                 (of_nat (if lz + sb = w then 0 else if 0 < lz then w - tz else lo)))
     else if v AND (push_bit (w div 2) 1 - 1) = drop_bit (w div 2) v AND (push_bit (w div 2) 1 - 1)
     then IsImmLogical_loop v (w div 2) (int lz) (int lo) (int tz) (int tr) (int (sb div 2)) (- (2 ^ k))
     else None)"
proof -
  have i: "int lz + int sb = int w \<longleftrightarrow> lz + sb = w" "int lz + int tz + int sb = int w \<longleftrightarrow> lz + tz + sb = w"
    "int lo + int tr + (int w - int sb) = int w \<longleftrightarrow> lo + tr + (w - sb) = w"
    "int w - int tz = int (w - tz)" "0 < int lz \<longleftrightarrow> 0 < lz" "int sb div 2 = int (sb div 2)" "(- (2 ^ Suc k) :: int) div 2 = - (2 ^ k)"
    using b by (auto simp: of_nat_diff)
  have r: "(if lz + sb = w then 0 else word_of_int (if 0 < lz then int (w - tz) else int lo)) =
      (of_nat (if lz + sb = w then 0 else if 0 < lz then w - tz else lo) :: u8)"
    by simp
  have if_or: "(if a then x else if b then x else y) = (if a \<or> b then x else y)" for a b and x y :: "Operand option"
    by simp
  show ?thesis
    by (subst IsImmLogical_loop.simps)
      (simp only: w Let_def i r imm_s_field_def [symmetric] if_True if_False simp_thms if_or)
qed

lemma loop_setup:
  assumes "counts v 64 lz lo tz tr" "v \<noteq> 0" "v \<noteq> - 1" "0 < k" "k < 6" "periodic (2 ^ Suc k) v"
  shows "counts v (2 ^ Suc k) lz lo tz tr" "\<exists>i<2 ^ Suc k. bit v i" "\<exists>i<2 ^ Suc k. \<not> bit v i"
    and "(2::nat) ^ Suc k \<noteq> 2" "2 < (2::nat) ^ Suc k" "tz \<le> 2 ^ Suc k" "(2::nat) ^ Suc k div 2 = 2 ^ k" "2 * 2 ^ k \<le> (64::nat)"
proof -
  have "(2::nat) ^ Suc k dvd 2 ^ 6" using assms by (intro le_imp_power_dvd) simp
  then have d: "(2::nat) ^ Suc k dvd 64" by simp
  show c: "counts v (2 ^ Suc k) lz lo tz tr" using counts_window [OF assms(1,6) d _ assms(2,3)] by simp
  show "\<exists>i<2 ^ Suc k. bit v i" "\<exists>i<2 ^ Suc k. \<not> bit v i"
    using periodic_inhabited [OF assms(6)] assms(2,3) by simp_all
  show "tz \<le> 2 ^ Suc k" using c by (simp add: counts_def trails_def)
  have "(1::nat) < 2 ^ k" using assms(4) by (intro one_less_power) simp_all
  then show "(2::nat) ^ Suc k \<noteq> 2" "2 < (2::nat) ^ Suc k" using assms(4) by simp_all
  show "(2::nat) ^ Suc k div 2 = 2 ^ k" by simp
  show "2 * 2 ^ k \<le> (64::nat)" using dvd_imp_le [OF d] by simp
qed

lemma IsImmLogical_loop_sound:
  assumes base: "counts v 64 lz lo tz tr" "v \<noteq> 0" "v \<noteq> - 1"
  shows "k < 6 \<Longrightarrow> periodic (2 ^ Suc k) v \<Longrightarrow>
    IsImmLogical_loop v (2 ^ Suc k) (int lz) (int lo) (int tz) (int tr) (int (ones v (2 ^ Suc k))) (- (2 ^ Suc (Suc k))) = Some oper \<Longrightarrow>
    encodes oper v"
proof (induction k)
  case 0
  then have "oper = Operand_bitfield 0 0x3C (ucast ((v AND 3) - 1))"
    by (subst (asm) IsImmLogical_loop.simps) simp
  then show ?case using width_two [of v] 0 base by simp
next
  case (Suc k)
  note st = loop_setup [OF base zero_less_Suc Suc.prems(1,2)]
  let ?w = "2 ^ Suc (Suc k) :: nat"
  note eq = Suc.prems(3) [unfolded loop_step [OF st(4,5) card_window_le st(6)] st(7)]
  show ?case
  proof (cases "lz + tz + ones v ?w = ?w \<or> lo + tr + (?w - ones v ?w) = ?w")
    case True
    then show ?thesis
      using loop_window [OF st(1-3) True Suc.prems(2) refl] eq [unfolded if_P [OF True]] Suc.prems(1)
      by (simp only: option.inject)
  next
    case False
    note eq' = eq [unfolded if_not_P [OF False]]
    have h: "v AND (push_bit (2 ^ Suc k) 1 - 1) = drop_bit (2 ^ Suc k) v AND (push_bit (2 ^ Suc k) 1 - 1)"
      by (rule ccontr) (use eq' in simp)
    have p: "periodic (2 ^ Suc k) v"
      using periodic_half [OF _ h] Suc.prems(2) st(8) by simp
    have "ones v ?w div 2 = ones v (2 ^ Suc k)"
      using ones_half [OF p] st(8) by simp
    then show ?thesis using Suc.IH [OF _ p] eq' [unfolded if_P [OF h]] Suc.prems(1) by simp
  qed
qed

lemma IsImmLogical_loop_complete:
  assumes base: "counts v 64 lz lo tz tr" "v \<noteq> 0" "v \<noteq> - 1"
    and pat: "pattern (2 ^ j) S R v" "0 < j" "0 < S" "S < 2 ^ j" "R < 2 ^ j"
  shows "k < 6 \<Longrightarrow> j \<le> Suc k \<Longrightarrow>
    IsImmLogical_loop v (2 ^ Suc k) (int lz) (int lo) (int tz) (int tr) (int (ones v (2 ^ Suc k))) (- (2 ^ Suc (Suc k))) \<noteq> None"
proof (induction k)
  case 0
  then show ?case by (subst IsImmLogical_loop.simps) simp
next
  case (Suc k)
  have per: "periodic (2 ^ n) v" if "j \<le> n" "n \<le> 6" for n
  proof -
    have "(2::nat) ^ j dvd 2 ^ 6" using that by (intro le_imp_power_dvd) simp
    then show ?thesis using that by (intro pattern_periodic [OF pat(1)] le_imp_power_dvd) simp_all
  qed
  note st = loop_setup [OF base zero_less_Suc Suc.prems(1) per [OF Suc.prems(2) Suc_leI [OF Suc.prems(1)]]]
  let ?w = "2 ^ Suc (Suc k) :: nat"
  note step = loop_step [OF st(4,5) card_window_le st(6)] st(7)
  show ?case
  proof (cases "j = Suc (Suc k)")
    case True
    have "(2::nat) ^ j \<le> 64" using st(8) True by simp
    then have "bit v i \<longleftrightarrow> (i + R) mod ?w < S" if "i < ?w" for i
      using pat(1) that True by (simp add: pattern_def)
    then have "lz + tz + ones v ?w = ?w \<or> lo + tr + (?w - ones v ?w) = ?w"
      using st(1) pat(3-5) True unfolding counts_def
      by (intro run_recognised [of ?w "bit v" lz lo tz tr _ R S]) simp_all
    then show ?thesis unfolding step by simp
  next
    case False
    then have j: "j \<le> Suc k" using Suc.prems(2) by simp
    have p: "periodic (2 ^ Suc k) v" using per [OF j] Suc.prems(1) by simp
    have "ones v ?w div 2 = ones v (2 ^ Suc k)"
      using ones_half [OF p] st(8) by simp
    moreover have "v AND (push_bit (2 ^ Suc k) 1 - 1) = drop_bit (2 ^ Suc k) v AND (push_bit (2 ^ Suc k) 1 - 1)"
      using half_periodic [OF p] st(8) by simp
    ultimately show ?thesis
      unfolding step using Suc.IH [OF _ j] Suc.prems(1) by (simp del: power_Suc)
  qed
qed

lemma counts_IsImmLogical:
  "\<exists>lz lo. CountLeadingZeros_width v 64 = int lz \<and> CountLeadingZeros_width (NOT v) 64 = int lo \<and>
     counts v 64 lz lo (CountTrailingZeros v) (CountTrailingZeros (NOT v))"
proof -
  obtain lz lo where l: "CountLeadingZeros_width v 64 = int lz" "leads 64 (bit v) lz"
      "CountLeadingZeros_width (NOT v) 64 = int lo" "leads 64 (bit (NOT v)) lo"
    using CountLeadingZeros_width_leads [of v] CountLeadingZeros_width_leads [of "NOT v"] by blast
  have b: "bit (NOT v) i \<longleftrightarrow> \<not> bit v i" if "i < 64" for i
    using that by (simp add: bit_not_iff)
  have "leads 64 (\<lambda>i. \<not> bit v i) lo" using l(4) b unfolding leads_def by auto
  moreover have "trails 64 (\<lambda>i. \<not> bit v i) (CountTrailingZeros (NOT v))"
    using CountTrailingZeros_trails [of "NOT v"] b unfolding trails_def by auto
  ultimately show ?thesis
    using l CountTrailingZeros_trails [of v] unfolding counts_def by blast
qed

lemma periodic_64: "periodic 64 v"
  by (simp add: periodic_def)

lemma IsImmLogical_64:
  assumes "v \<noteq> 0" "v \<noteq> - 1"
  obtains lz lo tz tr where "counts v 64 lz lo tz tr"
    "IsImmLogical v 64 = IsImmLogical_loop v (2 ^ Suc 5) (int lz) (int lo) (int tz) (int tr) (int (ones v (2 ^ Suc 5))) (- (2 ^ Suc (Suc 5)))"
proof -
  obtain lz lo where l: "CountLeadingZeros_width v 64 = int lz" "CountLeadingZeros_width (NOT v) 64 = int lo"
     "counts v 64 lz lo (CountTrailingZeros v) (CountTrailingZeros (NOT v))"
    using counts_IsImmLogical by blast
  have m: "(0xffffffffffffffff :: u64) = - 1" by simp
  have g: "\<not> (v = 0 \<or> v = 0xffffffffffffffff \<or> (64 = (32::nat) \<and> v = 0xffffffff))"
    unfolding m using assms by simp
  have n: "int 64 = 64" "uint (CountOneBits_width v 64) = int (ones v 64)" "(2::nat) ^ Suc 5 = 64" "- (2 ^ Suc (Suc 5)) = (- 128 :: int)" 
    by (simp_all add: CountOneBits_width_64 [symmetric] del: IsImmLogical_loop.simps)
  show thesis
    by (rule that [OF l(3)]) (simp only: IsImmLogical_def if_not_P [OF g] Let_def n l refl if_True)
qed

lemma IsImmLogical_encodes:
  assumes "IsImmLogical v 64 = Some oper"
  shows "encodes oper v"
proof -
  have "(0xffffffffffffffff :: u64) = - 1" by simp
  then have v: "v \<noteq> 0" "v \<noteq> - 1" using assms unfolding IsImmLogical_def by auto
  then show ?thesis
  proof (rule IsImmLogical_64)
    fix lz lo tz tr
    assume c: "counts v 64 lz lo tz tr" and "IsImmLogical v 64 = IsImmLogical_loop v (2 ^ Suc 5) (int lz) (int lo) (int tz) (int tr) (int (ones v (2 ^ Suc 5))) (- (2 ^ Suc (Suc 5)))"
    then show ?thesis
      using IsImmLogical_loop_sound [OF c v, of 5 oper] assms periodic_64 by simp
  qed
qed

lemma IsImmLogical_pattern:
  assumes "pattern (2 ^ j) S R v" "0 < j" "j \<le> 6" "0 < S" "S < 2 ^ j" "R < 2 ^ j"
  shows "\<exists>oper. IsImmLogical v 64 = Some oper"
proof -
  have "(2::nat) ^ j \<le> 2 ^ 6" using assms(3) by (intro power_increasing) simp_all
  then have w: "(2::nat) ^ j \<le> 64" by simp
  define a where "a = (if R = 0 then 0 else 2 ^ j - R)"
  have a: "a < 64" "(a + R) mod 2 ^ j = 0" using w assms(6) by (auto simp: a_def)
  have b: "2 ^ j - 1 - R < 64" "(2 ^ j - 1 - R + R) mod 2 ^ j = 2 ^ j - (1::nat)" using w assms(6) by auto
  have "bit v a" "\<not> bit v (2 ^ j - 1 - R)"
    using assms(1,4,5) a b unfolding pattern_def by auto
  then have v: "v \<noteq> 0" "v \<noteq> - 1" using b(1) by auto
  then show ?thesis
  proof (rule IsImmLogical_64)
    fix lz lo tz tr
    assume c: "counts v 64 lz lo tz tr" and "IsImmLogical v 64 = IsImmLogical_loop v (2 ^ Suc 5) (int lz) (int lo) (int tz) (int tr) (int (ones v (2 ^ Suc 5))) (- (2 ^ Suc (Suc 5)))"
    then show ?thesis
      using IsImmLogical_loop_complete [OF c v assms(1,2,4,5,6), of 5] assms(3) by simp
  qed
qed

section \<open>The fields of an emitted instruction\<close>

lemma imm_s_field_word:
  assumes "0 < S" "S \<le> 2 ^ k" "k \<le> 6"
  shows "take_bit 6 (imm_s_field k S) = imm_s_field k S" "ucast (imm_s_field k S) = imm_s_word k (S - 1)"
proof -
  have "(- (2 ^ Suc k) :: int) = NOT (mask (Suc k))" by (simp add: not_eq_complement mask_eq_exp_minus_1)
  moreover have "int S - 1 = int (S - 1)" using assms by simp
  moreover have "(0x3F :: int) = mask 6" by (simp add: mask_eq_exp_minus_1)
  ultimately have f: "imm_s_field k S = word_of_int (take_bit 6 (NOT (mask (Suc k)) OR int (S - 1)))"
    by (simp only: imm_s_field_def take_bit_eq_mask)
  then show "take_bit 6 (imm_s_field k S) = imm_s_field k S"
    by (intro bit_word_eqI) (auto simp: bit_take_bit_iff bit_word_of_int_iff bit_or_iff)
  show "ucast (imm_s_field k S) = imm_s_word k (S - 1)"
    unfolding f imm_s_word_def
    by (rule bit_word_eqI) (auto simp: bit_take_bit_iff bit_word_of_int_iff bit_ucast_iff bit_or_iff bit_not_iff bit_mask_iff bit_of_nat_iff)
qed

lemma small_cast:
  assumes "take_bit 6 (x :: u8) = x"
  shows "(scast x :: i32) = ucast x" "fits 6 (ucast x)"
proof -
  have b: "bit x n \<Longrightarrow> n < 6" for n
    using arg_cong [OF assms, of "\<lambda>y. bit y n"] by (auto simp: bit_take_bit_iff)
  then show "fits 6 (ucast x)" unfolding fits_def
    by (intro bit_word_eqI) (auto simp: bit_take_bit_iff bit_ucast_iff)
  have "\<not> bit x 7" "7 < n \<Longrightarrow> \<not> bit x n" for n using b [of 7] b [of n] by auto
  then show "(scast x :: i32) = ucast x"
    by (intro bit_word_eqI) (auto simp: bit_signed_iff bit_ucast_iff min_def le_less)
qed

lemma EmitLogicalImmOp_fields:
  assumes n: "n = of_bool b" and s: "take_bit 6 (s :: u8) = s" and r: "take_bit 6 (r :: u8) = r" and rd: "rd < 34" "rn < 34"
    and i: "i = hd (EmitLogicalImmOp op rd rn (Operand_bitfield n s r) kDoubleWord)"
  shows "SFField i = 1" "NField i = ucast n" "ImmSField i = ucast s" "ImmRField i = ucast r"
    and "RdField i = ConcreteRegister rd" "RnField i = ConcreteRegister rn"
    and "Bits i 29 2 = (case op of ANDI \<Rightarrow> 0 | ORRI \<Rightarrow> 1 | EORI \<Rightarrow> 2 | ANDIS \<Rightarrow> 3)"
    and "IsDPImmediateOp i" "IsLogicalImmOp i" "\<not> IsMoveWideOp i" "\<not> IsAddSubImmOp i" "\<not> IsBitfieldOp i"
    and "\<not> IsLoadStoreOp i" "\<not> IsAddSubShiftExtOp i"
proof -
  have f: "fits 6 (ucast s)" "fits 6 (ucast r)" "fits 5 (of_nat (ConcreteRegister rd))" "fits 5 (of_nat (ConcreteRegister rn))"
    using small_cast(2) [OF s] small_cast(2) [OF r] fits_creg rd by auto
  have e: "i = LogicalImmOp_bits op OR B31 OR of_nat (ConcreteRegister rd) OR push_bit 5 (of_nat (ConcreteRegister rn)) OR
     (push_bit 22 (ucast n) OR push_bit 10 (ucast s) OR push_bit 16 (ucast r))"
    unfolding i EmitLogicalImmOp_def Operand_bitfield_def size_bit_def Rd_def Rn_def small_cast(1) [OF s] small_cast(1) [OF r]
    by simp
  show "SFField i = 1" "ImmSField i = ucast s" "ImmRField i = ucast r" "NField i = ucast n"
    using f unfolding e n by (cases op; cases b; simp add: codec_simps)+
  show "RdField i = ConcreteRegister rd" "RnField i = ConcreteRegister rn"
    using f rd unfolding e n by (cases op; cases b; simp add: codec_simps unat_creg)+
  show "Bits i 29 2 = (case op of ANDI \<Rightarrow> 0 | ORRI \<Rightarrow> 1 | EORI \<Rightarrow> 2 | ANDIS \<Rightarrow> 3)"
    using f unfolding e n by (cases op; cases b; simp add: codec_simps)
  show "IsDPImmediateOp i" "IsLogicalImmOp i" "\<not> IsMoveWideOp i" "\<not> IsAddSubImmOp i" "\<not> IsBitfieldOp i"
    "\<not> IsLoadStoreOp i" "\<not> IsAddSubShiftExtOp i"
    using f unfolding e n by (cases op; cases b; simp add: codec_simps)+
qed

lemma scast_ucast_8: "(scast (ucast (x :: u8) :: i32) :: i64) = ucast x"
  by (rule bit_word_eqI) (auto simp: bit_signed_iff bit_ucast_iff min_def dest: bit_imp_le_length)

lemma ImmLogical_fields:
  assumes sf: "SFField i = 1" and n: "NField i = of_bool (k = 6)" and s: "ImmSField i = ucast (imm_s_field k S)"
    and r: "ImmRField i = ucast (of_nat R :: u8)"
    and k: "0 < k" "k \<le> 6" and S: "0 < S" "S < 2 ^ k" and R: "R < 2 ^ k"
  shows "\<exists>v. ImmLogical i = Some v \<and> pattern (2 ^ k) S R v"
proof -
  have "(2::nat) ^ k \<le> 2 ^ 6" using k by (intro power_increasing) simp_all
  then have R6: "R < 64" using R by simp
  have sw: "scast (ImmSField i) = imm_s_word k (S - 1)"
    unfolding s scast_ucast_8 using imm_s_field_word(2) S k by simp
  have rw: "scast (ImmRField i) = (of_nat R :: i64)"
    unfolding r scast_ucast_8 using R6 by (simp add: unsigned_of_nat take_bit_nat_eq_self)
  show ?thesis
  proof (cases "k = 6")
    case True
    have "imm_s_word k (S - 1) = of_nat (S - 1)"
      by (rule bit_word_eqI) (use S True bit_imm_s_word [of "S - 1" k] bit_of_nat_below [of "S - 1" k] in auto)
    moreover have "unat (of_nat (S - 1) + 1 :: u64) = S" "unat (of_nat R :: u64) = R" "unat (of_nat (S - 1) :: u64) < 63"
      using S R6 True unat_of_nat_small [of S] unat_of_nat_small [of R] unat_of_nat_small [of "S - 1"] by simp_all
    moreover have "of_nat (S - 1) \<noteq> (0x3F :: u64)" using calculation(4) by auto
    moreover have "pattern 64 S R (RotateRight (push_bit S 1 - 1) R 64)"
      using R6 S True by (intro pattern_rotate64) simp_all
    ultimately show ?thesis
      unfolding ImmLogical_def Let_def sf n sw rw using True by simp
  next
    case False
    have "signed_drop_bit 1 (imm_s_word k (S - 1)) \<noteq> 0x1F"
    proof
      assume eq: "signed_drop_bit 1 (imm_s_word k (S - 1)) = 0x1F"
      have "k - 1 < 5" using False k by linarith
      have "(0x1F :: u64) = mask 5" by (simp add: mask_eq_exp_minus_1)
      then have "bit (signed_drop_bit 1 (imm_s_word k (S - 1))) (k - 1)"
        unfolding eq using \<open>k - 1 < 5\<close> by (simp only: bit_mask_iff) simp
      then have "bit (imm_s_word k (S - 1)) k"
        using k \<open>k - 1 < 5\<close> by (simp add: bit_signed_drop_bit_iff split: if_splits)
      then show False using bit_imm_s_word [OF less_imp_diff_less [OF S(2)], of 1 k] by simp
    qed
    then show ?thesis
      using ImmLogical_loop_hit [of "S - 1" k R "imm_s_word k (S - 1)" 5] False k S R
      unfolding ImmLogical_def Let_def sf n sw rw by simp
  qed
qed

lemma ImmLogical_encodes:
  assumes "encodes oper v" "rd < 34" "rn < 34"
  shows "ImmLogical (hd (EmitLogicalImmOp op rd rn oper kDoubleWord)) = Some v"
proof -
  let ?i = "hd (EmitLogicalImmOp op rd rn oper kDoubleWord)"
  obtain k S R where k: "0 < k" "k \<le> 6" and S: "0 < S" "S < 2 ^ k" and R: "R < 2 ^ k" and p: "pattern (2 ^ k) S R v"
    and oper: "oper = Operand_bitfield (of_bool (k = 6)) (imm_s_field k S) (of_nat R)"
    using assms(1) unfolding encodes_def of_bool_def by blast
  have "(2::nat) ^ k \<le> 2 ^ 6" using k by (intro power_increasing) simp_all
  then have "take_bit 6 (of_nat R :: u8) = of_nat R"
    using R by (simp add: take_bit_of_nat take_bit_nat_eq_self)
  note f = EmitLogicalImmOp_fields [OF refl imm_s_field_word(1) this assms(2,3) refl, where b = "k = 6" and op = op]
  have "\<exists>v'. ImmLogical ?i = Some v' \<and> pattern (2 ^ k) S R v'"
    by (rule ImmLogical_fields) (use f [of S k, folded oper] k S R in simp_all)
  then show ?thesis using pattern_unique [OF p] by auto
qed

lemma take_bit_6_field: "take_bit 6 (scast (take_bit 6 (x :: i32)) :: i64) = scast (take_bit 6 x)"
  by (rule bit_word_eqI) (auto simp: bit_take_bit_iff bit_signed_iff min_def)

lemma ImmLogical_pattern:
  assumes sf: "SFField i = 1" and "ImmLogical i = Some v" "v \<noteq> 0"
  shows "\<exists>k S R. 0 < k \<and> k \<le> 6 \<and> 0 < S \<and> S < 2 ^ k \<and> R < 2 ^ k \<and> pattern (2 ^ k) S R v"
proof -
  let ?s = "scast (ImmSField i) :: i64" and ?r = "scast (ImmRField i) :: i64"
  have t: "take_bit 6 ?s = ?s" "take_bit 6 ?r = ?r"
    by (simp_all add: ImmSField_def ImmRField_def Bits_eq take_bit_6_field)
  show ?thesis
  proof (cases "(scast (NField i) :: i64) = 1")
    case True
    then have ne: "?s \<noteq> 0x3F" and v: "v = RotateRight (push_bit (unat (?s + 1)) 1 - 1) (unat ?r) 64"
      using assms unfolding ImmLogical_def by (auto simp: Let_def split: if_splits)
    have "(0x3F :: u64) = mask 6" by (simp add: mask_eq_exp_minus_1)
    then have "unat (?s + 1) = Suc (unat ?s)" "Suc (unat ?s) < 64"
      using unat_take_bit_Suc [of 6 ?s] ne t by simp_all
    moreover have "unat ?r < 64" using unat_take_bit_less [of 6 ?r] t by simp
    ultimately show ?thesis
      using pattern_rotate64 [of "unat ?r" "unat (?s + 1)"] v
      by (intro exI [of _ 6] exI [of _ "unat (?s + 1)"] exI [of _ "unat ?r"]) simp
  next
    case False
    then have "ImmLogical_loop 64 ?s ?r (2 ^ 5) = Some v"
      using assms unfolding ImmLogical_def by (auto simp: Let_def split: if_splits)
    from ImmLogical_loop_pattern [OF this refl] assms(3) show ?thesis by (auto intro: less_imp_le)
  qed
qed

lemma encodes_operand:
  assumes "encodes oper v"
  obtains b s r where "oper = Operand_bitfield (of_bool b) s r" "take_bit 6 s = s" "take_bit 6 r = r"
proof -
  obtain k S R where k: "0 < k" "k \<le> 6" and S: "0 < S" "S < 2 ^ k" and R: "R < 2 ^ k"
    and oper: "oper = Operand_bitfield (of_bool (k = 6)) (imm_s_field k S) (of_nat R)"
    using assms unfolding encodes_def of_bool_def by blast
  have "(2::nat) ^ k \<le> 2 ^ 6" using k by (intro power_increasing) simp_all
  then have "take_bit 6 (of_nat R :: u8) = of_nat R"
    using R by (simp add: take_bit_of_nat take_bit_nat_eq_self)
  then show thesis using that [OF oper imm_s_field_word(1)] S k by simp
qed

lemma encodes_nonzero: "encodes oper v \<Longrightarrow> v \<noteq> 0"
proof
  assume "encodes oper v" "v = 0"
  then obtain k S R where k: "0 < k" "k \<le> 6" and S: "0 < S" and R: "R < 2 ^ k" and p: "pattern (2 ^ k) S R 0"
    unfolding encodes_def by blast
  have "(2::nat) ^ k \<le> 2 ^ 6" using k by (intro power_increasing) simp_all
  then have "(if R = 0 then 0 else 2 ^ k - R) < 64" "((if R = 0 then 0 else 2 ^ k - R) + R) mod 2 ^ k < S"
    using R S by (auto split: if_splits)
  then show False using p unfolding pattern_def by (metis bit_0_eq bot_apply bot_bool_def)
qed

section \<open>The round trip\<close>

text \<open>C3. Every 64-bit value that \<open>IsImmLogical\<close> accepts is the value the simulator decodes from the
  logical instruction emitted for the operand it returns, for each of the four logical operations
  and any two registers.\<close>

theorem IsImmLogical_roundtrip:
  assumes "IsImmLogical v 64 = Some oper" "rd < 34" "rn < 34"
  shows "ImmLogical (hd (EmitLogicalImmOp op rd rn oper kDoubleWord)) = Some v"
  by (rule ImmLogical_encodes [OF IsImmLogical_encodes]) (use assms in simp_all)

theorem IsImmLogical_roundtrip_witness:
  "ImmLogical (hd (EmitLogicalImmOp ORRI 3 4 (the (IsImmLogical 0xc003c003c003c003 64)) kDoubleWord)) = Some 0xc003c003c003c003"
  by (rule IsImmLogical_roundtrip) code_simp+

text \<open>C4. \<open>IsImmLogical\<close> is complete: whatever non-zero value some 64-bit logical instruction word
  decodes to, the encoder accepts it. (Zero is what the decoder returns for the reserved
  encodings.)\<close>

theorem IsImmLogical_complete:
  assumes "SFField i = 1" "ImmLogical i = Some v" "v \<noteq> 0"
  shows "\<exists>oper. IsImmLogical v 64 = Some oper"
  using ImmLogical_pattern [OF assms] by (auto intro: IsImmLogical_pattern)

theorem IsImmLogical_complete_witness: "\<exists>oper. IsImmLogical 0xff 64 = Some oper"
  by (rule IsImmLogical_complete [of "0xb2401c00"]) code_simp+

end
