(* ===== verification/Arm64_Exec.thy ===== *)
theory Arm64_Exec
  imports Arm64_Simulator Arm64_LogicalImm
begin

text \<open>
  Running emitted code in the simulator. The first part relates \<open>Execute\<close> to a step relation; the
  second derives the effect of straight-line code from the effects of its instructions; the third
  states the effects of the instructions the macro instructions of the assembler are made of.
\<close>

section \<open>Steps\<close>

text \<open>One iteration of the loop of \<open>Execute\<close> as a relation.\<close>

inductive sim_step :: "host \<Rightarrow> sim \<Rightarrow> sim \<Rightarrow> bool" for h where
  sim_stepI: "pc s \<noteq> kEndSimulatingPC \<Longrightarrow> Execute_iteration h s = Inr s' \<Longrightarrow> sim_step h s s'"

inductive_simps sim_step_iff: "sim_step h s s'"

lemma sim_step_det: "sim_step h s t \<Longrightarrow> sim_step h s u \<Longrightarrow> t = u"
  by (simp add: sim_step_iff)

lemma Execute_sim_step: "sim_step h s t \<Longrightarrow> Execute h s = Execute h t"
  by (subst Execute.simps) (simp add: sim_step_iff)

lemma Execute_sim_steps: "(sim_step h)\<^sup>*\<^sup>* s t \<Longrightarrow> Execute h s = Execute h t"
  by (induction rule: rtranclp_induct) (simp_all add: Execute_sim_step)

definition run_outcome :: "host \<Rightarrow> sim \<Rightarrow> sim result \<Rightarrow> bool" where
  "run_outcome h s r \<longleftrightarrow> (\<exists>t. (sim_step h)\<^sup>*\<^sup>* s t \<and>
     (case r of Inr u \<Rightarrow> u = t \<and> pc t = kEndSimulatingPC
              | Inl e \<Rightarrow> pc t \<noteq> kEndSimulatingPC \<and> Execute_iteration h t = Inl e))"

lemma Execute_run_outcome:
  assumes "Execute h s = Some r"
  shows "run_outcome h s r"
proof (rule Execute.raw_induct [OF _ assms])
  fix Execute h s r
  assume IH: "\<And>h s r. Execute h s = Some r \<Longrightarrow> run_outcome h s r"
    and body: "(if pc s = kEndSimulatingPC then Some (Inr s)
      else case Execute_iteration h s of Inl e \<Rightarrow> Some (Inl e) | Inr s \<Rightarrow> Execute h s) = Some r"
  show "run_outcome h s r"
  proof (cases "pc s = kEndSimulatingPC")
    case True
    then show ?thesis using body by (auto simp: run_outcome_def)
  next
    case False
    show ?thesis
    proof (cases "Execute_iteration h s")
      case (Inl e)
      then have "r = Inl e" using body False by simp
      then show ?thesis using Inl False unfolding run_outcome_def by (intro exI [of _ s]) simp
    next
      case (Inr t)
      then have "run_outcome h t r" using IH body False by simp
      moreover have "sim_step h s t" using False Inr by (rule sim_stepI)
      ultimately show ?thesis
        unfolding run_outcome_def by (meson converse_rtranclp_into_rtranclp)
    qed
  qed
qed

lemma run_outcome_Execute: "run_outcome h s r \<Longrightarrow> Execute h s = Some r"
proof -
  assume "run_outcome h s r"
  then obtain t where t: "(sim_step h)\<^sup>*\<^sup>* s t"
    and r: "case r of Inr u \<Rightarrow> u = t \<and> pc t = kEndSimulatingPC
              | Inl e \<Rightarrow> pc t \<noteq> kEndSimulatingPC \<and> Execute_iteration h t = Inl e"
    by (auto simp: run_outcome_def)
  have "Execute h t = Some r"
    using r by (subst Execute.simps) (auto split: sum.splits)
  then show ?thesis by (simp add: Execute_sim_steps [OF t])
qed

section \<open>Straight-line code\<close>

text \<open>
  Code without branches. The effect of an instruction is a \<open>local_update\<close> when it neither depends on
  nor changes the program counter and the bookkeeping of the loop, and leaves the memory alone.
  \<open>straight\<close> composes such effects; \<open>code_at\<close> says that code is loaded at an address; \<open>advance\<close> is
  the bookkeeping of \<open>n\<close> steps.
\<close>

definition upd_sys :: "i64 \<Rightarrow> i64 \<Rightarrow> bool \<Rightarrow> u64 \<Rightarrow> sim \<Rightarrow> sim" where
  "upd_sys lp p m ic s = s\<lparr>last_pc := lp, pc := p, pc_modified := m, icount := ic\<rparr>"

definition local_update :: "(sim \<Rightarrow> sim) \<Rightarrow> bool" where
  "local_update F \<longleftrightarrow> (\<forall>s. mem (F s) = mem s \<and> (\<forall>lp p m ic. F (upd_sys lp p m ic s) = upd_sys lp p m ic (F s)))"

definition effect :: "host \<Rightarrow> i32 \<Rightarrow> (sim \<Rightarrow> sim) \<Rightarrow> bool" where
  "effect h i F \<longleftrightarrow> local_update F \<and> (\<forall>s. InstructionDecode_dispatch h i s = Inr (F s))"

inductive straight :: "host \<Rightarrow> i32 list \<Rightarrow> (sim \<Rightarrow> sim) \<Rightarrow> bool" for h where
  Nil: "straight h [] (\<lambda>s. s)"
| Cons: "effect h i F \<Longrightarrow> straight h is G \<Longrightarrow> straight h (i # is) (\<lambda>s. G (F s))"

primrec code_at :: "memory \<Rightarrow> uword \<Rightarrow> i32 list \<Rightarrow> bool" where
  "code_at m a [] \<longleftrightarrow> True"
| "code_at m a (i # is) \<longleftrightarrow> \<not> IsIllegalAddress a \<and> a \<noteq> kEndSimulatingPC \<and>
     load_bytes 4 m a = i \<and> code_at m (a + 4) is"

definition advance :: "nat \<Rightarrow> sim \<Rightarrow> sim" where
  "advance n s = (if n = 0 then s
     else upd_sys (pc s + of_nat (4 * (n - 1))) (pc s + of_nat (4 * n)) True (icount s + of_nat n) s)"

lemma code_at_append:
  "code_at m a (xs @ ys) \<longleftrightarrow> code_at m a xs \<and> code_at m (a + of_nat (4 * length xs)) ys"
  by (induction xs arbitrary: a) (auto simp: algebra_simps)

lemma straight_append:
  "straight h c F \<Longrightarrow> straight h d G \<Longrightarrow> straight h (c @ d) (\<lambda>s. G (F s))"
  by (induction rule: straight.induct) (auto intro: straight.intros)

lemma straight_single: "effect h i F \<Longrightarrow> straight h [i] F"
  using straight.Cons [OF _ straight.Nil] by simp

lemma upd_sys_simps [simp]:
  "mem (upd_sys lp p m ic s) = mem s" "pc (upd_sys lp p m ic s) = p" "icount (upd_sys lp p m ic s) = ic"
  "pc_modified (upd_sys lp p m ic s) = m" "last_pc (upd_sys lp p m ic s) = lp" "registers (upd_sys lp p m ic s) = registers s"
  "upd_sys lp p m ic (upd_sys lp' p' m' ic' s) = upd_sys lp p m ic s"
  "upd_sys (last_pc s) (pc s) (pc_modified s) (icount s) s = s"
  by (simp_all add: upd_sys_def)

lemma local_updateD:
  assumes "local_update F"
  shows "mem (F s) = mem s" "F (upd_sys lp p m ic s) = upd_sys lp p m ic (F s)"
    "pc (F s) = pc s" "icount (F s) = icount s" "pc_modified (F s) = pc_modified s" "last_pc (F s) = last_pc s"
proof -
  show "mem (F s) = mem s" and c: "F (upd_sys lp p m ic s) = upd_sys lp p m ic (F s)" for s lp p m ic
    using assms by (simp_all add: local_update_def)
  show "pc (F s) = pc s" "icount (F s) = icount s" "pc_modified (F s) = pc_modified s" "last_pc (F s) = last_pc s"
    using arg_cong [OF c, of _ "last_pc s" "pc s" "pc_modified s" "icount s" s] by (metis upd_sys_simps)+
qed

lemma sim_step_effect:
  assumes e: "effect h i F" and c: "load_bytes 4 (mem s) (pc s) = i"
    and a: "\<not> IsIllegalAddress (pc s)" "pc s \<noteq> kEndSimulatingPC" and st: "stop_sim_at h = - 1"
  shows "sim_step h s (upd_sys (pc s) (pc s + 4) True (icount s + 1) (F s))"
proof -
  let ?s = "upd_sys (last_pc s) (pc s) False (icount s + 1) s"
  have u: "s\<lparr>icount := icount s + 1, pc_modified := False\<rparr> = ?s" by (simp add: upd_sys_def)
  have l: "local_update F" and d: "InstructionDecode_dispatch h i ?s = Inr (F ?s)"
    using e by (simp_all add: effect_def)
  have "Execute_iteration h s = bindE (InstructionDecode_dispatch h i ?s)
      (\<lambda>t. if \<not> pc_modified t then Inr (set_pc (pc s + kInstrSize) t) else Inr t)"
    unfolding Execute_iteration_def InstructionDecode_def Let_def u [symmetric] using a st c by simp
  also have "\<dots> = Inr (upd_sys (pc s) (pc s + 4) True (icount s + 1) (F s))"
    unfolding d using local_updateD [OF l]
    by (simp add: set_pc_def kInstrSize_def) (simp add: upd_sys_def)
  finally show ?thesis using a by (intro sim_stepI)
qed

lemma straight_local: "straight h code F \<Longrightarrow> local_update F"
  by (induction rule: straight.induct) (auto simp: local_update_def effect_def)

lemma straight_steps:
  assumes "straight h code F" "code_at (mem s) (pc s) code" "stop_sim_at h = - 1"
  shows "(sim_step h ^^ length code) s (advance (length code) (F s))"
  using assms(1,2)
proof (induction arbitrary: s rule: straight.induct)
  case Nil
  then show ?case by (simp add: advance_def)
next
  case (Cons i F "is" G)
  let ?t = "upd_sys (pc s) (pc s + 4) True (icount s + 1) (F s)"
  have l: "local_update F" using Cons.hyps by (simp add: effect_def)
  have lG: "local_update G" using Cons.hyps(2) by (rule straight_local)
  have "sim_step h s ?t"
    using sim_step_effect [OF Cons.hyps(1)] Cons.prems assms(3) by simp
  moreover have "(sim_step h ^^ length is) ?t (advance (length is) (G ?t))"
    using Cons.IH [of ?t] Cons.prems local_updateD [OF l] by simp
  moreover have "advance (length is) (G ?t) = advance (length (i # is)) (G (F s))"
    using local_updateD [OF l] local_updateD [OF lG]
    by (cases "is") (simp_all add: advance_def ac_simps)
  ultimately show ?case by (simp add: relcomppI relpowp_Suc_I2 del: relpowp.simps)
qed

section \<open>The effect of the emitted instructions\<close>

definition write_reg :: "Register \<Rightarrow> i64 \<Rightarrow> sim \<Rightarrow> sim" where
  "write_reg r v s = s\<lparr>registers := (registers s)(r := v)\<rparr>"

lemma set_register_low: "r < 31 \<Longrightarrow> set_register i r v m s = Inr (write_reg r v s)"
  by (simp add: set_register_def R31_def write_reg_def)

lemma get_register_low: "r < 31 \<Longrightarrow> get_register s r m = registers s r"
  by (simp add: get_register_def R31_def)

lemma local_write_reg:
  "(\<And>s lp p m ic. v (upd_sys lp p m ic s) = v s) \<Longrightarrow> local_update (\<lambda>s. write_reg r (v s) s)"
  by (simp add: local_update_def write_reg_def) (simp add: upd_sys_def)

lemma imm16_word: "scast (ucast ((imm :: i64) AND 0xffff) :: i32) = take_bit 16 imm"
proof -
  have "imm AND 0xffff = take_bit 16 imm" by (simp add: take_bit_eq_mask mask_eq_exp_minus_1)
  then show ?thesis
    by (intro bit_word_eqI) (auto simp: bit_take_bit_iff bit_signed_iff bit_ucast_iff min_def)
qed

lemma hw_shift: "hw < 4 \<Longrightarrow> unat (push_bit 4 (of_nat hw :: i32)) = 16 * hw"
proof -
  assume "hw < 4"
  then have "push_bit 4 (of_nat hw :: i32) = of_nat (16 * hw)" by (simp add: push_bit_eq_mult)
  then show ?thesis using \<open>hw < 4\<close> by (simp only: unat_of_nat) (simp add: take_bit_nat_eq_self)
qed

lemma MoveWide_dispatch:
  assumes rd: "rd < 31" and hw: "hw < 4" and i: "i = hd (EmitMoveWideOp op rd imm hw kDoubleWord)"
  shows "InstructionDecode_dispatch h i s = Inr (write_reg rd
     (case op of MOVN \<Rightarrow> NOT (push_bit (16 * hw) (take_bit 16 imm))
               | MOVZ \<Rightarrow> push_bit (16 * hw) (take_bit 16 imm)
               | MOVK \<Rightarrow> (registers s rd AND NOT (push_bit (16 * hw) 0xffff)) OR push_bit (16 * hw) (take_bit 16 imm)) s)"
proof -
  have f: "fits 5 (of_nat rd)" "fits 2 (of_nat hw)" "fits 16 (ucast (imm AND 0xffff))"
    using assms fits_of_nat [of hw 2] by (simp_all add: fits_reg fits_imm16)
  have e: "i = MoveWideOp_bits op OR B31 OR of_nat rd OR push_bit 21 (of_nat hw) OR push_bit 5 (ucast (imm AND 0xffff))"
    unfolding i EmitMoveWideOp_def size_bit_def Rd_def using rd by simp
  have "IsDPImmediateOp i" "IsMoveWideOp i" using f unfolding e by (cases op; simp add: codec_simps)+
  then have d: "InstructionDecode_dispatch h i s = DecodeMoveWide i s"
    by (simp add: InstructionDecode_dispatch_def DecodeDPImmediate_def)
  have fl: "RdField i = rd" "HWField i = of_nat hw" "Imm16Field i = ucast (imm AND 0xffff)" "SFField i = 1"
    using f rd unfolding e by (cases op; simp add: codec_simps unat_reg)+
  have ob: "Bits i 29 2 = (case op of MOVN \<Rightarrow> 0 | MOVZ \<Rightarrow> 2 | MOVK \<Rightarrow> 3)"
    using f unfolding e by (cases op; simp add: codec_simps)
  show ?thesis
    unfolding d DecodeMoveWide_def Let_def fl ob hw_shift [OF hw] imm16_word
    using rd by (cases op) (simp_all add: set_register_low get_register_low)
qed

definition put16 :: "nat \<Rightarrow> i64 \<Rightarrow> i64 \<Rightarrow> i64" where
  "put16 hw imm v = (v AND NOT (push_bit (16 * hw) 0xffff)) OR push_bit (16 * hw) (take_bit 16 imm)"

lemma bit_put16:
  "hw < 4 \<Longrightarrow> bit (put16 hw imm v) n \<longleftrightarrow>
     (if 16 * hw \<le> n \<and> n < 16 * hw + 16 then n < 64 \<and> bit imm (n - 16 * hw) else bit v n)"
proof -
  assume "hw < 4"
  moreover have m: "(0xffff :: i64) = mask 16" by (simp add: mask_eq_exp_minus_1)
  ultimately show ?thesis
    unfolding put16_def m by (auto simp: bit_or_iff bit_and_iff bit_not_iff bit_push_bit_iff bit_take_bit_iff bit_mask_iff dest: bit_imp_le_length)
qed

lemma straight_movz: "rd < 31 \<Longrightarrow> hw < 4 \<Longrightarrow> straight h (movz rd imm hw) (\<lambda>s. write_reg rd (put16 hw imm 0) s)"
  using MoveWide_dispatch [OF _ _ refl, of rd hw h MOVZ imm] local_write_reg [of "\<lambda>_. put16 hw imm 0" rd]
  unfolding movz_def put16_def EmitMoveWideOp_def
  by (intro straight_single) (simp add: effect_def)

lemma straight_movn: "rd < 31 \<Longrightarrow> hw < 4 \<Longrightarrow> straight h (movn rd imm hw) (\<lambda>s. write_reg rd (put16 hw (NOT imm) (- 1)) s)"
proof -
  assume a: "rd < 31" "hw < 4"
  have "NOT (push_bit (16 * hw) (take_bit 16 imm)) = put16 hw (NOT imm) (- 1)"
    using a by (intro bit_word_eqI) (auto simp: bit_put16 bit_not_iff bit_push_bit_iff bit_take_bit_iff)
  then show ?thesis
    using a MoveWide_dispatch [OF _ _ refl, of rd hw h MOVN imm] local_write_reg [of "\<lambda>_. put16 hw (NOT imm) (- 1)" rd]
    unfolding movn_def EmitMoveWideOp_def
    by (intro straight_single) (simp add: effect_def)
qed

lemma straight_movk:
  "rd < 31 \<Longrightarrow> hw < 4 \<Longrightarrow> straight h (movk rd imm hw) (\<lambda>s. write_reg rd (put16 hw imm (registers s rd)) s)"
  using MoveWide_dispatch [OF _ _ refl, of rd hw h MOVK imm] local_write_reg [of "\<lambda>s. put16 hw imm (registers s rd)" rd]
  unfolding movk_def put16_def EmitMoveWideOp_def
  by (intro straight_single) (simp add: effect_def)

lemma write_reg_write_reg [simp]:
  "write_reg r v (write_reg r w s) = write_reg r v s" "registers (write_reg r w s) r = w"
  by (simp_all add: write_reg_def)

lemma straight_then_movk:
  assumes "straight h code (\<lambda>s. write_reg rd v s)" "rd < 31" "hw < 4"
  shows "straight h (code @ movk rd imm hw) (\<lambda>s. write_reg rd (put16 hw imm v) s)"
  using straight_append [OF assms(1) straight_movk [OF assms(2,3)]] by simp

section \<open>Logical immediates\<close>

definition write_flags :: "bool \<Rightarrow> bool \<Rightarrow> bool \<Rightarrow> bool \<Rightarrow> sim \<Rightarrow> sim" where
  "write_flags n z c v s = s\<lparr>n_flag := n, z_flag := z, c_flag := c, v_flag := v\<rparr>"

lemma write_flags_local:
  "mem (write_flags n z c v s) = mem s" "write_flags n z c v (upd_sys lp p m ic s) = upd_sys lp p m ic (write_flags n z c v s)"
  by (simp_all add: write_flags_def upd_sys_def)

primrec logical_result :: "LogicalImmOp \<Rightarrow> i64 \<Rightarrow> i64 \<Rightarrow> i64" where
  "logical_result ANDI a b = a AND b"
| "logical_result ORRI a b = a OR b"
| "logical_result EORI a b = a XOR b"
| "logical_result ANDIS a b = a AND b"

lemma LogicalImm_dispatch:
  assumes imm: "encodes oper imm" and rd: "rd < 31" and rn: "rn < 34"
    and i: "i = hd (EmitLogicalImmOp op rd rn oper kDoubleWord)"
  shows "InstructionDecode_dispatch h i s =
     (let v = logical_result op (get_register s (ConcreteRegister rn) R31IsZR) imm
      in Inr (write_reg rd v (if op = ANDIS then write_flags (v <s 0) (v = 0) False False s else s)))"
proof -
  obtain b s6 r6 where o: "oper = Operand_bitfield (of_bool b) s6 r6" "take_bit 6 s6 = s6" "take_bit 6 r6 = r6"
    using encodes_operand [OF imm] .
  have rd': "rd < 34" using rd by simp
  note f = EmitLogicalImmOp_fields [OF refl o(2,3) rd' rn i [unfolded o(1)]]
  have "ImmLogical i = Some imm" unfolding i using ImmLogical_encodes [OF imm] rd rn by simp
  moreover have "imm \<noteq> 0" using encodes_nonzero [OF imm] .
  moreover have "ConcreteRegister rd = rd" using rd by simp
  ultimately show ?thesis
    unfolding InstructionDecode_dispatch_def DecodeDPImmediate_def DecodeLogicalImm_def RnMode_def RdMode_def
    using f rd by (cases op) (simp_all add: Let_def set_register_low write_flags_def SetNZFlagsX_def SetVFlag_def SetCFlag_def)
qed

end
