(* ===== verification/Arm64_Arith.thy ===== *)
theory Arm64_Arith
  imports Arm64_Exec
begin

text \<open>
  Addition, subtraction and comparison as the assembler emits and the simulator executes them: what
  the 64-bit instructions with an immediate or a register operand do, that the flags of a
  subtraction make every condition the comparison it stands for, and the corresponding effects
  for straight-line code.
\<close>

section \<open>Addition and subtraction\<close>

lemma X_mask: "(v :: i64) AND kXRegMask = v"
proof -
  have m: "kXRegMask = - 1" by (simp add: kXRegMask_def)
  show ?thesis unfolding m by (rule and.right_neutral)
qed

lemma W_mask: "v AND kWRegMask = take_bit 32 v"
  by (simp add: kWRegMask_def take_bit_eq_mask mask_eq_exp_minus_1)

definition addsub_flags :: "bool \<Rightarrow> i64 \<Rightarrow> i64 \<Rightarrow> sim \<Rightarrow> sim" where
  "addsub_flags addition a b s =
     (let out = (if addition then a + b else a - b)
      in write_flags (out <s 0) (out = 0) (CarryFromX out a b addition) (OverflowFromX out a b addition) s)"

definition addsub_outcome :: "i32 \<Rightarrow> bool \<Rightarrow> bool \<Rightarrow> Register \<Rightarrow> R31Type \<Rightarrow> i64 \<Rightarrow> i64 \<Rightarrow> sim \<Rightarrow> sim result" where
  "addsub_outcome i addition set_flags rd rd_mode a b s =
     bindE (set_register (Some i) rd (if addition then a + b else a - b) rd_mode s)
       (\<lambda>s. Inr (if set_flags then addsub_flags addition a b s else s))"

lemma add_sub_encodings:
  assumes f: "fits 5 (of_nat d)" "fits 5 (of_nat n)" "fits 12 imm" and dn: "d < 32" "n < 32"
    and i: "i = AddSubImmOp_bits op OR B31 OR (if fl then B29 else 0) OR of_nat d OR push_bit 5 (of_nat n)
       OR ((if sh then B22 else 0) OR push_bit 10 imm)"
  shows "IsDPImmediateOp i" "\<not> IsMoveWideOp i" "IsAddSubImmOp i" "SFField i = 1" "Bit i 30 = of_bool (op = SUBI)"
    and "RdField i = d" "RnField i = n" "Imm12Field i = imm" "Bit i 22 = of_bool sh" "HasS i \<longleftrightarrow> fl"
proof -
  show "IsDPImmediateOp i" "\<not> IsMoveWideOp i" "IsAddSubImmOp i" "SFField i = 1" "Bit i 30 = of_bool (op = SUBI)"
    "RdField i = d" "RnField i = n" "Imm12Field i = imm" "Bit i 22 = of_bool sh" "HasS i \<longleftrightarrow> fl"
    using f dn unfolding i by (cases op; cases fl; cases sh; simp add: codec_simps unat_reg)+
qed

lemma IsUint_12: "IsUint 12 (v :: i64) \<longleftrightarrow> uint v < 4096"
proof -
  have "sint (4096 :: i64) = 4096" by simp
  then show ?thesis
    using sint_range64 [of v] u64_range [of v]
    by (auto simp: IsUint_def word_sle_eq word_sless_alt sint_top64 split: if_splits)
qed

lemma small_take_bit: "uint (v :: i64) < 2 ^ n \<Longrightarrow> take_bit n v = v"
  by (rule unsigned_word_eqI [where ?'a = int]) (simp add: unsigned_take_bit_eq take_bit_int_eq_self)

lemma small_bit: "uint (v :: i64) < 2 ^ n \<Longrightarrow> bit v k \<Longrightarrow> k < n"
  using arg_cong [OF small_take_bit, of v n "\<lambda>x. bit x k"] by (auto simp: bit_take_bit_iff)

lemma fits_ucast: "uint (v :: i64) < 2 ^ n \<Longrightarrow> fits n (ucast v)"
  unfolding fits_def by (intro bit_word_eqI) (auto simp: bit_take_bit_iff bit_ucast_iff dest: small_bit)

lemma CanHold_Immediate:
  assumes "operand_type (CanHold imm 64) = Immediate"
  obtains sh v where "encoding (CanHold imm 64) = (if sh then B22 else 0) OR push_bit 10 v" "fits 12 v"
    "ucast (if sh then push_bit 12 v else v) = imm"
proof (cases "IsUint 12 imm")
  case True
  then have u: "uint imm < 2 ^ 12" by (simp add: IsUint_12)
  have "encoding (CanHold imm 64) = push_bit 10 (ucast imm)"
    using True by (simp add: CanHold_def) (rule bit_word_eqI, auto simp: bit_ucast_iff bit_push_bit_iff)
  moreover have "ucast (ucast imm :: i32) = imm"
    by (rule bit_word_eqI) (auto simp: bit_ucast_iff dest: small_bit [OF u])
  ultimately show thesis using that [of False "ucast imm"] fits_ucast [OF u] by simp
next
  case False
  define w where "w = signed_drop_bit 12 imm"
  have c: "imm AND 0xfff = 0" and u: "uint w < 2 ^ 12"
    using False assms by (auto simp: CanHold_def IsUint_12 [symmetric] w_def split: if_splits option.splits)
  have lo: "\<not> bit imm n" if "n < 12" for n
  proof -
    have "take_bit 12 imm = 0" using c by (simp add: take_bit_eq_mask mask_eq_exp_minus_1)
    then show ?thesis using that by (metis bit_0_eq bit_take_bit_iff bot_apply bot_bool_def)
  qed
  have w: "bit w n \<longleftrightarrow> bit imm (12 + n)" if "n < 52" for n
    using that by (simp add: w_def bit_signed_drop_bit_iff)
  have hi: "bit imm n \<longleftrightarrow> 12 \<le> n \<and> bit w (n - 12)" if "n < 64" for n
    using that lo [of n] w [of "n - 12"] by (cases "12 \<le> n") auto
  have "encoding (CanHold imm 64) = ucast (ucast B22 OR push_bit 10 w)"
    using False c u by (simp add: CanHold_def IsUint_12 w_def)
  also have "\<dots> = B22 OR push_bit 10 (ucast w)"
    by (rule bit_word_eqI) (auto simp: bit_ucast_iff bit_or_iff bit_push_bit_iff)
  finally have "encoding (CanHold imm 64) = B22 OR push_bit 10 (ucast w)" .
  moreover have "ucast (push_bit 12 (ucast w) :: i32) = imm"
  proof (rule bit_word_eqI)
    fix n assume n: "n < LENGTH(64)"
    show "bit (ucast (push_bit 12 (ucast w) :: i32) :: i64) n \<longleftrightarrow> bit imm n"
      using n small_bit [OF u, of "n - 12"] hi [of n] by (auto simp: bit_ucast_iff bit_push_bit_iff)
  qed
  ultimately show thesis using that [of True "ucast w"] fits_ucast [OF u] by simp
qed

text \<open>Immediate operand, 64 bits.\<close>

lemma AddSubImm_dispatch:
  assumes t: "operand_type (CanHold imm 64) = Immediate" and r: "rd < 34" "rn < 34"
    and i: "i = hd (EmitAddSubImmOp op rd rn (CanHold imm 64) kDoubleWord fl)"
  shows "InstructionDecode_dispatch h i s =
    addsub_outcome i (op = ADDI) fl (ConcreteRegister rd) (if fl then R31IsZR else R31IsSP)
      (get_register s (ConcreteRegister rn) R31IsSP) imm s"
proof -
  obtain sh v where v: "encoding (CanHold imm 64) = (if sh then B22 else 0) OR push_bit 10 v" "fits 12 v"
    "ucast (if sh then push_bit 12 v else v) = imm"
    using CanHold_Immediate [OF t] .
  have e: "i = AddSubImmOp_bits op OR B31 OR (if fl then B29 else 0) OR of_nat (ConcreteRegister rd)
      OR push_bit 5 (of_nat (ConcreteRegister rn)) OR ((if sh then B22 else 0) OR push_bit 10 v)"
    unfolding i EmitAddSubImmOp_def size_bit_def Rd_def Rn_def v(1) by simp
  note f = add_sub_encodings [OF fits_creg [OF r(1)] fits_creg [OF r(2)] v(2) ConcreteRegister_bound [OF r(1)] ConcreteRegister_bound [OF r(2)] e]
  have m: "RdMode i = (if fl then R31IsZR else R31IsSP)" "RnMode i = R31IsSP"
    unfolding RdMode_def RnMode_def using f by simp_all
  have im: "ucast (if Bit i 22 = 1 then push_bit 12 (Imm12Field i) else Imm12Field i) = imm"
    using v(3) f by (cases sh) simp_all
  have op: "(Bit i 30 = 0) = (op = ADDI)" using f(5) by (cases op) simp_all
  have "InstructionDecode_dispatch h i s = DecodeAddSubImm i s"
    unfolding InstructionDecode_dispatch_def DecodeDPImmediate_def using f by simp
  then show ?thesis
    unfolding DecodeAddSubImm_def Let_def m im op f(4,6,7,10) addsub_outcome_def addsub_flags_def write_flags_def
    by (cases fl) (simp_all add: SetNZFlagsX_def SetCFlag_def SetVFlag_def)
qed

text \<open>Register operand, 64 bits.\<close>

lemma AddSubReg_dispatch:
  assumes r: "rd < 34" "rn < 34" "rm < 34"
    and i: "i = hd (EmitAddSubShiftExtOp op rd rn (Operand_reg rm) kDoubleWord fl)"
  shows "InstructionDecode_dispatch h i s =
    addsub_outcome i (op = ADD) fl (ConcreteRegister rd) R31IsZR
      (get_register s (ConcreteRegister rn) R31IsZR) (get_register s (ConcreteRegister rm) R31IsZR) s"
proof -
  note fits = fits_creg [OF r(1)] fits_creg [OF r(2)] fits_creg [OF r(3)]
  note u = unat_creg [OF r(1)] unat_creg [OF r(2)] unat_creg [OF r(3)]
  have e: "i = AddSubShiftExtOp_bits op OR B31 OR (if fl then B29 else 0) OR of_nat (ConcreteRegister rd)
      OR push_bit 5 (of_nat (ConcreteRegister rn)) OR push_bit 16 (of_nat (ConcreteRegister rm))"
    unfolding i EmitAddSubShiftExtOp_def size_bit_def Rd_def Rn_def Operand_reg_def Rm_def by simp
  have c: "\<not> IsDPImmediateOp i" "\<not> IsCompareBranchOp i" "\<not> IsLoadStoreOp i" "IsDPRegisterOp i"
      "IsAddSubShiftExtOp i" "\<not> IsAddSubImmOp i" "\<not> IsLogicalImmOp i" "\<not> IsLogicalShiftOp i"
    using fits unfolding e by (cases op; cases fl; simp add: codec_simps)+
  have f: "SFField i = 1" "Bit i 30 = of_bool (op = SUB)" "RdField i = ConcreteRegister rd" "RnField i = ConcreteRegister rn"
      "RmField i = ConcreteRegister rm" "HasS i \<longleftrightarrow> fl" "Imm6Field i = 0" "Bit i 21 = 0"
    using fits u unfolding e by (cases op; cases fl; simp add: codec_simps)+
  have m: "RdMode i = R31IsZR" "RnMode i = R31IsZR" "IsShift i"
    unfolding RdMode_def RnMode_def IsExtend_def IsShift_def using c f by simp_all
  have rm: "DecodeShiftExtendOperand i s = get_register s (ConcreteRegister rm) R31IsZR"
    unfolding DecodeShiftExtendOperand_def Let_def using f m by (simp add: ShiftOperand_def)
  have op: "(Bit i 30 = 0) = (op = ADD)" using f(2) by (cases op) simp_all
  have "InstructionDecode_dispatch h i s = DecodeAddSubShiftExt i s"
    unfolding InstructionDecode_dispatch_def DecodeDPRegister_def using c by simp
  then show ?thesis
    unfolding DecodeAddSubShiftExt_def Let_def m rm op f(1,3,4,6) addsub_outcome_def addsub_flags_def write_flags_def
    by (cases fl; cases op) (simp_all add: SetNZFlagsX_def SetCFlag_def SetVFlag_def)
qed

lemma mov_dispatch:
  assumes r: "rd < 31" "rm < 32" and i: "i = hd (orr rd ZR (Operand_reg rm))"
  shows "InstructionDecode_dispatch h i s = Inr (write_reg rd (get_register s rm R31IsZR) s)"
proof -
  have r': "rd < 34" "rm < 34" "ConcreteRegister rd = rd" "ConcreteRegister rm = rm" "ConcreteRegister ZR = 31"
    using r by (simp_all add: ConcreteRegister_def R31_def ZR_def CSP_def)
  note fits = fits_creg [OF r'(1), unfolded r'(3)] fits_creg [OF r'(2), unfolded r'(4)]
  note u = unat_creg [OF r'(1), unfolded r'(3)] unat_creg [OF r'(2), unfolded r'(4)]
  have e: "i = LogicalShiftOp_bits ORR OR B31 OR of_nat rd OR push_bit 5 31 OR push_bit 16 (of_nat rm)"
    unfolding i orr_def EmitLogicalShiftOp_def size_bit_def Rd_def Rn_def Operand_reg_def Rm_def r' by simp
  have c: "\<not> IsDPImmediateOp i" "\<not> IsCompareBranchOp i" "\<not> IsLoadStoreOp i" "IsDPRegisterOp i"
      "\<not> IsAddSubShiftExtOp i" "\<not> IsAddSubImmOp i" "\<not> IsLogicalImmOp i" "IsLogicalShiftOp i" "\<not> IsAddSubWithCarryOp i"
    using fits unfolding e by (simp add: codec_simps)+
  have f: "SFField i = 1" "Bits i 29 2 = 1" "RdField i = rd" "RnField i = 31"
      "RmField i = rm" "Imm6Field i = 0" "Bit i 21 = 0"
    using fits u unfolding e by (simp add: codec_simps)+
  have m: "RdMode i = R31IsZR" "RnMode i = R31IsZR" "IsShift i"
    unfolding RdMode_def RnMode_def IsShift_def using c by simp_all
  have rm: "DecodeShiftExtendOperand i s = get_register s rm R31IsZR"
    unfolding DecodeShiftExtendOperand_def Let_def using f m by (simp add: ShiftOperand_def)
  have "InstructionDecode_dispatch h i s = DecodeLogicalShift i s"
    unfolding InstructionDecode_dispatch_def DecodeDPRegister_def using c by simp
  then show ?thesis
    unfolding DecodeLogicalShift_def Let_def m rm f using r by (simp add: set_register_low get_register_def R31_def)
qed

section \<open>Comparisons\<close>

primrec comparison :: "Condition \<Rightarrow> i64 \<Rightarrow> i64 \<Rightarrow> bool" where
  "comparison EQ a b \<longleftrightarrow> a = b"
| "comparison NE a b \<longleftrightarrow> a \<noteq> b"
| "comparison CS a b \<longleftrightarrow> uint b \<le> uint a"
| "comparison CC a b \<longleftrightarrow> uint a < uint b"
| "comparison MI a b \<longleftrightarrow> sint (a - b) < 0"
| "comparison PL a b \<longleftrightarrow> 0 \<le> sint (a - b)"
| "comparison VS a b \<longleftrightarrow> sint (a - b) \<noteq> sint a - sint b"
| "comparison VC a b \<longleftrightarrow> sint (a - b) = sint a - sint b"
| "comparison HI a b \<longleftrightarrow> uint b < uint a"
| "comparison LS a b \<longleftrightarrow> uint a \<le> uint b"
| "comparison GE a b \<longleftrightarrow> sint b \<le> sint a"
| "comparison LT a b \<longleftrightarrow> sint a < sint b"
| "comparison GT a b \<longleftrightarrow> sint b < sint a"
| "comparison LE a b \<longleftrightarrow> sint a \<le> sint b"
| "comparison AL a b \<longleftrightarrow> True"
| "comparison NV a b \<longleftrightarrow> True"

lemma sub_flags:
  "addsub_flags False a b s = write_flags (sint (a - b) < 0) (a = b) (uint b \<le> uint a) (sint (a - b) \<noteq> sint a - sint b) s"
proof -
  have out: "a - b = a + NOT b + 1" by (simp add: minus_eq_not_plus_1 add.assoc)
  have "CarryFromX (a - b) a b False \<longleftrightarrow> uint b \<le> uint a"
    using CarryFromX_sub [of 1 a b] by (simp add: out)
  moreover have "OverflowFromX (a - b) a b False \<longleftrightarrow> sint (a - b) \<noteq> sint a - sint b"
  proof -
    have "OverflowFromX (a - b) a b False \<longleftrightarrow> \<not> (- (2 ^ 63) \<le> sint a - sint b \<and> sint a - sint b < 2 ^ 63)"
      using OverflowFromX_sub [of 1 a b] by (simp add: out)
    also have "\<dots> \<longleftrightarrow> sint (a - b) \<noteq> sint a - sint b"
      using signed_take_bit_int_eq_self_iff [of 63 "sint a - sint b"] by (simp add: sint_sub64)
    finally show ?thesis .
  qed
  ultimately show ?thesis by (simp add: addsub_flags_def word_sless_alt Let_def)
qed

lemma signed_take_bit_cases:
  fixes k :: int
  assumes "- (2 ^ 64) < k" "k < 2 ^ 64"
  shows "signed_take_bit 63 k = (if k < - (2 ^ 63) then k + 2 ^ 64 else if 2 ^ 63 \<le> k then k - 2 ^ 64 else k)"
proof -
  have e: "signed_take_bit 63 k = (k + 2 ^ 63) mod 2 ^ 64 - 2 ^ 63"
    using signed_take_bit_eq_take_bit_shift [of 63 k] by (simp add: take_bit_eq_mod)
  consider "k < - (2 ^ 63)" | "- (2 ^ 63) \<le> k" "k < 2 ^ 63" | "2 ^ 63 \<le> k" by linarith
  then show ?thesis
  proof cases
    case 1
    have "(k + 2 ^ 63) mod 2 ^ 64 = (k + 2 ^ 63 + 2 ^ 64) mod 2 ^ 64" by (simp only: mod_add_self2)
    also have "\<dots> = k + 2 ^ 63 + 2 ^ 64" using 1 assms by (intro mod_pos_pos_trivial) simp_all
    finally show ?thesis using 1 by (simp add: e)
  next
    case 2
    then show ?thesis by (simp add: e)
  next
    case 3
    have "(k + 2 ^ 63) mod 2 ^ 64 = (k + 2 ^ 63 - 2 ^ 64) mod 2 ^ 64" by (simp only: minus_mod_self2)
    also have "\<dots> = k + 2 ^ 63 - 2 ^ 64" using 3 assms by (intro mod_pos_pos_trivial) simp_all
    finally show ?thesis using 3 by (simp add: e)
  qed
qed

lemma sint_sub_cases:
  "sint (a - b :: i64) = (if sint a - sint b < - (2 ^ 63) then sint a - sint b + 2 ^ 64
     else if 2 ^ 63 \<le> sint a - sint b then sint a - sint b - 2 ^ 64 else sint a - sint b)"
  unfolding sint_sub64 by (rule signed_take_bit_cases) (use sint_range64 [of a] sint_range64 [of b] in simp_all)

lemma comparison_flags:
  assumes "c \<noteq> NV" and c: "c = (if IsConditionalSelectOp i then SelectConditionField i else ConditionField i)"
  shows "ConditionallyExecute i (addsub_flags False a b s) = Inr (comparison c a b)"
proof -
  have "a = b \<or> uint a < uint b \<or> uint b < uint a" "a = b \<or> sint a < sint b \<or> sint b < sint a"
    using unsigned_word_eqI [where ?'a = int and v = a and w = b] signed_word_eqI [of a b] by (meson linorder_cases)+
  then show ?thesis
    using sint_sub_cases [of a b] sint_range64 [of a] sint_range64 [of b] assms(1)
    unfolding ConditionallyExecute_def c [symmetric] sub_flags write_flags_def
    by (cases c) (auto split: if_splits)
qed

lemma add_negated_flags:
  assumes "0 < uint b" "uint b < 2 ^ 63"
  shows "addsub_flags True a b s = addsub_flags False a (- b) s"
proof -
  have "uint (- b) = 2 ^ 64 - uint b" using assms(1) by (auto simp: uint_minus_if)
  moreover have "sint (- b) = - sint b" "sint b = uint b"
    using assms calculation by (simp_all add: sint_top64)
  moreover have "CarryFromX (a + b) a b True \<longleftrightarrow> 2 ^ 64 \<le> uint a + uint b"
    using CarryFromX_add [of 0 a b] by simp
  moreover have "OverflowFromX (a + b) a b True \<longleftrightarrow> sint (a + b) \<noteq> sint a + sint b"
    using OverflowFromX_add [of 0 a b] signed_take_bit_int_eq_self_iff [of 63 "sint a + sint b"] by (simp add: sint_add64)
  moreover have "a + b = 0 \<longleftrightarrow> a = - b" by (simp add: eq_neg_iff_add_eq_0)
  moreover have "2 ^ 64 - uint b \<le> uint a \<longleftrightarrow> 2 ^ 64 \<le> uint a + uint b" by linarith
  ultimately show ?thesis
    unfolding sub_flags by (simp add: addsub_flags_def Let_def word_sless_alt)
qed

section \<open>Straight-line additions and comparisons\<close>

lemma local_addsub_flags:
  "(\<And>s lp p m ic. a (upd_sys lp p m ic s) = a s) \<Longrightarrow> (\<And>s lp p m ic. b (upd_sys lp p m ic s) = b s) \<Longrightarrow>
   local_update (\<lambda>s. addsub_flags ad (a s) (b s) s)"
  by (simp add: local_update_def addsub_flags_def Let_def write_flags_local)

lemma outcome_write: "rd < 31 \<Longrightarrow> addsub_outcome i ad False rd m a b s = Inr (write_reg rd (if ad then a + b else a - b) s)"
  by (simp add: addsub_outcome_def set_register_low)

lemma outcome_flags: "addsub_outcome i ad True R31 R31IsZR a b s = Inr (addsub_flags ad a b s)"
  by (simp add: addsub_outcome_def set_register_def)

lemma ConcreteRegister_ZR: "ConcreteRegister ZR = R31" "ConcreteRegister R31 = R31" "R31 < 34" "R31 = 31"
  by (simp_all add: ConcreteRegister_def ZR_def CSP_def R31_def)

lemma straight_add_imm:
  assumes "operand_type (CanHold imm 64) = Immediate" "rd < 31" "rn < 31"
  shows "straight h (add rd rn (CanHold imm 64)) (\<lambda>s. write_reg rd (registers s rn + imm) s)"
    and "straight h (sub rd rn (CanHold imm 64)) (\<lambda>s. write_reg rd (registers s rn - imm) s)"
proof -
  have "effect h (hd (add rd rn (CanHold imm 64))) (\<lambda>s. write_reg rd (registers s rn + imm) s)"
    "effect h (hd (sub rd rn (CanHold imm 64))) (\<lambda>s. write_reg rd (registers s rn - imm) s)"
    using assms AddSubImm_dispatch [OF assms(1) _ _ refl, of rd rn h _ False]
    by (simp_all add: effect_def local_write_reg add_def sub_def AddSubHelper_def Let_def outcome_write get_register_low)
  then show "straight h (add rd rn (CanHold imm 64)) (\<lambda>s. write_reg rd (registers s rn + imm) s)"
    "straight h (sub rd rn (CanHold imm 64)) (\<lambda>s. write_reg rd (registers s rn - imm) s)"
    using straight_single assms(1) by (simp_all add: add_def sub_def AddSubHelper_def Let_def EmitAddSubImmOp_def)
qed

lemma straight_add_reg:
  assumes "rd < 31" "rn < 31" "rm < 31"
  shows "straight h (add rd rn (Operand_reg rm)) (\<lambda>s. write_reg rd (registers s rn + registers s rm) s)"
proof -
  have t: "operand_type (Operand_reg rm) \<noteq> Immediate" by (simp add: Operand_reg_def)
  have "effect h (hd (add rd rn (Operand_reg rm))) (\<lambda>s. write_reg rd (registers s rn + registers s rm) s)"
    using assms AddSubReg_dispatch [OF _ _ _ refl, of rd rn rm h ADD False] t
    by (simp add: effect_def local_write_reg add_def AddSubHelper_def Let_def outcome_write get_register_low)
  then show ?thesis
    using straight_single t by (simp add: add_def AddSubHelper_def Let_def EmitAddSubShiftExtOp_def)
qed

lemma straight_cmp_imm:
  assumes "operand_type (CanHold imm 64) = Immediate" "rn < 31"
  shows "straight h (cmp rn (CanHold imm 64)) (\<lambda>s. addsub_flags False (registers s rn) imm s)"
    and "straight h (cmn rn (CanHold imm 64)) (\<lambda>s. addsub_flags True (registers s rn) imm s)"
proof -
  have "effect h (hd (cmp rn (CanHold imm 64))) (\<lambda>s. addsub_flags False (registers s rn) imm s)"
    "effect h (hd (cmn rn (CanHold imm 64))) (\<lambda>s. addsub_flags True (registers s rn) imm s)"
    using assms AddSubImm_dispatch [OF assms(1) _ _ refl, of R31 rn h _ True]
    by (simp_all add: effect_def local_addsub_flags cmp_def cmn_def subs_def adds_def AddSubHelper_def Let_def outcome_flags get_register_low ConcreteRegister_ZR(1-3))
  then show "straight h (cmp rn (CanHold imm 64)) (\<lambda>s. addsub_flags False (registers s rn) imm s)"
    "straight h (cmn rn (CanHold imm 64)) (\<lambda>s. addsub_flags True (registers s rn) imm s)"
    using straight_single assms(1) by (simp_all add: cmp_def cmn_def subs_def adds_def AddSubHelper_def Let_def EmitAddSubImmOp_def)
qed

lemma straight_cmp_reg:
  assumes "rn < 31" "rm < 31"
  shows "straight h (cmp rn (Operand_reg rm)) (\<lambda>s. addsub_flags False (registers s rn) (registers s rm) s)"
proof -
  have t: "operand_type (Operand_reg rm) \<noteq> Immediate" by (simp add: Operand_reg_def)
  have "effect h (hd (cmp rn (Operand_reg rm))) (\<lambda>s. addsub_flags False (registers s rn) (registers s rm) s)"
    using assms AddSubReg_dispatch [OF _ _ _ refl, of R31 rn rm h SUB True] t
    by (simp add: effect_def local_addsub_flags cmp_def subs_def AddSubHelper_def Let_def outcome_flags get_register_low ConcreteRegister_ZR(1-3))
  then show ?thesis
    using straight_single t by (simp add: cmp_def subs_def AddSubHelper_def Let_def EmitAddSubShiftExtOp_def)
qed

lemma straight_mov:
  assumes "rd < 31" "rn < 31"
  shows "straight h (mov rd rn) (\<lambda>s. write_reg rd (registers s rn) s)"
proof -
  have "effect h (hd (mov rd rn)) (\<lambda>s. write_reg rd (registers s rn) s)"
    using assms mov_dispatch [OF _ _ refl, of rd rn h]
    by (simp add: effect_def local_write_reg mov_def CSP_def get_register_low)
  then show ?thesis
    using straight_single assms by (simp add: mov_def CSP_def orr_def EmitLogicalShiftOp_def)
qed

end
