(* ===== verification/Arm64_Macros.thy ===== *)
theory Arm64_Macros
  imports Arm64_Arith
begin

text \<open>
  The macro instructions of the assembler run in the simulator: loading an immediate, adding one
  and comparing with one.
\<close>

lemma straight_orri_ZR:
  assumes "IsImmLogical imm 64 = Some oper" "rd < 31"
  shows "straight h (EmitLogicalImmOp ORRI rd ZR oper kDoubleWord) (\<lambda>s. write_reg rd imm s)"
proof -
  let ?i = "hd (EmitLogicalImmOp ORRI rd ZR oper kDoubleWord)"
  have "InstructionDecode_dispatch h ?i s = Inr (write_reg rd imm s)" for s
    using LogicalImm_dispatch [OF IsImmLogical_encodes [OF assms(1)] assms(2) _ refl, of ZR h ORRI s]
    by (simp add: ZR_def ConcreteRegister_def get_register_def)
  then have "effect h ?i (\<lambda>s. write_reg rd imm s)" using local_write_reg [of "\<lambda>_. imm"] by (simp add: effect_def)
  then show ?thesis using straight_single by (simp add: EmitLogicalImmOp_def)
qed

section \<open>Loading an immediate\<close>

definition half :: "nat \<Rightarrow> i64 \<Rightarrow> i32" where
  "half k imm = ucast (take_bit 16 (drop_bit (16 * k) imm))"

lemma bit_half: "bit (half k imm) n \<longleftrightarrow> n < 16 \<and> bit imm (16 * k + n)"
  by (auto simp: half_def bit_ucast_iff bit_take_bit_iff bit_drop_bit_eq dest: bit_imp_le_length)

lemma halves:
  "Low16Bits (Low32Bits imm) AND 0xffff = half 0 imm" "High16Bits (Low32Bits imm) AND 0xffff = half 1 imm"
  "Low16Bits (High32Bits imm) AND 0xffff = half 2 imm" "High16Bits (High32Bits imm) AND 0xffff = half 3 imm"
proof -
  have m: "(0xffff :: i32) = mask 16" by (simp add: mask_eq_exp_minus_1)
  show "Low16Bits (Low32Bits imm) AND 0xffff = half 0 imm" "High16Bits (Low32Bits imm) AND 0xffff = half 1 imm"
    "Low16Bits (High32Bits imm) AND 0xffff = half 2 imm" "High16Bits (High32Bits imm) AND 0xffff = half 3 imm"
    unfolding Low16Bits_def High16Bits_def Low32Bits_def High32Bits_def m
    by (rule bit_word_eqI, auto simp: bit_and_iff bit_mask_iff bit_half bit_ucast_iff bit_signed_drop_bit_iff add.commute)+
qed

lemma half_ones:
  assumes "half k imm = 0xffff" "j < 16"
  shows "bit imm (16 * k + j)"
proof -
  have "half k imm = mask 16" using assms by (simp add: mask_eq_exp_minus_1)
  then show ?thesis using bit_half [of k imm j] assms(2) by (simp only: bit_mask_iff) simp
qed

lemma half_zero: "half k imm = 0 \<Longrightarrow> j < 16 \<Longrightarrow> \<not> bit imm (16 * k + j)"
  using bit_half [of k imm j] by simp

lemma High32_ones:
  assumes "High32Bits imm = 0xffffffff"
  shows "half 2 imm = 0xffff" "half 3 imm = 0xffff"
  using halves(3,4) [of imm] assms by (simp_all add: Low16Bits_def High16Bits_def)

text \<open>Four halves make the word.\<close>

lemma eq_by_halves:
  assumes "\<And>k j. k < 4 \<Longrightarrow> j < 16 \<Longrightarrow> bit (a :: i64) (16 * k + j) \<longleftrightarrow> bit b (16 * k + j)"
  shows "a = b"
proof (rule bit_word_eqI)
  fix n assume "n < LENGTH(64)"
  then have "n div 16 < 4" by simp
  then show "bit a n \<longleftrightarrow> bit b n" using assms [of "n div 16" "n mod 16"] by simp
qed

lemma bit_put16_half:
  "k < 4 \<Longrightarrow> j < 16 \<Longrightarrow> hw < 4 \<Longrightarrow> bit (put16 hw c v) (16 * k + j) \<longleftrightarrow> (if k = hw then bit c j else bit v (16 * k + j))"
  by (auto simp: bit_put16)

lemma bit_ucast_half: "j < 16 \<Longrightarrow> bit (ucast (half k imm) :: i64) j \<longleftrightarrow> bit imm (16 * k + j)"
  by (simp add: bit_ucast_iff bit_half)

lemma bit_scast_not_half: "j < 16 \<Longrightarrow> bit (NOT (scast (NOT (half k imm))) :: i64) j \<longleftrightarrow> bit imm (16 * k + j)"
  by (simp add: bit_not_iff bit_signed_iff bit_half)

lemmas half_simps = bit_put16 bit_ucast_half bit_scast_not_half
  half_ones [of 0, simplified] half_ones [of 1, simplified] half_ones [of 2, simplified] half_ones [of 3, simplified]

lemma less_4_cases: "(k :: nat) < 4 \<longleftrightarrow> k = 0 \<or> k = 1 \<or> k = 2 \<or> k = 3"
  by auto

lemma put_halves:
  "half 1 imm = 0xffff \<Longrightarrow> half 2 imm = 0xffff \<Longrightarrow> half 3 imm = 0xffff \<Longrightarrow>
     put16 0 (NOT (scast (NOT (half 0 imm)))) (- 1) = imm"
  "half 2 imm = 0xffff \<Longrightarrow> half 3 imm = 0xffff \<Longrightarrow>
     put16 0 (ucast (half 0 imm)) (put16 1 (NOT (scast (NOT (half 1 imm)))) (- 1)) = imm"
  by (rule eq_by_halves, auto simp: less_4_cases half_simps)+

lemma straight_h3:
  assumes "reg < 31" "half 3 imm = 0xffff"
  shows "straight h (movn reg (scast (NOT (half 2 imm))) 2
      @ (if half 1 imm \<noteq> 0xffff then movk reg (ucast (half 1 imm)) 1 else [])
      @ (if half 0 imm \<noteq> 0xffff then movk reg (ucast (half 0 imm)) 0 else [])) (\<lambda>s. write_reg reg imm s)"
proof -
  let ?v = "put16 2 (NOT (scast (NOT (half 2 imm)))) (- 1)"
  let ?w = "if half 1 imm \<noteq> 0xffff then put16 1 (ucast (half 1 imm)) ?v else ?v"
  let ?x = "if half 0 imm \<noteq> 0xffff then put16 0 (ucast (half 0 imm)) ?w else ?w"
  have "straight h (movn reg (scast (NOT (half 2 imm))) 2) (\<lambda>s. write_reg reg ?v s)"
    by (rule straight_movn) (use assms in simp_all)
  then have "straight h (movn reg (scast (NOT (half 2 imm))) 2
      @ (if half 1 imm \<noteq> 0xffff then movk reg (ucast (half 1 imm)) 1 else [])) (\<lambda>s. write_reg reg ?w s)"
    using straight_then_movk assms(1) by simp
  then have "straight h ((movn reg (scast (NOT (half 2 imm))) 2
      @ (if half 1 imm \<noteq> 0xffff then movk reg (ucast (half 1 imm)) 1 else []))
      @ (if half 0 imm \<noteq> 0xffff then movk reg (ucast (half 0 imm)) 0 else [])) (\<lambda>s. write_reg reg ?x s)"
    using straight_then_movk [of h _ reg ?w 0] assms(1) by (simp del: append_assoc)
  moreover have "?x = imm"
    by (rule eq_by_halves) (use assms(2) in \<open>auto simp: less_4_cases half_simps\<close>)
  ultimately show ?thesis by simp
qed

text \<open>The accumulated code of the general case: nothing yet, or code that loads \<open>v\<close>.\<close>

definition loads_acc :: "host \<Rightarrow> Register \<Rightarrow> i32 list \<times> bool \<Rightarrow> i64 \<Rightarrow> bool" where
  "loads_acc h reg acc v \<longleftrightarrow> (if snd acc then straight h (fst acc) (\<lambda>s. write_reg reg v s) else fst acc = [] \<and> v = 0)"

lemma take_bit_half:
  "k < 4 \<Longrightarrow> put16 k (ucast (half k imm)) (take_bit (16 * k) imm) = take_bit (16 * Suc k) imm"
  by (rule bit_word_eqI) (auto simp: bit_put16 bit_take_bit_iff bit_ucast_iff bit_half)

lemma put16_zero: "k < 4 \<Longrightarrow> put16 k 0 (take_bit (16 * k) imm) = take_bit (16 * k) imm"
  by (rule bit_word_eqI) (auto simp: bit_put16 bit_take_bit_iff)

lemma loads_step:
  assumes "loads_acc h reg (code, init) (take_bit (16 * k) imm)" and "k < 4" "reg < 31"
  shows "loads_acc h reg (if half k imm \<noteq> 0
      then (code @ (if init then movk reg (ucast (half k imm)) k else movz reg (ucast (half k imm)) k), True)
      else (code, init)) (take_bit (16 * Suc k) imm)"
proof (cases "half k imm = 0")
  case True
  then have "take_bit (16 * Suc k) imm = take_bit (16 * k) imm"
    using take_bit_half [OF assms(2), of imm] put16_zero [OF assms(2), of imm] by simp
  then show ?thesis using assms True by simp
next
  case False
  show ?thesis
  proof (cases init)
    case True
    then show ?thesis
      using assms False straight_then_movk [of h code reg "take_bit (16 * k) imm" k "ucast (half k imm)"]
      by (simp add: loads_acc_def take_bit_half)
  next
    case nonempty: False
    then show ?thesis
      using assms False straight_movz [of reg k h "ucast (half k imm)"] take_bit_half [OF assms(2), of imm]
      by (simp add: loads_acc_def)
  qed
qed

lemma CanHold_BitfieldImm:
  assumes "operand_type (CanHold imm 64) = BitfieldImm"
  obtains oper where "IsImmLogical imm 64 = Some oper"
  using assms by (auto simp: CanHold_def split: if_splits option.splits)

lemma LoadImmediate_straight:
  assumes code: "LoadImmediate None reg imm = Some code" and reg: "reg < 31"
  shows "straight h code (\<lambda>s. write_reg reg imm s)"
proof (cases "imm = 0")
  case True
  moreover have "put16 0 0 0 = 0" by (simp add: put16_def)
  ultimately show ?thesis using code straight_movz [of reg 0 h 0] reg by (simp add: LoadImmediate_def)
next
  case nz: False
  show ?thesis
  proof (cases "operand_type (CanHold imm 64) = BitfieldImm")
    case True
    then obtain oper where "IsImmLogical imm 64 = Some oper" by (rule CanHold_BitfieldImm)
    then show ?thesis
      using code nz True straight_orri_ZR [OF _ reg] by (auto simp: LoadImmediate_def orri_def logical_imm_def)
  next
    case nb: False
    note def = code [unfolded LoadImmediate_def Let_def halves if_not_P [OF nz] if_not_P [OF nb]]
    consider "High32Bits imm = 0xffffffff" | "High32Bits imm \<noteq> 0xffffffff" "half 3 imm = 0xffff"
      | "High32Bits imm \<noteq> 0xffffffff" "half 3 imm \<noteq> 0xffff" by blast
    then show ?thesis
    proof cases
      case 1
      note ones = High32_ones [OF 1]
      show ?thesis
      proof (cases "half 1 imm = 0xffff")
        case True
        then show ?thesis
          using def 1 straight_movn [of reg 0 h "scast (NOT (half 0 imm))"] reg put_halves(1) [OF True ones] by simp
      next
        case False
        then show ?thesis
          using def 1 straight_then_movk [OF straight_movn [of reg 1 h "scast (NOT (half 1 imm))"], of 0 "ucast (half 0 imm)"]
            reg put_halves(2) [OF ones] by simp
      qed
    next
      case 2
      then show ?thesis using def straight_h3 [OF reg 2(2)] by simp
    next
      case 3
      define acc where "acc k = (if half k imm \<noteq> 0
          then \<lambda>(c, i). (c @ (if i then movk reg (ucast (half k imm)) k else movz reg (ucast (half k imm)) k), True)
          else (\<lambda>x. x))" for k
      have step: "loads_acc h reg x (take_bit (16 * k) imm) \<Longrightarrow> k < 4 \<Longrightarrow> loads_acc h reg (acc k x) (take_bit (16 * Suc k) imm)" for k x
        using loads_step [of h reg "fst x" "snd x" k imm] reg by (cases x) (auto simp: acc_def split: if_splits)
      have "loads_acc h reg ([], False) (take_bit (16 * 0) imm)" by (simp add: loads_acc_def)
      from step [OF step [OF step [OF step [OF this]]]]
      have l: "loads_acc h reg (acc 3 (acc 2 (acc 1 (acc 0 ([], False))))) (take_bit 64 imm)" by (simp add: eval_nat_numeral)
      moreover have "take_bit 64 imm = imm" using take_bit_length_eq [of imm] by simp
      moreover have "code = fst (acc 3 (acc 2 (acc 1 (acc 0 ([], False)))))"
        using def 3 by (auto simp: acc_def split: if_splits)
      ultimately show ?thesis using nz by (simp add: loads_acc_def split: if_splits)
    qed
  qed
qed

lemma LoadImmediate_total:
  "\<exists>code. LoadImmediate None reg imm = Some code \<and> length code \<le> 4"
proof (cases "imm \<noteq> 0 \<and> operand_type (CanHold imm 64) = BitfieldImm")
  case True
  then obtain oper where "IsImmLogical imm 64 = Some oper" using CanHold_BitfieldImm by blast
  then show ?thesis
    using True by (simp add: LoadImmediate_def orri_def logical_imm_def EmitLogicalImmOp_def)
next
  case False
  then show ?thesis
    by (auto simp: LoadImmediate_def Let_def movz_def movn_def movk_def EmitMoveWideOp_def)
qed

text \<open>C2. \<open>LoadImmediate\<close> without a constant pool emits at most four instructions for any 64-bit
  value, and running them in the simulator, from any state in which they are loaded at the program
  counter, ends after as many steps behind them with the value in the register and nothing else
  changed.\<close>

theorem LoadImmediate_correct:
  assumes "reg < 31" and "code = the (LoadImmediate None reg imm)"
    and "code_at (mem s) (pc s) code" and "stop_sim_at h = - 1"
  shows "LoadImmediate None reg imm = Some code \<and> length code \<le> 4 \<and>
    (sim_step h ^^ length code) s (advance (length code) (write_reg reg imm s))"
proof -
  have "LoadImmediate None reg imm = Some code" "length code \<le> 4"
    using LoadImmediate_total [of reg imm] assms(2) by auto
  then show ?thesis
    using straight_steps [OF LoadImmediate_straight [OF _ assms(1)] assms(3,4)] by blast
qed

text \<open>A host for examples, without floating point, redirections and a stop address.\<close>

definition example_host :: host where
  "example_host = \<lparr>fp = \<lparr>
     f32_add = (\<lambda>_ _. 0), f32_sub = (\<lambda>_ _. 0), f32_mul = (\<lambda>_ _. 0),
     f32_div = (\<lambda>_ _. 0), f32_eq = (\<lambda>_ _. False), f32_lt = (\<lambda>_ _. False),
     f32_le = (\<lambda>_ _. False), f32_abs = (\<lambda>_. 0), f32_neg = (\<lambda>_. 0),
     f32_sqrt = (\<lambda>_. 0), f32_isinf = (\<lambda>_. False), f32_isnan = (\<lambda>_. False),
     f64_add = (\<lambda>_ _. 0), f64_sub = (\<lambda>_ _. 0), f64_mul = (\<lambda>_ _. 0),
     f64_div = (\<lambda>_ _. 0), f64_eq = (\<lambda>_ _. False), f64_lt = (\<lambda>_ _. False),
     f64_le = (\<lambda>_ _. False), f64_abs = (\<lambda>_. 0), f64_neg = (\<lambda>_. 0),
     f64_sqrt = (\<lambda>_. 0), f64_isnan = (\<lambda>_. False), f32_to_f64 = (\<lambda>_. 0),
     f64_to_f32 = (\<lambda>_. 0), u64_to_f64 = (\<lambda>_. 0), i64_to_f64 = (\<lambda>_. 0),
     i32_to_f64 = (\<lambda>_. 0), f64_to_i64 = (\<lambda>_. 0), f64_to_i32 = (\<lambda>_. 0)\<rparr>,
     redirection_at = (\<lambda>_. \<lparr>external_function = 0, call_kind = kRuntimeCall, argument_count = 0\<rparr>),
     host_function = (\<lambda>_ _ s. HostReturns 0 s),
     stop_sim_at = - 1\<rparr>"

lemma stop_sim_at_example_host: "stop_sim_at example_host = - 1"
  by (simp add: example_host_def)

definition example_code :: "i32 list" where
  "example_code = the (LoadImmediate None 3 0x1234567800009abc)"

definition example_mem :: "uword \<Rightarrow> i32 list \<Rightarrow> memory" where
  "example_mem a code = (\<lambda>b. let k = unat (b - a) in
     if k div 4 < length code then ucast (drop_bit (8 * (k mod 4)) (code ! (k div 4))) else 0)"

definition example_state :: "i32 list \<Rightarrow> sim" where
  "example_state code = (Simulator_init (example_mem 0x10000 code) 0x20000 0)\<lparr>pc := 0x10000\<rparr>"

theorem LoadImmediate_correct_witness:
  "LoadImmediate None 3 0x1234567800009abc = Some example_code \<and> length example_code \<le> 4 \<and>
    (sim_step example_host ^^ length example_code) (example_state example_code)
      (advance (length example_code) (write_reg 3 0x1234567800009abc (example_state example_code)))"
proof (rule LoadImmediate_correct)
  show "code_at (mem (example_state example_code)) (pc (example_state example_code)) example_code"
    by code_simp
qed (simp_all add: example_code_def stop_sim_at_example_host)

section \<open>Adding and comparing with an immediate\<close>

text \<open>What a macro instruction may change: its result register and the scratch register \<open>TMP2\<close>.\<close>

definition only_registers :: "Register set \<Rightarrow> sim \<Rightarrow> sim \<Rightarrow> bool" where
  "only_registers A s t \<longleftrightarrow> t\<lparr>registers := registers s\<rparr> = s \<and> (\<forall>r. r \<in> A \<or> registers t r = registers s r)"

lemma only_registers_write: "r \<in> A \<Longrightarrow> only_registers A s t \<Longrightarrow> only_registers A s (write_reg r v t)"
  by (auto simp: only_registers_def write_reg_def)

lemma only_registers_refl: "only_registers A s s"
  by (simp add: only_registers_def)

lemma only_registers_flags:
  assumes "only_registers A s t"
  shows "n_flag t = n_flag s" "z_flag t = z_flag s" "c_flag t = c_flag s" "v_flag t = v_flag s"
proof -
  have e: "t\<lparr>registers := registers s\<rparr> = s" using assms by (simp add: only_registers_def)
  show "n_flag t = n_flag s" "z_flag t = z_flag s" "c_flag t = c_flag s" "v_flag t = v_flag s"
    using arg_cong [OF e, of n_flag] arg_cong [OF e, of z_flag] arg_cong [OF e, of c_flag] arg_cong [OF e, of v_flag]
    by simp_all
qed

lemma AddImmediate_straight:
  assumes code: "AddImmediate None dest rn imm = Some code" and r: "dest < 31" "rn < 31" "rn \<noteq> TMP2"
  shows "\<exists>F. straight h code F \<and> (\<forall>s. registers (F s) dest = registers s rn + imm \<and> only_registers {dest, TMP2} s (F s))"
proof -
  have T: "TMP2 < 31" by (simp add: TMP2_def)
  have w: "(\<forall>s. registers (write_reg dest (registers s rn + imm) s) dest = registers s rn + imm \<and>
      only_registers {dest, TMP2} s (write_reg dest (registers s rn + imm) s))"
    by (simp add: only_registers_write only_registers_refl)
  consider "imm = 0" "dest = rn" | "imm = 0" "dest \<noteq> rn" | "imm \<noteq> 0" "operand_type (CanHold imm 64) = Immediate"
    | "imm \<noteq> 0" "operand_type (CanHold imm 64) \<noteq> Immediate" "operand_type (CanHold (- imm) 64) = Immediate"
    | "imm \<noteq> 0" "operand_type (CanHold imm 64) \<noteq> Immediate" "operand_type (CanHold (- imm) 64) \<noteq> Immediate" by blast
  then show ?thesis
  proof cases
    case 1
    then have "code = []" using code by (simp add: AddImmediate_def)
    then show ?thesis using 1 straight.Nil [of h] only_registers_refl by auto
  next
    case 2
    then show ?thesis using code straight_mov [OF r(1,2)] w
      by (intro exI [of _ "\<lambda>s. write_reg dest (registers s rn) s"]) (simp add: AddImmediate_def)
  next
    case 3
    then show ?thesis using code straight_add_imm(1) [OF 3(2) r(1,2)] w
      by (intro exI [of _ "\<lambda>s. write_reg dest (registers s rn + imm) s"]) (simp add: AddImmediate_def)
  next
    case 4
    then show ?thesis using code straight_add_imm(2) [OF 4(3) r(1,2)] w
      by (intro exI [of _ "\<lambda>s. write_reg dest (registers s rn + imm) s"]) (simp add: AddImmediate_def)
  next
    case 5
    then obtain c where c: "LoadImmediate None TMP2 imm = Some c" "code = c @ add dest rn (Operand_reg TMP2)"
      using code by (auto simp: AddImmediate_def)
    let ?F = "\<lambda>s. write_reg dest (registers s rn + imm) (write_reg TMP2 imm s)"
    have "straight h code ?F"
      using straight_append [OF LoadImmediate_straight [OF c(1) T] straight_add_reg [OF r(1,2) T]] r(3)
      by (simp add: c(2)) (simp add: write_reg_def)
    moreover have "only_registers {dest, TMP2} s (?F s)" for s
      by (simp add: only_registers_write only_registers_refl)
    ultimately show ?thesis by (intro exI [of _ ?F]) simp
  qed
qed

lemma CanHold_Immediate_range:
  assumes "operand_type (CanHold imm 64) = Immediate"
  shows "uint imm < 2 ^ 63"
proof -
  obtain x :: i32 where "ucast x = imm" using CanHold_Immediate [OF assms] by metis
  then show ?thesis using u32_range [of x] uint_ucast_32_64 [of x] by auto
qed

lemma CompareImmediate_straight:
  assumes code: "CompareImmediate None rn imm = Some code" and r: "rn < 31" "rn \<noteq> TMP2"
  shows "\<exists>F. straight h code (\<lambda>s. addsub_flags False (registers s rn) imm (F s)) \<and> (\<forall>s. only_registers {TMP2} s (F s))"
proof -
  have T: "TMP2 < 31" by (simp add: TMP2_def)
  consider "operand_type (CanHold imm 64) = Immediate"
    | "operand_type (CanHold imm 64) \<noteq> Immediate" "operand_type (CanHold (- imm) 64) = Immediate"
    | "operand_type (CanHold imm 64) \<noteq> Immediate" "operand_type (CanHold (- imm) 64) \<noteq> Immediate" by blast
  then show ?thesis
  proof cases
    case 1
    then show ?thesis using code straight_cmp_imm(1) [OF 1 r(1)] only_registers_refl
      by (intro exI [of _ "\<lambda>s. s"]) (auto simp: CompareImmediate_def)
  next
    case 2
    have "imm \<noteq> 0" using 2(1) by (auto simp: CanHold_def IsUint_12)
    then have "addsub_flags True a (- imm) s = addsub_flags False a imm s" for a s
      using add_negated_flags [of "- imm" a s] CanHold_Immediate_range [OF 2(2)] u64_range(1) [of "- imm"]
      by (metis add.inverse_inverse add.inverse_neutral order_le_less uint_0_iff)
    then show ?thesis using code 2 straight_cmp_imm(2) [OF 2(2) r(1)] only_registers_refl
      by (intro exI [of _ "\<lambda>s. s"]) (auto simp: CompareImmediate_def)
  next
    case 3
    then obtain c where c: "LoadImmediate None TMP2 imm = Some c" "code = c @ cmp rn (Operand_reg TMP2)"
      using code by (auto simp: CompareImmediate_def)
    have "straight h code (\<lambda>s. addsub_flags False (registers s rn) imm (write_reg TMP2 imm s))"
      using straight_append [OF LoadImmediate_straight [OF c(1) T] straight_cmp_reg [OF r(1) T]] r(2)
      by (simp add: c(2)) (simp add: write_reg_def)
    then show ?thesis
      by (intro exI [of _ "write_reg TMP2 imm"]) (simp add: only_registers_write only_registers_refl)
  qed
qed

text \<open>C18. \<open>AddImmediate\<close> without a constant pool, on any two general registers other than the scratch
  register as the source: the code it emits for any 64-bit value, run in the simulator, ends behind
  itself with the wrapped sum in the destination; only the destination and the scratch register
  may differ.\<close>

theorem AddImmediate_correct:
  assumes "dest < 31" "rn < 31" "rn \<noteq> TMP2" and "code = the (AddImmediate None dest rn imm)"
    and "code_at (mem s) (pc s) code" and "stop_sim_at h = - 1"
  shows "AddImmediate None dest rn imm = Some code \<and>
    (\<exists>t. (sim_step h ^^ length code) s (advance (length code) t) \<and>
         registers t dest = registers s rn + imm \<and> only_registers {dest, TMP2} s t)"
proof -
  have c: "AddImmediate None dest rn imm = Some code"
    using LoadImmediate_total [of TMP2 imm] assms(4) by (auto simp: AddImmediate_def)
  obtain F where "straight h code F"
      "\<forall>s. registers (F s) dest = registers s rn + imm \<and> only_registers {dest, TMP2} s (F s)"
    using AddImmediate_straight [OF c assms(1-3)] by blast
  then show ?thesis using c straight_steps [OF _ assms(5,6)] by blast
qed

definition example_add :: "i32 list" where
  "example_add = the (AddImmediate None 2 5 0x123456789)"

theorem AddImmediate_correct_witness:
  "AddImmediate None 2 5 0x123456789 = Some example_add \<and>
    (\<exists>t. (sim_step example_host ^^ length example_add) (example_state example_add) (advance (length example_add) t) \<and>
         registers t 2 = registers (example_state example_add) 5 + 0x123456789 \<and>
         only_registers {2, TMP2} (example_state example_add) t)"
proof (rule AddImmediate_correct)
  show "code_at (mem (example_state example_add)) (pc (example_state example_add)) example_add"
    by code_simp
qed (simp_all add: example_add_def stop_sim_at_example_host TMP2_def)

definition condition_of :: "i32 \<Rightarrow> Condition" where
  "condition_of i = (if IsConditionalSelectOp i then SelectConditionField i else ConditionField i)"

text \<open>C17. \<open>CompareImmediate\<close> without a constant pool: after the emitted code has run, every conditional
  instruction takes its condition exactly when the unsigned, signed or equality comparison it
  stands for holds between the register and the 64-bit value. Whichever of the three code shapes
  was chosen, only the flags and the scratch register differ.\<close>

theorem CompareImmediate_correct:
  assumes "rn < 31" "rn \<noteq> TMP2" and "code = the (CompareImmediate None rn imm)"
    and "code_at (mem s) (pc s) code" and "stop_sim_at h = - 1" and "condition_of i \<noteq> NV"
  shows "CompareImmediate None rn imm = Some code \<and>
    (\<exists>t. (sim_step h ^^ length code) s (advance (length code) t) \<and>
         ConditionallyExecute i t = Inr (comparison (condition_of i) (registers s rn) imm) \<and>
         only_registers {TMP2} s (write_flags (n_flag s) (z_flag s) (c_flag s) (v_flag s) t))"
proof -
  have c: "CompareImmediate None rn imm = Some code"
    using LoadImmediate_total [of TMP2 imm] assms(3) by (auto simp: CompareImmediate_def)
  obtain F where F: "straight h code (\<lambda>s. addsub_flags False (registers s rn) imm (F s))" "\<forall>s. only_registers {TMP2} s (F s)"
    using CompareImmediate_straight [OF c assms(1,2)] by blast
  let ?t = "addsub_flags False (registers s rn) imm (F s)"
  have "ConditionallyExecute i ?t = Inr (comparison (condition_of i) (registers s rn) imm)"
    using comparison_flags [OF assms(6)] by (simp add: condition_of_def)
  moreover have "only_registers {TMP2} s (write_flags (n_flag s) (z_flag s) (c_flag s) (v_flag s) ?t)"
  proof -
    have f: "only_registers {TMP2} s (F s)" using F(2) by simp
    then have "n_flag (F s) = n_flag s" "z_flag (F s) = z_flag s" "c_flag (F s) = c_flag s" "v_flag (F s) = v_flag s"
      by (simp_all add: only_registers_flags)
    then have "write_flags (n_flag s) (z_flag s) (c_flag s) (v_flag s) ?t = F s"
      by (simp add: addsub_flags_def write_flags_def Let_def)
    then show ?thesis using f by simp
  qed
  ultimately show ?thesis using c straight_steps [OF F(1) assms(4,5)] by blast
qed

definition example_compare :: "i32 list" where
  "example_compare = the (CompareImmediate None 1 0x123456789)"

theorem CompareImmediate_correct_witness:
  "CompareImmediate None 1 0x123456789 = Some example_compare \<and>
    (\<exists>t. (sim_step example_host ^^ length example_compare) (example_state example_compare) (advance (length example_compare) t) \<and>
         ConditionallyExecute 0x5400000b t
           = Inr (comparison (condition_of 0x5400000b) (registers (example_state example_compare) 1) 0x123456789) \<and>
         only_registers {TMP2} (example_state example_compare)
           (write_flags (n_flag (example_state example_compare)) (z_flag (example_state example_compare))
             (c_flag (example_state example_compare)) (v_flag (example_state example_compare)) t))"
proof (rule CompareImmediate_correct)
  show "code_at (mem (example_state example_compare)) (pc (example_state example_compare)) example_compare"
    by code_simp
  show "condition_of 0x5400000b \<noteq> NV" by code_simp
qed (simp_all add: example_compare_def stop_sim_at_example_host TMP2_def)

end
