(* ===== verification/Arm64_Labels.thy ===== *)
theory Arm64_Labels
  imports Arm64_Codec
begin

text \<open>
  Labels and branches to them: the class \<open>Label\<close> of
  \<^verbatim>\<open>runtime/vm/compiler/assembler/assembler.h\<close>, the branch emitters of
  \<^verbatim>\<open>assembler_arm64.h\<close> and \<open>Bind\<close> of \<^verbatim>\<open>assembler_arm64.cc\<close>.

  A label that is not bound yet heads a linked list which runs through the offset fields of the
  branches emitted to it. \<open>Bind\<close> walks the list and replaces every link by the offset to the
  bound position. A branch offset that does not fit its field bails out of the assembly, which is
  the error value \<open>BranchOffsetError\<close>. The buffer is the list of instruction words emitted so
  far, so that its size in bytes is four times its length; the fields of \<open>Label\<close> that only the Intel
  assemblers use are left out.
\<close>

section \<open>Definitions\<close>

datatype asm_fault = BranchOffsetError

record Label =
  position :: i64

definition kBias :: i64 where "kBias = 4"

definition IsBound :: "Label \<Rightarrow> bool" where "IsBound l \<longleftrightarrow> position l <s 0"
definition IsLinked :: "Label \<Rightarrow> bool" where "IsLinked l \<longleftrightarrow> 0 <s position l"
definition IsUnused :: "Label \<Rightarrow> bool" where "IsUnused l \<longleftrightarrow> position l = 0"

definition Position :: "Label \<Rightarrow> i64" where
  "Position l = (if IsBound l then - position l - kBias else position l - kBias)"

definition BindTo :: "i64 \<Rightarrow> Label \<Rightarrow> Label" where
  "BindTo pos l = l\<lparr>position := - pos - kBias\<rparr>"

definition LinkTo :: "i64 \<Rightarrow> Label \<Rightarrow> Label" where
  "LinkTo pos l = l\<lparr>position := pos + kBias\<rparr>"

record Assembler =
  buffer :: "i32 list"
  use_far_branches :: bool

definition Size :: "Assembler \<Rightarrow> i64" where
  "Size a = of_nat (4 * length (buffer a))"

definition Emit :: "i32 list \<Rightarrow> Assembler \<Rightarrow> Assembler" where
  "Emit code a = a\<lparr>buffer := buffer a @ code\<rparr>"

definition Load :: "Assembler \<Rightarrow> i64 \<Rightarrow> i32" where
  "Load a pos = buffer a ! (unat pos div 4)"

definition Store :: "i64 \<Rightarrow> i32 \<Rightarrow> Assembler \<Rightarrow> Assembler" where
  "Store pos v a = a\<lparr>buffer := (buffer a)[unat pos div 4 := v]\<rparr>"

definition kImm14Mask :: i32 where "kImm14Mask = 0x7ffe0"
definition kImm19Mask :: i32 where "kImm19Mask = 0xffffe0"
definition kImm26Mask :: i32 where "kImm26Mask = 0x03ffffff"
definition kCondMask :: i32 where "kCondMask = 0xf"
definition kNopInstruction :: i32 where "kNopInstruction = SystemOp_bits HINT"

definition EncodeImm26BranchOffset :: "i64 \<Rightarrow> i32 \<Rightarrow> i32" where
  "EncodeImm26BranchOffset imm instr =
     (let imm32 = ucast imm :: i32;
          off = push_bit 0 (signed_drop_bit 2 imm32) AND kImm26Mask
      in (instr AND NOT kImm26Mask) OR off)"

definition DecodeImm26BranchOffset :: "i32 \<Rightarrow> i64" where
  "DecodeImm26BranchOffset instr =
     scast (signed_drop_bit 4 (push_bit 6 (signed_drop_bit 0 (instr AND kImm26Mask))))"

definition CanEncodeImm19BranchOffset :: "i64 \<Rightarrow> bool" where
  "CanEncodeImm19BranchOffset offset = IsInt 21 offset"

definition CanEncodeImm14BranchOffset :: "i64 \<Rightarrow> bool" where
  "CanEncodeImm14BranchOffset offset = IsInt 16 offset"

definition EncodeImm19BranchOffset :: "i64 \<Rightarrow> i32 \<Rightarrow> asm_fault + i32" where
  "EncodeImm19BranchOffset imm instr =
     (if \<not> CanEncodeImm19BranchOffset imm then Inl BranchOffsetError
      else let imm32 = ucast imm :: i32;
               off = push_bit 5 (signed_drop_bit 2 imm32) AND kImm19Mask
           in Inr ((instr AND NOT kImm19Mask) OR off))"

definition DecodeImm19BranchOffset :: "i32 \<Rightarrow> i64" where
  "DecodeImm19BranchOffset instr =
     scast (signed_drop_bit 11 (push_bit 13 (signed_drop_bit 5 (instr AND kImm19Mask))))"

definition EncodeImm14BranchOffset :: "i64 \<Rightarrow> i32 \<Rightarrow> asm_fault + i32" where
  "EncodeImm14BranchOffset imm instr =
     (if \<not> CanEncodeImm14BranchOffset imm then Inl BranchOffsetError
      else let imm32 = ucast imm :: i32;
               off = push_bit 5 (signed_drop_bit 2 imm32) AND kImm14Mask
           in Inr ((instr AND NOT kImm14Mask) OR off))"

definition DecodeImm14BranchOffset :: "i32 \<Rightarrow> i64" where
  "DecodeImm14BranchOffset instr =
     scast (signed_drop_bit 16 (push_bit 18 (signed_drop_bit 5 (instr AND kImm14Mask))))"

definition IsConditionalBranch :: "i32 \<Rightarrow> bool" where
  "IsConditionalBranch instr \<longleftrightarrow>
     instr AND ConditionalBranchMask = ConditionalBranchFixed AND ConditionalBranchMask"

definition IsCompareAndBranch :: "i32 \<Rightarrow> bool" where
  "IsCompareAndBranch instr \<longleftrightarrow>
     instr AND CompareAndBranchMask = CompareAndBranchFixed AND CompareAndBranchMask"

definition IsTestAndBranch :: "i32 \<Rightarrow> bool" where
  "IsTestAndBranch instr \<longleftrightarrow> instr AND TestAndBranchMask = TestAndBranchFixed AND TestAndBranchMask"

definition DecodeImm19BranchCondition :: "i32 \<Rightarrow> Condition" where
  "DecodeImm19BranchCondition instr =
     (if IsConditionalBranch instr then Condition_of (instr AND kCondMask)
      else if instr AND B24 \<noteq> 0 then EQ else NE)"

definition EncodeImm19BranchCondition :: "Condition \<Rightarrow> i32 \<Rightarrow> i32" where
  "EncodeImm19BranchCondition cond instr =
     (if IsConditionalBranch instr then (instr AND NOT kCondMask) OR Condition_val cond
      else (instr AND NOT B24) OR (if cond = EQ then B24 else 0))"

definition DecodeImm14BranchCondition :: "i32 \<Rightarrow> Condition" where
  "DecodeImm14BranchCondition instr = (if instr AND B24 \<noteq> 0 then EQ else NE)"

definition EncodeImm14BranchCondition :: "Condition \<Rightarrow> i32 \<Rightarrow> i32" where
  "EncodeImm14BranchCondition cond instr =
     (instr AND NOT B24) OR (if cond = EQ then B24 else 0)"

definition EmitCompareAndBranchOp ::
    "CompareAndBranchOp \<Rightarrow> Register \<Rightarrow> i64 \<Rightarrow> OperandSize \<Rightarrow> Assembler \<Rightarrow> asm_fault + Assembler" where
  "EmitCompareAndBranchOp op rt imm sz a =
     bindE (EncodeImm19BranchOffset imm 0) (\<lambda>encoded_offset.
       Inr (Emit [CompareAndBranchOp_bits op OR size_bit sz OR Rt rt OR encoded_offset] a))"

definition EmitTestAndBranchOp ::
    "TestAndBranchOp \<Rightarrow> Register \<Rightarrow> i64 \<Rightarrow> i64 \<Rightarrow> Assembler \<Rightarrow> asm_fault + Assembler" where
  "EmitTestAndBranchOp op rt bit_number imm a =
     bindE (EncodeImm14BranchOffset imm 0) (\<lambda>encoded_offset.
       let crt = ConcreteRegister rt;
           bit_number_low = ucast (bit_number AND 0x1f) :: i32;
           bit_number_hi = ucast (signed_drop_bit 5 (bit_number AND 0x20)) :: i32
       in Inr (Emit [TestAndBranchOp_bits op OR push_bit 19 bit_number_low OR push_bit 31 bit_number_hi
                     OR of_nat crt OR encoded_offset] a))"

definition EmitConditionalBranchOp ::
    "ConditionalBranchOp \<Rightarrow> Condition \<Rightarrow> i64 \<Rightarrow> Assembler \<Rightarrow> asm_fault + Assembler" where
  "EmitConditionalBranchOp op cond imm a =
     bindE (EncodeImm19BranchOffset imm 0) (\<lambda>off.
       Inr (Emit [ConditionalBranchOp_bits op OR Condition_val cond OR off] a))"

definition EmitConditionalBranch ::
    "ConditionalBranchOp \<Rightarrow> Condition \<Rightarrow> Assembler \<times> Label \<Rightarrow> asm_fault + Assembler \<times> Label" where
  "EmitConditionalBranch op cond = (\<lambda>(a, label).
     if IsBound label then
       let dest = Position label - Size a
       in bindE
            (if use_far_branches a \<and> \<not> CanEncodeImm19BranchOffset dest then
               if cond = AL then Inr (Emit (b_offset (ucast dest)) a)
               else bindE (EmitConditionalBranchOp op (InvertCondition cond) 8 a) (\<lambda>a.
                      let dest = Position label - Size a
                      in Inr (Emit (b_offset (ucast dest)) a))
             else EmitConditionalBranchOp op cond dest a)
            (\<lambda>a. Inr (a, label))
     else
       let pos = Size a
       in bindE
            (if use_far_branches a then
               bindE (EmitConditionalBranchOp op (InvertCondition cond) 8 a) (\<lambda>a.
                 Inr (Emit (b_offset (ucast (position label))) a))
             else EmitConditionalBranchOp op cond (position label) a)
            (\<lambda>a. Inr (a, LinkTo pos label)))"

definition EmitCompareAndBranch ::
    "CompareAndBranchOp \<Rightarrow> Register \<Rightarrow> OperandSize \<Rightarrow> Assembler \<times> Label \<Rightarrow> asm_fault + Assembler \<times> Label" where
  "EmitCompareAndBranch op rt sz = (\<lambda>(a, label).
     let inverted = (if op = CBZ then CBNZ else CBZ)
     in if IsBound label then
          let dest = Position label - Size a
          in bindE
               (if use_far_branches a \<and> \<not> CanEncodeImm19BranchOffset dest then
                  bindE (EmitCompareAndBranchOp inverted rt 8 sz a) (\<lambda>a.
                    let dest = Position label - Size a
                    in Inr (Emit (b_offset (ucast dest)) a))
                else EmitCompareAndBranchOp op rt dest sz a)
               (\<lambda>a. Inr (a, label))
        else
          let pos = Size a
          in bindE
               (if use_far_branches a then
                  bindE (EmitCompareAndBranchOp inverted rt 8 sz a) (\<lambda>a.
                    Inr (Emit (b_offset (ucast (position label))) a))
                else EmitCompareAndBranchOp op rt (position label) sz a)
               (\<lambda>a. Inr (a, LinkTo pos label)))"

definition EmitTestAndBranch ::
    "TestAndBranchOp \<Rightarrow> Register \<Rightarrow> i64 \<Rightarrow> Assembler \<times> Label \<Rightarrow> asm_fault + Assembler \<times> Label" where
  "EmitTestAndBranch op rt bit_number = (\<lambda>(a, label).
     let inverted = (if op = TBZ then TBNZ else TBZ)
     in if IsBound label then
          let dest = Position label - Size a
          in bindE
               (if use_far_branches a \<and> \<not> CanEncodeImm14BranchOffset dest then
                  bindE (EmitTestAndBranchOp inverted rt bit_number 8 a) (\<lambda>a.
                    let dest = Position label - Size a
                    in Inr (Emit (b_offset (ucast dest)) a))
                else EmitTestAndBranchOp op rt bit_number dest a)
               (\<lambda>a. Inr (a, label))
        else
          let pos = Size a
          in bindE
               (if use_far_branches a then
                  bindE (EmitTestAndBranchOp inverted rt bit_number 8 a) (\<lambda>a.
                    Inr (Emit (b_offset (ucast (position label))) a))
                else EmitTestAndBranchOp op rt bit_number (position label) a)
               (\<lambda>a. Inr (a, LinkTo pos label)))"

definition BindImm19Branch :: "i64 \<Rightarrow> i64 \<Rightarrow> Assembler \<Rightarrow> asm_fault + i32 \<times> Assembler" where
  "BindImm19Branch pos dest a =
     (if use_far_branches a \<and> \<not> CanEncodeImm19BranchOffset dest then
        let guard_branch = Load a (pos + 0 * 4);
            far_branch = Load a (pos + 1 * 4);
            c = DecodeImm19BranchCondition guard_branch;
            next = ucast (DecodeImm26BranchOffset far_branch) :: i32;
            offset = dest - 4;
            encoded_branch = EncodeImm26BranchOffset offset far_branch;
            a = (if c = NV then Store (pos + 0 * 4) kNopInstruction a else a);
            a = Store (pos + 1 * 4) encoded_branch a
        in Inr (next, a)
      else if use_far_branches a \<and> CanEncodeImm19BranchOffset dest then
        let guard_branch = Load a (pos + 0 * 4);
            far_branch = Load a (pos + 1 * 4);
            next = ucast (DecodeImm26BranchOffset far_branch) :: i32
        in bindE (EncodeImm19BranchOffset dest guard_branch) (\<lambda>encoded_guard_branch.
             let c = DecodeImm19BranchCondition encoded_guard_branch;
                 encoded_guard_branch = EncodeImm19BranchCondition (InvertCondition c) encoded_guard_branch;
                 a = Store (pos + 0 * 4) encoded_guard_branch a;
                 a = Store (pos + 1 * 4) kNopInstruction a
             in Inr (next, a))
      else
        let next = Load a pos
        in bindE (EncodeImm19BranchOffset dest next) (\<lambda>encoded.
             Inr (ucast (DecodeImm19BranchOffset next), Store pos encoded a)))"

definition BindImm14Branch :: "i64 \<Rightarrow> i64 \<Rightarrow> Assembler \<Rightarrow> asm_fault + i32 \<times> Assembler" where
  "BindImm14Branch pos dest a =
     (if use_far_branches a \<and> \<not> CanEncodeImm14BranchOffset dest then
        let guard_branch = Load a (pos + 0 * 4);
            far_branch = Load a (pos + 1 * 4);
            c = DecodeImm14BranchCondition guard_branch;
            next = ucast (DecodeImm26BranchOffset far_branch) :: i32;
            offset = dest - 4;
            encoded_branch = EncodeImm26BranchOffset offset far_branch;
            a = (if c = NV then Store (pos + 0 * 4) kNopInstruction a else a);
            a = Store (pos + 1 * 4) encoded_branch a
        in Inr (next, a)
      else if use_far_branches a \<and> CanEncodeImm14BranchOffset dest then
        let guard_branch = Load a (pos + 0 * 4);
            far_branch = Load a (pos + 1 * 4);
            next = ucast (DecodeImm26BranchOffset far_branch) :: i32
        in bindE (EncodeImm14BranchOffset dest guard_branch) (\<lambda>encoded_guard_branch.
             let c = DecodeImm14BranchCondition encoded_guard_branch;
                 encoded_guard_branch = EncodeImm14BranchCondition (InvertCondition c) encoded_guard_branch;
                 a = Store (pos + 0 * 4) encoded_guard_branch a;
                 a = Store (pos + 1 * 4) kNopInstruction a
             in Inr (next, a))
      else
        let next = Load a pos
        in bindE (EncodeImm14BranchOffset dest next) (\<lambda>encoded.
             Inr (ucast (DecodeImm14BranchOffset next), Store pos encoded a)))"

text \<open>The loop of \<open>Bind\<close>; it follows the links, and a cyclic list would never end.\<close>

partial_function (option) Bind_loop ::
    "i64 \<Rightarrow> Assembler \<times> Label \<Rightarrow> (asm_fault + Assembler \<times> Label) option" where
  "Bind_loop bound_pc x =
     (let (a, label) = x
      in if IsLinked label then
           let pos = Position label;
               dest = bound_pc - pos
           in case (if IsTestAndBranch (Load a pos) then BindImm14Branch pos dest a
                    else BindImm19Branch pos dest a) of
                Inl e \<Rightarrow> Some (Inl e)
              | Inr (next, a) \<Rightarrow> Bind_loop bound_pc (a, label\<lparr>position := scast next\<rparr>)
         else Some (Inr (a, label)))"

declare Bind_loop.simps [code]

definition Bind :: "Assembler \<times> Label \<Rightarrow> (asm_fault + Assembler \<times> Label) option" where
  "Bind x =
     (let bound_pc = Size (fst x)
      in case Bind_loop bound_pc x of
           None \<Rightarrow> None
         | Some (Inl e) \<Rightarrow> Some (Inl e)
         | Some (Inr (a, label)) \<Rightarrow> Some (Inr (a, BindTo bound_pc label)))"

end
