(* ===== verification/Arm64_Backpatch.thy ===== *)
theory Arm64_Backpatch
  imports Arm64_Labels
begin

text \<open>
  Correctness of the one-pass assembly of branches to labels. A branch that is emitted before its
  label is bound holds a link to the previous such branch, and \<open>Bind\<close> replaces every link by an
  offset. The locale \<open>branch_form\<close> states what this relies on: the code of a branch to an unbound
  label holds the link, \<open>Bind\<close> turns that code into the code of a branch over a known distance and
  continues at the link. It is interpreted for the near branches of one word and for the far branches
  of two, and gives in both cases that emitting and binding produce the code of a two-pass
  reference that knows the position of the label from the start.
\<close>

section \<open>Offset fields\<close>

text \<open>The three offset fields are instances of a field of \<open>c\<close> bits at bit \<open>p\<close>.\<close>

definition put_offset :: "nat \<Rightarrow> nat \<Rightarrow> i64 \<Rightarrow> i32 \<Rightarrow> i32" where
  "put_offset p c imm instr =
     (instr AND NOT (push_bit p (mask c))) OR (push_bit p (signed_drop_bit 2 (ucast imm)) AND push_bit p (mask c))"

definition get_offset :: "nat \<Rightarrow> nat \<Rightarrow> i32 \<Rightarrow> i64" where
  "get_offset p c instr =
     scast (signed_drop_bit (30 - c) (push_bit (32 - c) (signed_drop_bit p (instr AND push_bit p (mask c)))))"

lemma offset_fields:
  "EncodeImm26BranchOffset imm i = put_offset 0 26 imm i" "DecodeImm26BranchOffset i = get_offset 0 26 i"
  "EncodeImm19BranchOffset imm i = (if CanEncodeImm19BranchOffset imm then Inr (put_offset 5 19 imm i) else Inl BranchOffsetError)"
  "DecodeImm19BranchOffset i = get_offset 5 19 i"
  "EncodeImm14BranchOffset imm i = (if CanEncodeImm14BranchOffset imm then Inr (put_offset 5 14 imm i) else Inl BranchOffsetError)"
  "DecodeImm14BranchOffset i = get_offset 5 14 i"
  by (simp_all add: EncodeImm26BranchOffset_def DecodeImm26BranchOffset_def EncodeImm19BranchOffset_def DecodeImm19BranchOffset_def
      EncodeImm14BranchOffset_def DecodeImm14BranchOffset_def put_offset_def get_offset_def kImm26Mask_def kImm19Mask_def kImm14Mask_def
      mask_eq_exp_minus_1)

lemma bit_put_offset:
  assumes "p + c \<le> 31" "c \<le> 29" "n < 32"
  shows "bit (put_offset p c imm i) n \<longleftrightarrow> (if p \<le> n \<and> n < p + c then bit imm (n - p + 2) else bit i n)"
  using assms unfolding put_offset_def
  by (auto simp: bit_or_iff bit_and_iff bit_not_iff bit_push_bit_iff bit_mask_iff bit_signed_drop_bit_iff bit_ucast_iff)

lemma bit_get_offset:
  assumes "p + c \<le> 31" "0 < c" "c \<le> 29" "n < 64"
  shows "bit (get_offset p c i) n \<longleftrightarrow> 2 \<le> n \<and> bit i (if n < c + 2 then p + (n - 2) else p + c - 1)"
proof -
  have sd: "bit (signed_drop_bit p (i AND push_bit p (mask c))) k \<longleftrightarrow> k < c \<and> bit i (p + k)" if "k < 32" for k
    using assms that by (auto simp: bit_signed_drop_bit_iff bit_and_iff bit_push_bit_iff bit_mask_iff)
  let ?x = "push_bit (32 - c) (signed_drop_bit p (i AND push_bit p (mask c)))"
  have px: "bit ?x k \<longleftrightarrow> 32 - c \<le> k \<and> bit i (p + (k - (32 - c)))" if "k < 32" for k
    using assms that sd [of "k - (32 - c)"] by (auto simp: bit_push_bit_iff)
  have sx: "bit (signed_drop_bit (30 - c) ?x) k \<longleftrightarrow> bit ?x (if k < c + 2 then 30 - c + k else 31)" if "k < 32" for k
    using assms that by (auto simp: bit_signed_drop_bit_iff)
  have "bit (get_offset p c i) n \<longleftrightarrow> bit (signed_drop_bit (30 - c) ?x) (min 31 n)"
    using assms unfolding get_offset_def by (simp add: bit_signed_iff min_def)
  also have "\<dots> \<longleftrightarrow> bit ?x (if n < c + 2 then 30 - c + n else 31)"
    using assms sx [of "min 31 n"] by (auto simp: min_def split: if_splits)
  also have "\<dots> \<longleftrightarrow> 2 \<le> n \<and> bit i (if n < c + 2 then p + (n - 2) else p + c - 1)"
  proof (cases "n < c + 2")
    case True
    then have e: "30 - c + n < 32" "32 - c \<le> 30 - c + n \<longleftrightarrow> 2 \<le> n" "30 - c + n - (32 - c) = n - 2"
      using assms by linarith+
    show ?thesis using px [OF e(1)] True by (simp only: e if_True)
  next
    case False
    have e: "32 - c \<le> 31" "p + (31 - (32 - c)) = p + c - 1" "2 \<le> n" using assms False by linarith+
    show ?thesis using px [of 31] False e by simp
  qed
  finally show ?thesis .
qed

lemma bit_sint: "n < 64 \<Longrightarrow> bit (sint (v :: i64)) n \<longleftrightarrow> bit v n"
  by (auto simp: bit_sint_iff min_def le_less)

lemma small_signed_bits:
  assumes "- (2 ^ k) \<le> sint (v :: i64)" "sint v < 2 ^ k" "k \<le> n" "n < 64"
  shows "bit v n \<longleftrightarrow> bit v k"
proof -
  have e: "signed_take_bit k (sint v) = sint v"
    using assms by (simp add: signed_take_bit_int_eq_self_iff)
  have "bit (signed_take_bit k (sint v)) n \<longleftrightarrow> bit (sint v) (min k n)" by (simp add: bit_signed_take_bit_iff)
  then show ?thesis using assms bit_sint [of n v] bit_sint [of k v] by (simp add: e min_def)
qed

definition offset_ok :: "nat \<Rightarrow> i64 \<Rightarrow> bool" where
  "offset_ok c imm \<longleftrightarrow> take_bit 2 imm = 0 \<and> - (2 ^ (c + 1)) \<le> sint imm \<and> sint imm < 2 ^ (c + 1)"

lemma get_put_offset:
  assumes c: "p + c \<le> 31" "0 < c" "c \<le> 29" and o: "offset_ok c imm"
  shows "get_offset p c (put_offset p c imm i) = imm"
proof (rule bit_word_eqI)
  fix n assume "n < LENGTH(64)"
  then have n: "n < 64" by simp
  have lo: "\<not> bit imm n" if "n < 2"
  proof -
    have "bit (take_bit 2 imm) n \<longleftrightarrow> bit imm n" using that by (simp add: bit_take_bit_iff)
    then show ?thesis using o by (simp add: offset_ok_def)
  qed
  have hi: "bit imm n \<longleftrightarrow> bit imm (c + 1)" if "c + 1 \<le> n"
    using o that n by (intro small_signed_bits) (auto simp: offset_ok_def)
  show "bit (get_offset p c (put_offset p c imm i)) n \<longleftrightarrow> bit imm n"
  proof (cases "n < 2")
    case False
    then obtain m where m: "n = m + 2" by (metis add.commute le_add_diff_inverse not_less)
    show ?thesis
      unfolding bit_get_offset [OF c n] using c n hi unfolding m by (auto simp: bit_put_offset)
  qed (simp add: bit_get_offset [OF c n] lo)
qed

lemma put_put_offset:
  assumes "p + c \<le> 31" "c \<le> 29"
  shows "put_offset p c d (put_offset p c e i) = put_offset p c d i"
  by (rule bit_word_eqI) (use assms in \<open>simp add: bit_put_offset\<close>)

lemma CanEncode_iff:
  "CanEncodeImm19BranchOffset v \<longleftrightarrow> - (2 ^ 20) \<le> sint v \<and> sint v < 2 ^ 20"
  "CanEncodeImm14BranchOffset v \<longleftrightarrow> - (2 ^ 15) \<le> sint v \<and> sint v < 2 ^ 15"
  by (simp_all add: CanEncodeImm19BranchOffset_def CanEncodeImm14BranchOffset_def IsInt_def Let_def word_sle_eq word_sless_alt)

section \<open>Branches and links\<close>

datatype branch =
    Cond Condition
  | Compare CompareAndBranchOp Register OperandSize
  | Test TestAndBranchOp Register i64

primrec emit_branch :: "branch \<Rightarrow> Assembler \<times> Label \<Rightarrow> asm_fault + Assembler \<times> Label" where
  "emit_branch (Cond c) x = EmitConditionalBranch BCOND c x"
| "emit_branch (Compare op rt sz) x = EmitCompareAndBranch op rt sz x"
| "emit_branch (Test op rt n) x = EmitTestAndBranch op rt n x"

primrec branch_bits :: "branch \<Rightarrow> nat" where
  "branch_bits (Cond c) = 19"
| "branch_bits (Compare op rt sz) = 19"
| "branch_bits (Test op rt n) = 14"

primrec branch_word :: "branch \<Rightarrow> i32" where
  "branch_word (Cond c) = ConditionalBranchOp_bits BCOND OR Condition_val c"
| "branch_word (Compare op rt sz) = CompareAndBranchOp_bits op OR size_bit sz OR Rt rt"
| "branch_word (Test op rt n) = TestAndBranchOp_bits op OR push_bit 19 (ucast (n AND 0x1f))
     OR push_bit 31 (ucast (signed_drop_bit 5 (n AND 0x20))) OR of_nat (ConcreteRegister rt)"

primrec branch_ok :: "branch \<Rightarrow> bool" where
  "branch_ok (Cond c) \<longleftrightarrow> True"
| "branch_ok (Compare op rt sz) \<longleftrightarrow> rt < 34"
| "branch_ok (Test op rt n) \<longleftrightarrow> rt < 34"

definition word_bits :: "i32 \<Rightarrow> nat" where
  "word_bits w = (if IsTestAndBranch w then 14 else 19)"

definition fits_offset :: "nat \<Rightarrow> i64 \<Rightarrow> bool" where
  "fits_offset c d \<longleftrightarrow> - (2 ^ (c + 1)) \<le> sint d \<and> sint d < 2 ^ (c + 1)"

lemma bits_19_14: "branch_bits b = 19 \<or> branch_bits b = 14" "word_bits w = 19 \<or> word_bits w = 14"
  by (cases b) (auto simp: word_bits_def)

lemma IsTestAndBranch_iff: "IsTestAndBranch w \<longleftrightarrow> take_bit 6 (drop_bit 25 w) = 0x1b"
  using mask_run [of 25 6 "0x1b" w] by (simp add: IsTestAndBranch_def op_consts fits_def mask_eq_exp_minus_1)

lemma IsTestAndBranch_put_offset:
  "c \<le> 19 \<Longrightarrow> IsTestAndBranch (put_offset 5 c d w) \<longleftrightarrow> IsTestAndBranch w"
proof -
  assume "c \<le> 19"
  then have "take_bit 6 (drop_bit 25 (put_offset 5 c d w)) = take_bit 6 (drop_bit 25 w)"
    by (intro bit_word_eqI) (auto simp: bit_take_bit_iff bit_drop_bit_eq bit_put_offset)
  then show ?thesis by (simp add: IsTestAndBranch_iff)
qed

lemma fits_Condition_val: "fits 4 (Condition_val c)"
  by (cases c) (simp_all add: fits_def)

lemma fits_bit_number: "fits 5 (ucast ((n :: i64) AND 0x1f))" "fits 1 (ucast (signed_drop_bit 5 ((n :: i64) AND 0x20)))"
proof -
  have a: "n AND 0x1f = take_bit 5 n" by (simp add: take_bit_eq_mask mask_eq_exp_minus_1)
  show "fits 5 (ucast (n AND 0x1f))"
    unfolding fits_def a by (rule bit_word_eqI) (auto simp: bit_take_bit_iff bit_ucast_iff)
  have "(0x20 :: i64) = 2 ^ 5" by simp
  then have b: "bit (n AND 0x20) k \<longleftrightarrow> k = 5 \<and> bit n 5" for k
    by (simp only: bit_and_iff bit_exp_iff) auto
  show "fits 1 (ucast (signed_drop_bit 5 (n AND 0x20)))"
    unfolding fits_def
    by (rule bit_word_eqI) (simp only: bit_take_bit_iff bit_ucast_iff bit_signed_drop_bit_iff b, simp)
qed

lemma word_bits_branch: "branch_ok b \<Longrightarrow> word_bits (branch_word b) = branch_bits b"
proof (cases b)
  case (Cond c)
  then show ?thesis using fits_Condition_val [of c] by (simp add: word_bits_def IsTestAndBranch_iff codec_simps)
next
  case (Compare op rt sz)
  assume "branch_ok b"
  then show ?thesis using Compare fits_creg [of rt]
    by (cases op; cases "sz = kDoubleWord"; simp add: word_bits_def IsTestAndBranch_iff codec_simps size_bit_def Rt_def)
next
  case (Test op rt n)
  assume "branch_ok b"
  moreover note fits_bit_number [of n]
  ultimately show ?thesis using Test fits_creg [of rt]
    by (cases op; simp add: word_bits_def IsTestAndBranch_iff codec_simps)
qed

lemma branch_word_field:
  assumes "branch_ok b"
  shows "take_bit (branch_bits b) (drop_bit 5 (branch_word b)) = 0"
proof (cases b)
  case (Cond c)
  then show ?thesis using fits_Condition_val [of c] by (simp add: codec_simps)
next
  case (Compare op rt sz)
  then show ?thesis using assms fits_creg [of rt]
    by (cases op; cases "sz = kDoubleWord"; simp add: codec_simps size_bit_def Rt_def)
next
  case (Test op rt n)
  then show ?thesis using assms fits_creg [of rt] fits_bit_number [of n]
    by (cases op; simp add: codec_simps)
qed

lemma or_put_offset:
  assumes "take_bit c (drop_bit 5 w) = 0" "c \<le> 19"
  shows "w OR put_offset 5 c d 0 = put_offset 5 c d w"
proof (rule bit_word_eqI)
  fix n assume "n < LENGTH(32)"
  have "\<not> bit w n" if "5 \<le> n" "n < 5 + c"
  proof -
    have "bit (take_bit c (drop_bit 5 w)) (n - 5) \<longleftrightarrow> bit w n" using that less_diff_conv2 [of 5 n c]
      by (simp add: bit_take_bit_iff bit_drop_bit_eq add.commute)
    then show ?thesis using assms(1) by simp
  qed
  then show "bit (w OR put_offset 5 c d 0) n \<longleftrightarrow> bit (put_offset 5 c d w) n"
    using assms(2) \<open>n < LENGTH(32)\<close> by (auto simp: bit_or_iff bit_put_offset)
qed

section \<open>The links of a label\<close>

abbreviation link_of :: "nat \<Rightarrow> i64" where
  "link_of p \<equiv> of_nat (4 * p) + 4"

lemma scast_get_offset:
  assumes "p + c \<le> 31" "0 < c" "c \<le> 29"
  shows "scast (ucast (get_offset p c i) :: i32) = get_offset p c i"
proof (rule bit_word_eqI)
  fix n assume "n < LENGTH(64)"
  then have n: "n < 64" "min 31 n < 64" by simp_all
  have "bit (scast (ucast (get_offset p c i) :: i32) :: i64) n \<longleftrightarrow> bit (get_offset p c i) (min 31 n)"
    using n by (auto simp: bit_signed_iff bit_ucast_iff)
  also have "\<dots> \<longleftrightarrow> bit (get_offset p c i) n"
    unfolding bit_get_offset [OF assms n(1)] bit_get_offset [OF assms n(2)] using assms by (auto simp: min_def)
  finally show "bit (scast (ucast (get_offset p c i) :: i32) :: i64) n \<longleftrightarrow> bit (get_offset p c i) n" .
qed

lemma link_facts:
  assumes "position l = link_of p" "p < 2 ^ 60"
  shows "IsLinked l" "\<not> IsBound l" "Position l = of_nat (4 * p)" "unat (of_nat (4 * p) :: i64) div 4 = p"
    "sint (position l) = 4 * int p + 4"
proof -
  define x :: i64 where "x = of_nat (4 * p)"
  have "4 * p < 2 ^ 64" using assms(2) by simp
  then have u: "unat x = 4 * p" unfolding x_def by (rule unat_of_nat_small)
  then have ux: "uint x = 4 * int p" by (metis of_nat_mult of_nat_numeral uint_nat)
  show "unat (of_nat (4 * p) :: i64) div 4 = p" unfolding x_def [symmetric] u by simp
  have b: "int p < 2 ^ 60" using assms(2) by (metis of_nat_less_iff of_nat_numeral of_nat_power)
  have "uint (x + 4) = 4 * int p + 4"
    using uint_add_lem [of x 4] b by (simp add: ux)
  then show s: "sint (position l) = 4 * int p + 4"
    unfolding assms(1) x_def [symmetric] sint_top64 using b by simp
  then show "IsLinked l" and nb: "\<not> IsBound l" by (simp_all add: IsLinked_def IsBound_def word_sless_alt)
  show "Position l = of_nat (4 * p)" unfolding Position_def if_not_P [OF nb] assms(1) kBias_def by simp
qed

primrec invert_branch :: "branch \<Rightarrow> branch" where
  "invert_branch (Cond c) = Cond (InvertCondition c)"
| "invert_branch (Compare op rt sz) = Compare (if op = CBZ then CBNZ else CBZ) rt sz"
| "invert_branch (Test op rt n) = Test (if op = TBZ then TBNZ else TBZ) rt n"

definition jump_word :: "i64 \<Rightarrow> i32" where
  "jump_word d = put_offset 0 26 d (UnconditionalBranchOp_bits UnconditionalBranchOp.B)"

definition near_code :: "branch \<Rightarrow> i64 \<Rightarrow> asm_fault + i32 list" where
  "near_code b d = (if fits_offset (branch_bits b) d then Inr [put_offset 5 (branch_bits b) d (branch_word b)]
     else Inl BranchOffsetError)"

definition guard_word :: "branch \<Rightarrow> i32" where
  "guard_word b = put_offset 5 (branch_bits b) 8 (branch_word (invert_branch b))"

definition far_link :: "branch \<Rightarrow> i64 \<Rightarrow> asm_fault + i32 list" where
  "far_link b k = Inr [guard_word b, jump_word k]"

definition far_code :: "branch \<Rightarrow> i64 \<Rightarrow> asm_fault + i32 list" where
  "far_code b d = Inr (if fits_offset (branch_bits b) d
     then [put_offset 5 (branch_bits b) d (branch_word b), kNopInstruction]
     else [if b = Cond AL then kNopInstruction else guard_word b, jump_word (d - 4)])"

definition far_back :: "branch \<Rightarrow> i64 \<Rightarrow> asm_fault + i32 list" where
  "far_back b d = Inr (if fits_offset (branch_bits b) d then [put_offset 5 (branch_bits b) d (branch_word b)]
     else if b = Cond AL then [jump_word d] else [guard_word b, jump_word (d - 4)])"

lemma b_offset_jump: "b_offset (ucast d) = [jump_word d]"
proof -
  have m: "signed_drop_bit 2 (scast (ucast d :: i32) :: i64) AND 0x03ffffff = take_bit 26 (signed_drop_bit 2 (scast (ucast d :: i32) :: i64))"
    by (simp add: take_bit_eq_mask mask_eq_exp_minus_1)
  have b: "bit (ucast (take_bit 26 (signed_drop_bit 2 (scast (ucast d :: i32) :: i64))) :: i32) n \<longleftrightarrow> n < 26 \<and> bit d (n + 2)" for n
    by (auto simp: bit_ucast_iff bit_take_bit_iff bit_signed_drop_bit_iff bit_signed_iff min_def add.commute)
  have B: "\<not> bit (UnconditionalBranchOp_bits UnconditionalBranchOp.B) n" if "n < 26" for n
  proof -
    have "UnconditionalBranchOp_bits UnconditionalBranchOp.B = push_bit 26 5" by (simp add: op_consts)
    then show ?thesis using that by (simp only: bit_push_bit_iff) simp
  qed
  have "UnconditionalBranchOp_bits UnconditionalBranchOp.B OR ucast (signed_drop_bit 2 (scast (ucast d :: i32) :: i64) AND 0x03ffffff)
      = put_offset 0 26 d (UnconditionalBranchOp_bits UnconditionalBranchOp.B)"
    unfolding m by (rule bit_word_eqI) (use B in \<open>auto simp: bit_or_iff b bit_put_offset\<close>)
  then show ?thesis by (simp add: b_offset_def EmitUnconditionalBranchOp_def jump_word_def)
qed

lemma invert_simps: "branch_bits (invert_branch b) = branch_bits b" "branch_ok (invert_branch b) = branch_ok b"
  by (cases b; simp)+

lemma Invert_Invert [simp]: "InvertCondition (InvertCondition c) = c"
  by (cases c) (simp_all add: InvertCondition_def Condition_of_def)

lemma fits_8: "fits_offset (branch_bits b) 8"
  using bits_19_14(1) [of b] by (auto simp: fits_offset_def)

primrec emit_op :: "branch \<Rightarrow> i64 \<Rightarrow> Assembler \<Rightarrow> asm_fault + Assembler" where
  "emit_op (Cond c) imm a = EmitConditionalBranchOp BCOND c imm a"
| "emit_op (Compare op rt sz) imm a = EmitCompareAndBranchOp op rt imm sz a"
| "emit_op (Test op rt n) imm a = EmitTestAndBranchOp op rt n imm a"

lemma emit_op_code:
  assumes "branch_ok b"
  shows "emit_op b d a = bindE (near_code b d) (\<lambda>ws. Inr (Emit ws a))"
proof -
  have w: "branch_word b OR put_offset 5 (branch_bits b) d 0 = put_offset 5 (branch_bits b) d (branch_word b)"
    using or_put_offset [OF branch_word_field [OF assms]] bits_19_14(1) [of b] by auto
  show ?thesis
    using w
    by (cases b) (simp_all add: EmitConditionalBranchOp_def EmitCompareAndBranchOp_def EmitTestAndBranchOp_def Let_def
        offset_fields CanEncode_iff near_code_def fits_offset_def or.assoc)
qed

lemma emit_branch_unfold:
  "emit_branch b (a, l) =
    (if IsBound l then
       let dest = Position l - Size a
       in bindE (if use_far_branches a \<and> \<not> fits_offset (branch_bits b) dest then
                   if b = Cond AL then Inr (Emit (b_offset (ucast dest)) a)
                   else bindE (emit_op (invert_branch b) 8 a) (\<lambda>a. Inr (Emit (b_offset (ucast (Position l - Size a))) a))
                 else emit_op b dest a) (\<lambda>a. Inr (a, l))
     else bindE (if use_far_branches a then
                   bindE (emit_op (invert_branch b) 8 a) (\<lambda>a. Inr (Emit (b_offset (ucast (position l))) a))
                 else emit_op b (position l) a) (\<lambda>b. Inr (b, LinkTo (Size a) l)))"
  by (cases b) (simp_all add: EmitConditionalBranch_def EmitCompareAndBranch_def EmitTestAndBranch_def Let_def CanEncode_iff
      fits_offset_def)

lemma Size_Emit: "Size (Emit ws a) = Size a + of_nat (4 * length ws)"
  by (simp add: Size_def Emit_def distrib_left)

lemma Emit_Emit [simp]: "Emit vs (Emit ws a) = Emit (ws @ vs) a"
  by (simp add: Emit_def)

lemma emit_guard:
  "branch_ok b \<Longrightarrow> emit_op (invert_branch b) 8 a = Inr (Emit [guard_word b] a)"
  by (simp add: emit_op_code invert_simps near_code_def fits_8 guard_word_def)

lemma emit_branch_cases:
  assumes "branch_ok b"
  shows "\<not> use_far_branches a \<Longrightarrow> \<not> IsBound l \<Longrightarrow>
      emit_branch b (a, l) = bindE (near_code b (position l)) (\<lambda>ws. Inr (Emit ws a, LinkTo (Size a) l))"
    and "\<not> use_far_branches a \<Longrightarrow> IsBound l \<Longrightarrow>
      emit_branch b (a, l) = bindE (near_code b (Position l - Size a)) (\<lambda>ws. Inr (Emit ws a, l))"
    and "use_far_branches a \<Longrightarrow> \<not> IsBound l \<Longrightarrow>
      emit_branch b (a, l) = bindE (far_link b (position l)) (\<lambda>ws. Inr (Emit ws a, LinkTo (Size a) l))"
    and "use_far_branches a \<Longrightarrow> IsBound l \<Longrightarrow>
      emit_branch b (a, l) = bindE (far_back b (Position l - Size a)) (\<lambda>ws. Inr (Emit ws a, l))"
proof -
  have d: "Position l - Size (Emit [w] a) = Position l - Size a - 4" for w by (simp add: Size_Emit)
  show "\<not> use_far_branches a \<Longrightarrow> \<not> IsBound l \<Longrightarrow>
      emit_branch b (a, l) = bindE (near_code b (position l)) (\<lambda>ws. Inr (Emit ws a, LinkTo (Size a) l))"
    by (simp add: emit_branch_unfold emit_op_code [OF assms] bindE_assoc)
  show "\<not> use_far_branches a \<Longrightarrow> IsBound l \<Longrightarrow>
      emit_branch b (a, l) = bindE (near_code b (Position l - Size a)) (\<lambda>ws. Inr (Emit ws a, l))"
    by (simp add: emit_branch_unfold emit_op_code [OF assms] bindE_assoc Let_def)
  show "use_far_branches a \<Longrightarrow> \<not> IsBound l \<Longrightarrow>
      emit_branch b (a, l) = bindE (far_link b (position l)) (\<lambda>ws. Inr (Emit ws a, LinkTo (Size a) l))"
    by (simp add: emit_branch_unfold emit_guard [OF assms] b_offset_jump far_link_def)
  show "use_far_branches a \<Longrightarrow> IsBound l \<Longrightarrow>
      emit_branch b (a, l) = bindE (far_back b (Position l - Size a)) (\<lambda>ws. Inr (Emit ws a, l))"
    by (simp add: emit_branch_unfold emit_guard [OF assms] b_offset_jump far_back_def d Let_def emit_op_code [OF assms]
        near_code_def)
qed

section \<open>Conditions of guard branches\<close>

definition off_field :: "nat \<Rightarrow> i32 \<Rightarrow> bool" where
  "off_field c m \<longleftrightarrow> push_bit 5 (mask c) AND m = 0"

lemma off_fieldD: "off_field c m \<Longrightarrow> bit m n \<Longrightarrow> n < 32 \<Longrightarrow> \<not> (5 \<le> n \<and> n < 5 + c)"
proof
  assume a: "off_field c m" "bit m n" "n < 32" "5 \<le> n \<and> n < 5 + c"
  then have "bit (push_bit 5 (mask c) AND m) n" by (auto simp: bit_and_iff bit_push_bit_iff bit_mask_iff)
  then show False using a by (simp add: off_field_def)
qed

lemma put_offset_masks:
  assumes "c \<le> 19" "off_field c m"
  shows "put_offset 5 c d w AND m = w AND m"
    "put_offset 5 c d w AND NOT m = put_offset 5 c d (w AND NOT m)"
    "put_offset 5 c d w OR m = put_offset 5 c d (w OR m)"
proof -
  note f = off_fieldD [OF assms(2)]
  show "put_offset 5 c d w AND m = w AND m"
    by (rule bit_word_eqI) (use assms(1) f in \<open>auto simp: bit_and_iff bit_put_offset\<close>)
  show "put_offset 5 c d w AND NOT m = put_offset 5 c d (w AND NOT m)"
    by (rule bit_word_eqI) (use assms(1) f in \<open>auto simp: bit_and_iff bit_put_offset bit_not_iff\<close>)
  show "put_offset 5 c d w OR m = put_offset 5 c d (w OR m)"
    by (rule bit_word_eqI) (use assms(1) f in \<open>auto simp: bit_or_iff bit_put_offset\<close>)
qed

lemma off_field_consts: "off_field 19 kCondMask" "off_field 19 B24" "off_field 14 B24" "off_field 19 (Condition_val c)" "off_field 19 ConditionalBranchMask"
    "off_field k 0"
  by (simp_all add: off_field_def kCondMask_def mask_eq_exp_minus_1 op_consts) (cases c; simp)

lemma bit_24: "bit (0x1000000 :: i32) n \<longleftrightarrow> n = 24"
proof -
  have "(0x1000000 :: i32) = 2 ^ 24" by simp
  then show ?thesis by (simp only: bit_exp_iff) auto
qed

lemma clear_24:
  assumes "\<not> bit x 24"
  shows "x AND B24 = 0" "x AND NOT B24 = x"
proof -
  show "x AND B24 = 0" by (rule bit_word_eqI) (use assms in \<open>simp only: bit_and_iff bit_24, auto\<close>)
  show "x AND NOT B24 = x" by (rule bit_word_eqI) (use assms in \<open>simp only: bit_and_iff bit_not_iff bit_24, auto\<close>)
qed

lemma fields_24:
  "fits 5 r \<Longrightarrow> \<not> bit r 24" "fits 5 r \<Longrightarrow> \<not> bit (push_bit 19 r) 24" "\<not> bit (push_bit 31 r) 24"
  by (auto simp: bit_push_bit_iff dest: fits_bit)

lemma cond_field: "Condition_of (branch_word (Cond c) AND kCondMask) = c"
  "(branch_word (Cond c) AND NOT kCondMask) OR Condition_val e = branch_word (Cond e)"
  "IsConditionalBranch (branch_word (Cond c))"
  by (cases c; simp add: kCondMask_def op_consts Condition_of_def IsConditionalBranch_def)+

lemma IsConditionalBranch_iff: "IsConditionalBranch w \<longleftrightarrow> take_bit 7 (drop_bit 25 w) = 0x2a"
  unfolding IsConditionalBranchOp_iff [symmetric] by (simp add: IsConditionalBranch_def IsConditionalBranchOp_def)

lemma put_offset_not24:
  "c = 19 \<or> c = 14 \<Longrightarrow> put_offset 5 c d w AND - 16777217 = put_offset 5 c d (w AND - 16777217)"
  using put_offset_masks(2) [of 19 B24 d w] put_offset_masks(2) [of 14 B24 d w] by (auto simp: off_field_consts)

lemma compare_word_24:
  assumes "rt < 34"
  shows "branch_word (Compare op rt sz) AND B24 = (if op = CBZ then 0 else B24)"
    "(branch_word (Compare op rt sz) AND NOT B24) = branch_word (Compare CBZ rt sz)"
    "branch_word (Compare CBZ rt sz) OR B24 = branch_word (Compare CBNZ rt sz)"
    "\<not> IsConditionalBranch (branch_word (Compare op rt sz))"
proof -
  note r = clear_24 [OF fields_24(1) [OF fits_creg [OF assms]]]
  show "branch_word (Compare op rt sz) AND B24 = (if op = CBZ then 0 else B24)"
    "(branch_word (Compare op rt sz) AND NOT B24) = branch_word (Compare CBZ rt sz)"
    "branch_word (Compare CBZ rt sz) OR B24 = branch_word (Compare CBNZ rt sz)"
    using r by (cases op; cases "sz = kDoubleWord"; simp add: bit.conj_disj_distrib2 bit.conj_disj_distrib op_consts size_bit_def Rt_def ac_simps)+
  show "\<not> IsConditionalBranch (branch_word (Compare op rt sz))"
    using fits_creg [OF assms]
    by (cases op; cases "sz = kDoubleWord"; simp add: IsConditionalBranch_iff codec_simps size_bit_def Rt_def)
qed

lemma test_word_24:
  assumes "rt < 34"
  shows "branch_word (Test op rt n) AND B24 = (if op = TBZ then 0 else B24)"
    "(branch_word (Test op rt n) AND NOT B24) = branch_word (Test TBZ rt n)"
    "branch_word (Test TBZ rt n) OR B24 = branch_word (Test TBNZ rt n)"
proof -
  note r = clear_24 [OF fields_24(1) [OF fits_creg [OF assms]]]
    clear_24 [OF fields_24(2) [OF fits_bit_number(1) [of n]]] clear_24 [OF fields_24(3) [of "ucast (signed_drop_bit 5 (n AND 0x20))"]]
  show "branch_word (Test op rt n) AND B24 = (if op = TBZ then 0 else B24)"
    "(branch_word (Test op rt n) AND NOT B24) = branch_word (Test TBZ rt n)"
    "branch_word (Test TBZ rt n) OR B24 = branch_word (Test TBNZ rt n)"
    using r by (cases op; simp add: bit.conj_disj_distrib2 bit.conj_disj_distrib op_consts ac_simps)+
qed

lemma IsConditionalBranch_put_offset: "IsConditionalBranch (put_offset 5 19 d w) \<longleftrightarrow> IsConditionalBranch w"
  by (simp add: IsConditionalBranch_def put_offset_masks off_field_consts)

lemma decode_condition:
  assumes "branch_ok b" "branch_bits b = 19"
  shows "DecodeImm19BranchCondition (put_offset 5 19 d (branch_word b)) =
    (case b of Cond c \<Rightarrow> c | Compare op rt sz \<Rightarrow> if op = CBZ then NE else EQ | Test op rt n \<Rightarrow> EQ)"
  using assms
  by (cases b) (auto simp: DecodeImm19BranchCondition_def IsConditionalBranch_put_offset put_offset_masks off_field_consts
      cond_field compare_word_24 simp del: branch_word.simps split: if_splits)

lemma encode_condition:
  assumes "branch_ok b" "branch_bits b = 19"
  shows "EncodeImm19BranchCondition
      (InvertCondition (DecodeImm19BranchCondition (put_offset 5 19 d (branch_word (invert_branch b)))))
      (put_offset 5 19 d (branch_word (invert_branch b))) = put_offset 5 19 d (branch_word b)"
proof (cases b)
  case (Cond c)
  then show ?thesis
    using decode_condition [of "Cond (InvertCondition c)" d]
    by (simp add: EncodeImm19BranchCondition_def IsConditionalBranch_put_offset put_offset_masks off_field_consts cond_field
        del: branch_word.simps)
next
  case (Compare op rt sz)
  have i: "InvertCondition NE = EQ" "InvertCondition EQ = NE" by (simp_all add: InvertCondition_def Condition_of_def)
  show ?thesis
    using assms Compare decode_condition [of "invert_branch b" d] compare_word_24 [of rt]
    by (cases op) (simp_all add: EncodeImm19BranchCondition_def IsConditionalBranch_put_offset put_offset_masks off_field_consts
        put_offset_not24 i del: branch_word.simps)
qed (use assms in simp)

lemma test_condition:
  assumes "branch_ok b" "branch_bits b = 14"
  shows "EncodeImm14BranchCondition
      (InvertCondition (DecodeImm14BranchCondition (put_offset 5 14 d (branch_word (invert_branch b)))))
      (put_offset 5 14 d (branch_word (invert_branch b))) = put_offset 5 14 d (branch_word b)"
    "DecodeImm14BranchCondition (put_offset 5 14 d (branch_word b)) \<noteq> NV"
proof -
  have i: "InvertCondition NE = EQ" "InvertCondition EQ = NE" by (simp_all add: InvertCondition_def Condition_of_def)
  obtain op rt n where b: "b = Test op rt n" "rt < 34" using assms by (cases b) auto
  show "EncodeImm14BranchCondition
      (InvertCondition (DecodeImm14BranchCondition (put_offset 5 14 d (branch_word (invert_branch b)))))
      (put_offset 5 14 d (branch_word (invert_branch b))) = put_offset 5 14 d (branch_word b)"
    unfolding b(1) using test_word_24 [OF b(2)]
    by (cases op) (simp_all add: EncodeImm14BranchCondition_def DecodeImm14BranchCondition_def put_offset_masks off_field_consts
        put_offset_not24 i del: branch_word.simps)
  show "DecodeImm14BranchCondition (put_offset 5 14 d (branch_word b)) \<noteq> NV"
    by (simp add: DecodeImm14BranchCondition_def)
qed

lemma buffer_access:
  assumes "buffer a = xs @ ws @ ys" "length xs + i < 2 ^ 60" "i < length ws"
  shows "Load a (of_nat (4 * length xs) + of_nat i * 4) = ws ! i"
    "Store (of_nat (4 * length xs) + of_nat i * 4) w a = a\<lparr>buffer := xs @ ws[i := w] @ ys\<rparr>"
proof -
  have "of_nat (4 * length xs) + of_nat i * 4 = (of_nat (4 * (length xs + i)) :: i64)" by simp
  moreover have "unat (of_nat (4 * (length xs + i)) :: i64) = 4 * (length xs + i)"
    using assms(2) by (intro unat_of_nat_small) simp
  ultimately have u: "unat (of_nat (4 * length xs) + of_nat i * 4 :: i64) div 4 = length xs + i"
    by (simp only:) simp
  show "Load a (of_nat (4 * length xs) + of_nat i * 4) = ws ! i"
    unfolding Load_def u assms(1) using assms(3) by (simp add: nth_append)
  show "Store (of_nat (4 * length xs) + of_nat i * 4) w a = a\<lparr>buffer := xs @ ws[i := w] @ ys\<rparr>"
    unfolding Store_def u assms(1) using assms(3) by (simp add: list_update_append)
qed

lemma offset_ok_26: "offset_ok 26 k \<Longrightarrow> fits_offset c k \<Longrightarrow> offset_ok c k"
  by (simp add: offset_ok_def fits_offset_def)

lemma word_bits_put_offset: "branch_ok b \<Longrightarrow> word_bits (put_offset 5 (branch_bits b) d (branch_word b)) = branch_bits b"
  using word_bits_branch [of b] bits_19_14(1) [of b] IsTestAndBranch_put_offset [of "branch_bits b" d "branch_word b"]
  by (auto simp: word_bits_def split: if_splits)

lemma IsTest_word:
  "branch_ok b \<Longrightarrow> IsTestAndBranch (put_offset 5 (branch_bits b) d (branch_word b)) \<longleftrightarrow> branch_bits b = 14"
  using word_bits_put_offset [of b d] by (simp add: word_bits_def split: if_splits)

lemma Bind_branch_near:
  assumes "\<not> use_far_branches a" "branch_ok b" "Load a pos = put_offset 5 (branch_bits b) k (branch_word b)" "offset_ok (branch_bits b) k"
  shows "(if IsTestAndBranch (Load a pos) then BindImm14Branch pos d a else BindImm19Branch pos d a) =
    bindE (near_code b d) (\<lambda>ws. Inr (ucast k, Store pos (hd ws) a))"
proof -
  let ?c = "branch_bits b"
  have g: "get_offset 5 ?c (put_offset 5 ?c k (branch_word b)) = k"
    using get_put_offset [of 5 ?c k "branch_word b"] assms(4) bits_19_14(1) [of b] by auto
  have p: "put_offset 5 ?c d (put_offset 5 ?c k (branch_word b)) = put_offset 5 ?c d (branch_word b)"
    using put_put_offset [of 5 ?c d k "branch_word b"] bits_19_14(1) [of b] by auto
  show ?thesis
    using bits_19_14(1) [of b] g p
    by (auto simp: assms(1,3) IsTest_word [OF assms(2)] BindImm14Branch_def BindImm19Branch_def Let_def offset_fields CanEncode_iff
        near_code_def fits_offset_def)
qed

lemma Store_Load: "Store pos (Load a pos) a = a"
  by (simp add: Store_def Load_def)

lemma guard_facts:
  assumes "branch_ok b"
  shows "IsTestAndBranch (guard_word b) \<longleftrightarrow> branch_bits b = 14"
    "branch_bits b = 19 \<Longrightarrow> DecodeImm19BranchCondition (guard_word b) = NV \<longleftrightarrow> b = Cond AL"
    "branch_bits b = 14 \<Longrightarrow> DecodeImm14BranchCondition (guard_word b) \<noteq> NV"
    "put_offset 5 (branch_bits b) d (guard_word b) = put_offset 5 (branch_bits b) d (branch_word (invert_branch b))"
proof -
  let ?i = "invert_branch b"
  have i: "branch_ok ?i" "branch_bits ?i = branch_bits b" using assms by (simp_all add: invert_simps)
  note g = guard_word_def i(2) [symmetric]
  show "IsTestAndBranch (guard_word b) \<longleftrightarrow> branch_bits b = 14" unfolding g by (rule IsTest_word [OF i(1)])
  have nv: "InvertCondition c = NV \<longleftrightarrow> c = AL" for c by (cases c) (simp_all add: InvertCondition_def Condition_of_def)
  show "DecodeImm19BranchCondition (guard_word b) = NV \<longleftrightarrow> b = Cond AL" if "branch_bits b = 19"
    unfolding guard_word_def that using decode_condition [of ?i 8] that i by (cases b) (auto simp: nv)
  show "DecodeImm14BranchCondition (guard_word b) \<noteq> NV" if "branch_bits b = 14"
    unfolding guard_word_def that using test_condition(2) [of ?i 8] that i by simp
  show "put_offset 5 (branch_bits b) d (guard_word b) = put_offset 5 (branch_bits b) d (branch_word ?i)"
    unfolding guard_word_def using put_put_offset [of 5 "branch_bits b"] bits_19_14(1) [of b] by auto
qed

lemma Bind_branch_far:
  assumes "use_far_branches a" "branch_ok b" "Load a pos = guard_word b" "Load a (pos + 4) = jump_word k" "offset_ok 26 k"
  shows "(if IsTestAndBranch (Load a pos) then BindImm14Branch pos d a else BindImm19Branch pos d a) =
    bindE (far_code b d) (\<lambda>ws. Inr (ucast k, Store (pos + 4) (ws ! 1) (Store pos (ws ! 0) a)))"
proof -
  note g = guard_facts [OF assms(2)]
  have k: "get_offset 0 26 (jump_word k) = k" unfolding jump_word_def using get_put_offset [of 0 26 k] assms(5) by simp
  have j: "put_offset 0 26 e (jump_word k) = jump_word e" for e unfolding jump_word_def using put_put_offset [of 0 26] by simp
  have s: "Store pos (guard_word b) a = a" using Store_Load [of pos a] by (simp add: assms(3))
  from bits_19_14(1) [of b] show ?thesis
  proof
    assume c: "branch_bits b = 19"
    then show ?thesis
      using g(1,2) g(4) [of d] encode_condition [OF assms(2) c, of d] k j [of "d - 4"] s assms(1,3,4)
      by (simp add: BindImm19Branch_def Let_def offset_fields CanEncode_iff far_code_def fits_offset_def)
  next
    assume c: "branch_bits b = 14"
    then have "b \<noteq> Cond AL" by auto
    then show ?thesis
      using c g(1,3) g(4) [of d] test_condition(1) [OF assms(2) c, of d] k j [of "d - 4"] s assms(1,3,4)
      by (simp add: BindImm14Branch_def Let_def offset_fields CanEncode_iff far_code_def fits_offset_def)
  qed
qed

section \<open>Sequences of code and branches\<close>

datatype item = Code "i32 list" | Branch branch

primrec emit_item :: "item \<Rightarrow> Assembler \<times> Label \<Rightarrow> asm_fault + Assembler \<times> Label" where
  "emit_item (Code ws) x = Inr (Emit ws (fst x), snd x)"
| "emit_item (Branch b) x = emit_branch b x"

primrec emit_items :: "item list \<Rightarrow> Assembler \<times> Label \<Rightarrow> asm_fault + Assembler \<times> Label" where
  "emit_items [] x = Inr x"
| "emit_items (i # is) x = bindE (emit_item i x) (emit_items is)"

definition assemble :: "item list \<Rightarrow> item list \<Rightarrow> Assembler \<times> Label \<Rightarrow> (asm_fault + Assembler \<times> Label) option" where
  "assemble before after x =
     (case emit_items before x of
        Inl e \<Rightarrow> Some (Inl e)
      | Inr y \<Rightarrow> (case Bind y of
          None \<Rightarrow> None
        | Some (Inl e) \<Rightarrow> Some (Inl e)
        | Some (Inr z) \<Rightarrow> Some (emit_items after z)))"

primrec item_ok :: "item \<Rightarrow> bool" where
  "item_ok (Code ws) \<longleftrightarrow> True"
| "item_ok (Branch b) \<longleftrightarrow> branch_ok b"

primrec item_words :: "nat \<Rightarrow> item \<Rightarrow> nat" where
  "item_words n (Code ws) = length ws"
| "item_words n (Branch b) = n"

definition items_words :: "nat \<Rightarrow> item list \<Rightarrow> nat" where
  "items_words n is = sum_list (map (item_words n) is)"

primrec item_code :: "(branch \<Rightarrow> i64 \<Rightarrow> asm_fault + i32 list) \<Rightarrow> i64 \<Rightarrow> nat \<Rightarrow> item \<Rightarrow> asm_fault + i32 list" where
  "item_code code bound i (Code ws) = Inr ws"
| "item_code code bound i (Branch b) = code b (bound - of_nat (4 * i))"

primrec layout :: "(branch \<Rightarrow> i64 \<Rightarrow> asm_fault + i32 list) \<Rightarrow> i64 \<Rightarrow> nat \<Rightarrow> item list \<Rightarrow> asm_fault + i32 list" where
  "layout code bound i [] = Inr []"
| "layout code bound i (x # xs) =
     bindE (item_code code bound i x) (\<lambda>ws. bindE (layout code bound (i + length ws) xs) (\<lambda>vs. Inr (ws @ vs)))"

inductive linked :: "(branch \<Rightarrow> i64 \<Rightarrow> asm_fault + i32 list) \<Rightarrow> nat \<Rightarrow> item list \<Rightarrow> i32 list \<Rightarrow> i64 \<Rightarrow> bool"
  for link_code i where
  nothing: "linked link_code i [] [] 0"
| code: "linked link_code i xs ws k \<Longrightarrow> linked link_code i (xs @ [Code cs]) (ws @ cs) k"
| branch: "linked link_code i xs ws k \<Longrightarrow> branch_ok b \<Longrightarrow> link_code b k = Inr cs \<Longrightarrow>
    linked link_code i (xs @ [Branch b]) (ws @ cs) (link_of (i + length ws))"

lemma bindE_cong: "x = y \<Longrightarrow> (\<And>v. y = Inr v \<Longrightarrow> f v = g v) \<Longrightarrow> bindE x f = bindE y g"
  by (cases y) auto

lemma asm_fault_eq: "e = (e' :: asm_fault)"
  by (cases e; cases e') simp

lemma layout_snoc:
  "layout code bound i (xs @ [x]) =
     bindE (layout code bound i xs) (\<lambda>vs. bindE (item_code code bound (i + length vs) x) (\<lambda>ws. Inr (vs @ ws)))"
  by (induction xs arbitrary: i) (simp_all add: bindE_assoc add.assoc)

lemma link_offset_ok: "p < 2 ^ 24 \<Longrightarrow> offset_ok 26 (link_of p)" "offset_ok 26 0"
proof -
  show "offset_ok 26 (link_of p)" if "p < 2 ^ 24"
  proof -
    have "link_of p = push_bit 2 (of_nat (p + 1))" by (simp add: push_bit_eq_mult)
    then have "take_bit 2 (link_of p) = 0" by (simp only: take_bit_push_bit) simp
    moreover have "sint (link_of p) = 4 * int p + 4" using link_facts(5) [of "\<lparr>position = link_of p\<rparr>" p] that by simp
    moreover have "int p < 2 ^ 24" using that by (metis of_nat_less_iff of_nat_numeral of_nat_power)
    ultimately show ?thesis unfolding offset_ok_def by simp
  qed
qed (simp add: offset_ok_def)

lemma bound_facts:
  assumes "n \<le> 2 ^ 24" "position l = - of_nat (4 * n) - 4"
  shows "IsBound l" "Position l = of_nat (4 * n)"
proof -
  have "position l = - link_of n" using assms(2) by simp
  moreover have "sint (link_of n) = 4 * int n + 4" using link_facts(5) [of "\<lparr>position = link_of n\<rparr>" n] assms(1) by simp
  moreover have "sint (- link_of n) = signed_take_bit 63 (- sint (link_of n))" by (simp only: sint_word_ariths) simp
  ultimately have "sint (position l) = signed_take_bit 63 (- (4 * int n + 4))" by simp
  also have "\<dots> = - (4 * int n + 4)" using assms(1) by (intro signed_take_bit_id) auto
  finally have "sint (position l) < 0" by simp
  then show b: "IsBound l" by (simp add: IsBound_def word_sless_alt)
  show "Position l = of_nat (4 * n)" using b assms(2) by (simp add: Position_def kBias_def)
qed

lemma items_words_simps [simp]: "items_words n [] = 0" "items_words n (xs @ ys) = items_words n xs + items_words n ys"
  "items_words n (x # xs) = item_words n x + items_words n xs"
  by (simp_all add: items_words_def)

locale branch_form =
  fixes far :: bool and width :: nat
    and link_code code back_code :: "branch \<Rightarrow> i64 \<Rightarrow> asm_fault + i32 list"
  assumes link_length: "link_code b k = Inr ws \<Longrightarrow> length ws = width"
    and code_length: "code b d = Inr ws \<Longrightarrow> length ws = width"
    and width_pos: "0 < width"
    and emit_unbound: "branch_ok b \<Longrightarrow> use_far_branches a = far \<Longrightarrow> \<not> IsBound l \<Longrightarrow>
      emit_branch b (a, l) = bindE (link_code b (position l)) (\<lambda>ws. Inr (Emit ws a, LinkTo (Size a) l))"
    and emit_bound: "branch_ok b \<Longrightarrow> use_far_branches a = far \<Longrightarrow> IsBound l \<Longrightarrow>
      emit_branch b (a, l) = bindE (back_code b (Position l - Size a)) (\<lambda>ws. Inr (Emit ws a, l))"
    and bind_step: "branch_ok b \<Longrightarrow> use_far_branches a = far \<Longrightarrow> buffer a = xs @ ws @ ys \<Longrightarrow> link_code b k = Inr ws \<Longrightarrow>
      position l = link_of (length xs) \<Longrightarrow> length (buffer a) \<le> 2 ^ 24 \<Longrightarrow> offset_ok 26 k \<Longrightarrow>
      Bind_loop bound (a, l) =
        (case code b (bound - of_nat (4 * length xs)) of
           Inl e \<Rightarrow> Some (Inl e)
         | Inr vs \<Rightarrow> Bind_loop bound (a\<lparr>buffer := xs @ vs @ ys\<rparr>, l\<lparr>position := k\<rparr>))"
begin

lemma linked_words: "linked link_code i xs ws k \<Longrightarrow> length ws = items_words width xs"
  by (induction rule: linked.induct) (auto dest: link_length)

lemma linked_link: "linked link_code i xs ws k \<Longrightarrow> k = 0 \<or> (\<exists>p. k = link_of p \<and> p < i + length ws)"
proof (induction rule: linked.induct)
  case (code xs ws k cs)
  then show ?case by (auto intro: trans_less_add1)
next
  case (branch xs ws k b cs)
  then have "0 < length cs" using width_pos by (auto dest: link_length)
  then show ?case by (intro disjI2 exI [of _ "i + length ws"]) simp
qed simp

lemma linked_not_bound:
  assumes "linked link_code i xs ws k" "i + length ws \<le> 2 ^ 24" "position l = k"
  shows "\<not> IsBound l"
  using linked_link [OF assms(1)]
proof (elim disjE exE conjE)
  fix p assume "k = link_of p" "p < i + length ws"
  then show ?thesis using assms link_facts(2) [of l p] by simp
qed (use assms in \<open>simp add: IsBound_def\<close>)

lemma layout_words: "layout code bound i xs = Inr ws \<Longrightarrow> length ws = items_words width xs"
proof (induction xs arbitrary: i ws)
  case (Cons x xs)
  then show ?case by (cases x) (auto simp: bindE_Inr_iff dest: code_length)
qed simp

lemma Bind_loop_linked:
  assumes "linked link_code i xs ws k" "use_far_branches a = far" "position l = k" "length pre = i"
    "buffer a = pre @ ws @ post" "length (buffer a) \<le> 2 ^ 24"
  shows "Bind_loop bound (a, l) = Some (bindE (layout code bound i xs)
      (\<lambda>vs. Inr (a\<lparr>buffer := pre @ vs @ post\<rparr>, l\<lparr>position := 0\<rparr>)))"
  using assms
proof (induction arbitrary: a l post rule: linked.induct)
  case nothing
  then show ?case by (subst Bind_loop.simps) (simp add: IsLinked_def)
next
  case (code xs ws k cs)
  then show ?case using code.IH [of a l "cs @ post"] by (simp add: layout_snoc bindE_assoc)
next
  case (branch xs ws k b cs)
  have k: "offset_ok 26 k"
    using linked_link [OF branch.hyps(1)]
  proof (elim disjE exE conjE)
    fix p assume "k = link_of p" "p < i + length ws"
    moreover have "i + length ws \<le> 2 ^ 24" using branch.prems by simp
    ultimately show ?thesis using link_offset_ok(1) [of p] by simp
  qed (simp add: link_offset_ok)
  have n: "length ws = items_words width xs" "length cs = width"
    using linked_words [OF branch.hyps(1)] link_length [OF branch.hyps(3)] by simp_all
  let ?c = "code b (bound - of_nat (4 * (i + length ws)))"
  have step: "Bind_loop bound (a, l) = (case ?c of Inl e \<Rightarrow> Some (Inl e)
      | Inr vs \<Rightarrow> Bind_loop bound (a\<lparr>buffer := (pre @ ws) @ vs @ post\<rparr>, l\<lparr>position := k\<rparr>))"
    using bind_step [OF branch.hyps(2) branch.prems(1) _ branch.hyps(3) _ branch.prems(5) k, of "pre @ ws" post l bound]
      branch.prems by (simp del: of_nat_mult of_nat_add)
  have snoc: "layout code bound i (xs @ [Branch b]) = bindE (layout code bound i xs) (\<lambda>us. bindE ?c (\<lambda>vs. Inr (us @ vs)))"
    unfolding layout_snoc by (rule bindE_cong [OF refl]) (simp add: layout_words n del: of_nat_mult of_nat_add)
  show ?case
  proof (cases ?c)
    case (Inl e)
    then show ?thesis unfolding step snoc by (cases "layout code bound i xs") (auto intro: asm_fault_eq)
  next
    case (Inr vs)
    then have "length vs = width" by (rule code_length)
    then have "Bind_loop bound (a\<lparr>buffer := pre @ ws @ vs @ post\<rparr>, l\<lparr>position := k\<rparr>) =
        Some (bindE (layout code bound i xs) (\<lambda>us. Inr (a\<lparr>buffer := pre @ us @ vs @ post\<rparr>, l\<lparr>position := 0\<rparr>)))"
      using branch.IH [of "a\<lparr>buffer := pre @ ws @ vs @ post\<rparr>" "l\<lparr>position := k\<rparr>" "vs @ post"] branch.prems n by simp
    then show ?thesis unfolding step snoc Inr by (simp add: bindE_assoc)
  qed
qed

lemma emit_items_linked:
  assumes "linked link_code i ds ws k" "use_far_branches a = far" "position l = k" "length (buffer a) = i"
    "list_all item_ok xs" "i + length ws + items_words width xs \<le> 2 ^ 24"
  shows "(\<exists>e b k. emit_items xs (Emit ws a, l) = Inl e \<and> link_code b k = Inl e \<and>
      (k = 0 \<or> (\<exists>p. k = link_of p \<and> p + 1 < i + length ws + items_words width xs))) \<or>
    (\<exists>vs k'. emit_items xs (Emit ws a, l) = Inr (Emit vs a, l\<lparr>position := k'\<rparr>) \<and> linked link_code i (ds @ xs) vs k')"
  using assms
proof (induction xs arbitrary: ds ws k l)
  case Nil
  then show ?case by (cases l) (auto intro!: exI [of _ ws] exI [of _ k])
next
  case (Cons x xs)
  show ?case
  proof (cases x)
    case (Code cs)
    then show ?thesis
      using Cons.IH [OF linked.code [OF Cons.prems(1), of cs] Cons.prems(2,3,4)] Cons.prems(5,6) by (simp add: add.assoc)
  next
    case (Branch b)
    have nb: "\<not> IsBound l" using linked_not_bound [OF Cons.prems(1) _ Cons.prems(3)] Cons.prems(6) by simp
    have e: "emit_item x (Emit ws a, l) = bindE (link_code b k) (\<lambda>cs. Inr (Emit (ws @ cs) a, LinkTo (Size (Emit ws a)) l))"
      using Cons.prems Branch emit_unbound [OF _ _ nb, of b "Emit ws a"] by (simp add: Emit_def)
    have p: "LinkTo (Size (Emit ws a)) l = l\<lparr>position := link_of (i + length ws)\<rparr>"
      using Cons.prems(4) by (simp add: LinkTo_def Size_def Emit_def kBias_def)
    show ?thesis
    proof (cases "link_code b k")
      case (Inr cs)
      have "branch_ok b" "length cs = width" using Cons.prems(5) Branch link_length [OF Inr] by simp_all
      then show ?thesis
        using Cons.IH [OF linked.branch [OF Cons.prems(1) _ Inr] Cons.prems(2), of "l\<lparr>position := link_of (i + length ws)\<rparr>"]
          Cons.prems(4,5,6) Branch unfolding emit_items.simps e p Inr by (simp add: add.assoc del: of_nat_mult of_nat_add)
    next
      case (Inl f)
      moreover have "k = 0 \<or> (\<exists>p. k = link_of p \<and> p + 1 < i + length ws + items_words width (x # xs))"
        using linked_link [OF Cons.prems(1)] width_pos Branch by fastforce
      ultimately show ?thesis by (auto simp: e simp del: of_nat_mult)
    qed
  qed
qed

lemma emit_items_bound:
  assumes "use_far_branches a = far" "IsBound l" "list_all item_ok xs"
  shows "emit_items xs (a, l) = bindE (layout back_code (Position l) (length (buffer a)) xs) (\<lambda>vs. Inr (Emit vs a, l))"
  using assms
proof (induction xs arbitrary: a)
  case Nil
  then show ?case by (simp add: Emit_def)
next
  case (Cons x xs)
  have s: "Position l - of_nat (4 * length (buffer a)) = Position l - Size a" by (simp add: Size_def)
  show ?case
  proof (cases x)
    case (Code cs)
    then show ?thesis using Cons.IH [of "Emit cs a"] Cons.prems
      by (simp add: bindE_assoc) (simp add: Emit_def)
  next
    case (Branch b)
    have e: "emit_item x (a, l) = bindE (back_code b (Position l - Size a)) (\<lambda>ws. Inr (Emit ws a, l))"
      using Cons.prems Branch emit_bound [OF _ Cons.prems(1,2)] by simp
    have "emit_items xs (Emit ws a, l) = bindE (layout back_code (Position l) (length (buffer a) + length ws) xs)
        (\<lambda>vs. Inr (Emit (ws @ vs) a, l))" for ws
      using Cons.IH [of "Emit ws a"] Cons.prems by (simp add: Emit_def)
    then show ?thesis unfolding emit_items.simps e by (simp add: Branch bindE_assoc s [simplified])
  qed
qed

lemma assemble_layout:
  assumes "use_far_branches a = far" "IsUnused l" "list_all item_ok (before @ after)"
    "length (buffer a) + items_words width before \<le> 2 ^ 24"
  defines "n \<equiv> length (buffer a) + items_words width before"
  shows "(\<exists>e b k. emit_items before (a, l) = Inl e \<and> link_code b k = Inl e \<and>
      (k = 0 \<or> (\<exists>p. k = link_of p \<and> p + 1 < n))) \<or>
    assemble before after (a, l) =
      Some (bindE (layout code (of_nat (4 * n)) (length (buffer a)) before) (\<lambda>ws.
            bindE (layout back_code (of_nat (4 * n)) n after) (\<lambda>vs.
              Inr (Emit (ws @ vs) a, l\<lparr>position := - of_nat (4 * n) - 4\<rparr>))))"
proof (cases "\<exists>e. emit_items before (a, l) = Inl e")
  case True
  then show ?thesis
    using emit_items_linked [OF linked.nothing assms(1) _ refl, of l before] assms(2,3,4)
    by (auto simp: Emit_def IsUnused_def n_def)
next
  case False
  have "position l = 0" using assms(2) by (simp add: IsUnused_def)
  then obtain ws k where e: "emit_items before (a, l) = Inr (Emit ws a, l\<lparr>position := k\<rparr>)"
    and lk: "linked link_code (length (buffer a)) before ws k"
    using emit_items_linked [OF linked.nothing assms(1) _ refl, of l before] assms(3,4) False by (auto simp: Emit_def)
  have sz: "Size (Emit ws a) = of_nat (4 * n)"
    using linked_words [OF lk] by (simp add: Size_def Emit_def n_def)
  have loop: "Bind_loop (of_nat (4 * n)) (Emit ws a, l\<lparr>position := k\<rparr>) =
      Some (bindE (layout code (of_nat (4 * n)) (length (buffer a)) before) (\<lambda>vs. Inr (Emit vs a, l\<lparr>position := 0\<rparr>)))"
    using Bind_loop_linked [OF lk, of "Emit ws a" "l\<lparr>position := k\<rparr>" "buffer a" "[]"] assms(1,4) linked_words [OF lk]
    by (simp add: Emit_def del: of_nat_mult)
  have later: "emit_items after (Emit vs a, l\<lparr>position := - of_nat (4 * n) - 4\<rparr>) =
      bindE (layout back_code (of_nat (4 * n)) n after) (\<lambda>us. Inr (Emit (vs @ us) a, l\<lparr>position := - of_nat (4 * n) - 4\<rparr>))"
    if "length vs = items_words width before" for vs
    using emit_items_bound [of "Emit vs a" "l\<lparr>position := - of_nat (4 * n) - 4\<rparr>" after] that assms(1,3,4)
      bound_facts [of n "l\<lparr>position := - of_nat (4 * n) - 4\<rparr>"]
    by (simp add: n_def Emit_def del: of_nat_mult of_nat_add)
  show ?thesis
  proof (cases "layout code (of_nat (4 * n)) (length (buffer a)) before")
    case (Inr vs)
    then show ?thesis
      using later [OF layout_words [OF Inr]]
      by (simp add: assemble_def e Bind_def sz loop BindTo_def kBias_def del: of_nat_mult of_nat_add)
  qed (simp add: assemble_def e Bind_def sz loop del: of_nat_mult of_nat_add)
qed

end

lemma Bind_loop_unfold:
  assumes "position l = link_of p" "p < 2 ^ 60"
  shows "Bind_loop bound (a, l) =
    (case (if IsTestAndBranch (Load a (of_nat (4 * p))) then BindImm14Branch (of_nat (4 * p)) (bound - of_nat (4 * p)) a
           else BindImm19Branch (of_nat (4 * p)) (bound - of_nat (4 * p)) a) of
       Inl e \<Rightarrow> Some (Inl e)
     | Inr (nxt, a) \<Rightarrow> Bind_loop bound (a, l\<lparr>position := scast nxt\<rparr>))"
  by (subst Bind_loop.simps) (simp only: Let_def prod.case link_facts [OF assms] if_True)

lemma scast_offset_ok: "offset_ok 26 k \<Longrightarrow> scast (ucast k :: i32) = k"
  using scast_get_offset [of 0 26 "jump_word k"] get_put_offset [of 0 26 k "UnconditionalBranchOp_bits UnconditionalBranchOp.B"]
  by (simp add: jump_word_def)

lemma near_bind_step:
  assumes "branch_ok b" "use_far_branches a = False" "buffer a = xs @ ws @ ys" "near_code b k = Inr ws"
    "position l = link_of (length xs)" "length (buffer a) \<le> 2 ^ 24" "offset_ok 26 k"
  shows "Bind_loop bound (a, l) =
    (case near_code b (bound - of_nat (4 * length xs)) of
       Inl e \<Rightarrow> Some (Inl e)
     | Inr vs \<Rightarrow> Bind_loop bound (a\<lparr>buffer := xs @ vs @ ys\<rparr>, l\<lparr>position := k\<rparr>))"
proof -
  let ?d = "bound - of_nat (4 * length xs)"
  have w: "ws = [put_offset 5 (branch_bits b) k (branch_word b)]" and f: "fits_offset (branch_bits b) k"
    using assms(4) by (simp_all add: near_code_def split: if_splits)
  have p: "length xs < 2 ^ 60" using assms(3,6) by simp
  note acc = buffer_access [OF assms(3), of 0, simplified w, simplified]
  have ld: "Load a (of_nat (4 * length xs)) = put_offset 5 (branch_bits b) k (branch_word b)"
    and st: "Store (of_nat (4 * length xs)) v a = a\<lparr>buffer := xs @ [v] @ ys\<rparr>" for v
    using acc p by simp_all
  have u: "\<not> use_far_branches a" using assms(2) by simp
  show ?thesis
    unfolding Bind_loop_unfold [OF assms(5) p] Bind_branch_near [OF u assms(1) ld offset_ok_26 [OF assms(7) f]] st
    by (cases "fits_offset (branch_bits b) ?d") (simp_all add: near_code_def scast_offset_ok [OF assms(7)] del: of_nat_mult)
qed

lemma far_bind_step:
  assumes "branch_ok b" "use_far_branches a = True" "buffer a = xs @ ws @ ys" "far_link b k = Inr ws"
    "position l = link_of (length xs)" "length (buffer a) \<le> 2 ^ 24" "offset_ok 26 k"
  shows "Bind_loop bound (a, l) =
    (case far_code b (bound - of_nat (4 * length xs)) of
       Inl e \<Rightarrow> Some (Inl e)
     | Inr vs \<Rightarrow> Bind_loop bound (a\<lparr>buffer := xs @ vs @ ys\<rparr>, l\<lparr>position := k\<rparr>))"
proof -
  let ?d = "bound - of_nat (4 * length xs)"
  have w: "ws = [guard_word b, jump_word k]" using assms(4) by (simp add: far_link_def)
  have p: "length xs < 2 ^ 60" "length xs + 1 < 2 ^ 60" using assms(3,6) by simp_all
  have ld: "Load a (of_nat (4 * length xs)) = guard_word b" "Load a (of_nat (4 * length xs) + 4) = jump_word k"
    using buffer_access(1) [OF assms(3), of 0] buffer_access(1) [OF assms(3), of 1] p w by simp_all
  have st: "Store (of_nat (4 * length xs) + 4) v (Store (of_nat (4 * length xs)) u a) = a\<lparr>buffer := xs @ [u, v] @ ys\<rparr>" for u v
    using buffer_access(2) [OF assms(3), of 0 u] buffer_access(2) [of "a\<lparr>buffer := xs @ [u, jump_word k] @ ys\<rparr>" xs "[u, jump_word k]" ys 1 v] p w
    by simp
  have u: "use_far_branches a" using assms(2) by simp
  obtain v0 v1 where v: "far_code b ?d = Inr [v0, v1]" by (cases "fits_offset (branch_bits b) ?d") (simp_all add: far_code_def)
  show ?thesis
    unfolding Bind_loop_unfold [OF assms(5) p(1)] Bind_branch_far [OF u assms(1) ld assms(7)] v st
    by (simp add: scast_offset_ok [OF assms(7)] del: of_nat_mult)
qed

interpretation near: branch_form False 1 near_code near_code near_code
  by (unfold_locales; (rule near_bind_step; assumption)?) (auto simp: near_code_def emit_branch_cases split: if_splits)

interpretation far: branch_form True 2 far_link far_code far_back
  by (unfold_locales; (rule far_bind_step; assumption)?) (auto simp: far_code_def far_link_def emit_branch_cases)

lemma sint_word_distance:
  assumes "n < 2 ^ 40" "i < 2 ^ 40"
  shows "sint (of_nat (4 * n) - of_nat (4 * i) :: i64) = 4 * int n - 4 * int i"
proof -
  have s: "sint (of_nat (4 * m) :: i64) = 4 * int m" if "m < 2 ^ 40" for m
  proof -
    have "unat (of_nat (4 * m) :: i64) = 4 * m" using that by (intro unat_of_nat_small) simp
    then have "uint (of_nat (4 * m) :: i64) = 4 * int m" by (metis of_nat_mult of_nat_numeral uint_nat)
    moreover have "int m < 2 ^ 40" using that by (metis of_nat_less_iff of_nat_numeral of_nat_power)
    ultimately show ?thesis unfolding sint_top64 by simp
  qed
  have "int n < 2 ^ 40" "int i < 2 ^ 40" using assms by (metis of_nat_less_iff of_nat_numeral of_nat_power)+
  then have "signed_take_bit 63 (4 * int n - 4 * int i) = 4 * int n - 4 * int i" by (intro signed_take_bit_id) simp_all
  moreover have "sint (of_nat (4 * n) - of_nat (4 * i) :: i64) =
      signed_take_bit 63 (sint (of_nat (4 * n) :: i64) - sint (of_nat (4 * i) :: i64))"
    by (simp only: sint_word_ariths) simp
  ultimately show ?thesis by (simp only: s [OF assms(1)] s [OF assms(2)])
qed

lemma small_distance_fits:
  assumes "n < 2 ^ 13" "i < 2 ^ 13"
  shows "fits_offset (branch_bits b) (of_nat (4 * n) - of_nat (4 * i))"
  using sint_word_distance [of n i] bits_19_14(1) [of b] assms by (auto simp: fits_offset_def simp del: of_nat_mult)

lemma layout_near_total:
  "i + items_words 1 xs < 2 ^ 13 \<Longrightarrow> n < 2 ^ 13 \<Longrightarrow> \<exists>ws. layout near_code (of_nat (4 * n)) i xs = Inr ws"
proof (induction xs arbitrary: i)
  case (Cons x xs)
  then show ?case
  proof (cases x)
    case (Code ws)
    then show ?thesis using Cons.IH [of "i + length ws"] Cons.prems by (auto simp: bindE_Inr_iff add.assoc)
  next
    case (Branch b)
    have "fits_offset (branch_bits b) (of_nat (4 * n) - of_nat (4 * i))" using Cons.prems Branch by (intro small_distance_fits) simp_all
    then show ?thesis using Cons.IH [of "i + 1"] Cons.prems Branch by (auto simp: bindE_Inr_iff near_code_def simp del: of_nat_mult)
  qed
qed simp

lemma link_fits: "k = 0 \<or> (\<exists>p. k = link_of p \<and> p + 1 < 2 ^ 13) \<Longrightarrow> near_code b k \<noteq> Inl e"
proof -
  have "fits_offset (branch_bits b) (link_of p)" if "p + 1 < 2 ^ 13" for p
    using small_distance_fits [of "p + 1" 0 b] that by (simp add: add.commute)
  moreover have "fits_offset (branch_bits b) 0" using bits_19_14(1) [of b] by (auto simp: fits_offset_def)
  ultimately show "k = 0 \<or> (\<exists>p. k = link_of p \<and> p + 1 < 2 ^ 13) \<Longrightarrow> near_code b k \<noteq> Inl e"
    by (auto simp: near_code_def)
qed

text \<open>C14. Backpatching is right with near branches. Code and branches to a label emitted before the label is bound, \<open>Bind\<close>, and
  code and branches emitted after it either bail out with a branch offset error or give the words of the two-pass
  reference, in which every branch has the offset from itself to the bound position, and a label bound
  there; \<open>Bind\<close> always returns; and code of less than \<open>2 ^ 13\<close> words never bails out.\<close>

theorem Bind_near_layout:
  assumes "\<not> use_far_branches a" "IsUnused l" "list_all item_ok (before @ after)"
    "length (buffer a) + items_words 1 before \<le> 2 ^ 24"
  defines "n \<equiv> length (buffer a) + items_words 1 before"
  shows "(assemble before after (a, l) = Some (Inl BranchOffsetError) \<and> 2 ^ 13 \<le> n + items_words 1 after \<or>
     (\<exists>ws vs. layout near_code (of_nat (4 * n)) (length (buffer a)) before = Inr ws \<and>
       layout near_code (of_nat (4 * n)) n after = Inr vs \<and>
       assemble before after (a, l) = Some (Inr (Emit (ws @ vs) a, BindTo (of_nat (4 * n)) l))))"
proof -
  have b: "BindTo (of_nat (4 * n)) l = l\<lparr>position := - of_nat (4 * n) - 4\<rparr>" by (simp add: BindTo_def kBias_def)
  consider (link) e b k where "emit_items before (a, l) = Inl e" "near_code b k = Inl e" "k = 0 \<or> (\<exists>p. k = link_of p \<and> p + 1 < n)"
    | (layout) "assemble before after (a, l) = Some (bindE (layout near_code (of_nat (4 * n)) (length (buffer a)) before) (\<lambda>ws.
        bindE (layout near_code (of_nat (4 * n)) n after) (\<lambda>vs. Inr (Emit (ws @ vs) a, l\<lparr>position := - of_nat (4 * n) - 4\<rparr>))))"
    using near.assemble_layout [of a l before after] assms unfolding n_def by fastforce
  then show ?thesis
  proof cases
    case link
    then have "\<not> n < 2 ^ 13" using link_fits [of k b e] by fastforce
    then show ?thesis using link asm_fault_eq [of e BranchOffsetError] by (simp add: assemble_def)
  next
    case layout
    show ?thesis
    proof (cases "layout near_code (of_nat (4 * n)) (length (buffer a)) before")
      case (Inl e)
      then have "\<not> n < 2 ^ 13" using layout_near_total [of "length (buffer a)" before n] unfolding n_def by auto
      then show ?thesis using Inl layout asm_fault_eq [of e BranchOffsetError] by (simp del: of_nat_mult)
    next
      case (Inr ws)
      show ?thesis
      proof (cases "layout near_code (of_nat (4 * n)) n after")
        case (Inl e)
        then have "\<not> n + items_words 1 after < 2 ^ 13" using layout_near_total [of n after n] by auto
        then show ?thesis using Inl Inr layout asm_fault_eq [of e BranchOffsetError] by (simp del: of_nat_mult)
      qed (use Inr layout in \<open>auto simp: b simp del: of_nat_mult\<close>)
    qed
  qed
qed

text \<open>C15. Backpatching is right with far branches: no emission and no \<open>Bind\<close> fails, \<open>Bind\<close> returns, and
  the code is that of the reference, with the two-word form of every branch emitted before the label
  was bound.\<close>

theorem Bind_far_layout:
  assumes "use_far_branches a" "IsUnused l" "list_all item_ok (before @ after)"
    "length (buffer a) + items_words 2 before \<le> 2 ^ 24"
  defines "n \<equiv> length (buffer a) + items_words 2 before"
  shows "\<exists>ws vs. layout far_code (of_nat (4 * n)) (length (buffer a)) before = Inr ws \<and>
       layout far_back (of_nat (4 * n)) n after = Inr vs \<and>
       assemble before after (a, l) = Some (Inr (Emit (ws @ vs) a, BindTo (of_nat (4 * n)) l))"
proof -
  have t: "\<exists>ws. layout c bound i xs = Inr ws" if total: "\<And>b d. \<exists>ws. c b d = Inr ws" for c bound i xs
  proof (induction xs arbitrary: i)
    case (Cons x xs)
    obtain ws where w: "item_code c bound i x = Inr ws" using total by (cases x) (auto simp del: of_nat_mult)
    then show ?case using Cons.IH [of "i + length ws"] by auto
  qed simp
  obtain ws vs where l: "layout far_code (of_nat (4 * n)) (length (buffer a)) before = Inr ws"
      "layout far_back (of_nat (4 * n)) n after = Inr vs"
    using t [of far_code "of_nat (4 * n)" "length (buffer a)" before] t [of far_back "of_nat (4 * n)" n after]
    by (auto simp: far_code_def far_back_def simp del: of_nat_mult)
  then show ?thesis
    using far.assemble_layout [of a l before after] assms(1-4) unfolding n_def
    by (auto simp: far_link_def BindTo_def kBias_def simp del: of_nat_mult of_nat_add)
qed

text \<open>C27. The offset fields of all three branch forms give back what was put there, and putting an offset
  keeps the bits of the instruction outside its field: for every word-aligned offset in the range of
  the field, which is what the two fallible encoders accept.\<close>

theorem branch_offset_roundtrip:
  assumes "take_bit 2 imm = 0"
  shows "(- (2 ^ 27) \<le> sint imm \<and> sint imm < 2 ^ 27 \<longrightarrow>
      DecodeImm26BranchOffset (EncodeImm26BranchOffset imm instr) = imm) \<and>
    EncodeImm26BranchOffset imm instr AND NOT kImm26Mask = instr AND NOT kImm26Mask \<and>
    (case EncodeImm19BranchOffset imm instr of
       Inl e \<Rightarrow> \<not> (- (2 ^ 20) \<le> sint imm \<and> sint imm < 2 ^ 20)
     | Inr w \<Rightarrow> DecodeImm19BranchOffset w = imm \<and> w AND NOT kImm19Mask = instr AND NOT kImm19Mask) \<and>
    (case EncodeImm14BranchOffset imm instr of
       Inl e \<Rightarrow> \<not> (- (2 ^ 15) \<le> sint imm \<and> sint imm < 2 ^ 15)
     | Inr w \<Rightarrow> DecodeImm14BranchOffset w = imm \<and> w AND NOT kImm14Mask = instr AND NOT kImm14Mask)"
proof -
  have m: "kImm26Mask = push_bit 0 (mask 26)" "kImm19Mask = push_bit 5 (mask 19)" "kImm14Mask = push_bit 5 (mask 14)"
    by (simp_all add: kImm26Mask_def kImm19Mask_def kImm14Mask_def mask_eq_exp_minus_1)
  have k: "put_offset p c imm instr AND NOT (push_bit p (mask c)) = instr AND NOT (push_bit p (mask c))"
    if "p + c \<le> 31" "c \<le> 29" for p c
    by (rule bit_word_eqI) (use that in \<open>auto simp: bit_and_iff bit_not_iff bit_put_offset bit_push_bit_iff bit_mask_iff\<close>)
  have g: "get_offset p c (put_offset p c imm instr) = imm"
    if "p + c \<le> 31" "c \<le> 29" "0 < c" "- (2 ^ (c + 1)) \<le> sint imm" "sint imm < 2 ^ (c + 1)" for p c
    using that assms by (intro get_put_offset) (simp_all add: offset_ok_def)
  show ?thesis
    unfolding offset_fields CanEncode_iff m using k [of 0 26] k [of 5 19] k [of 5 14] g [of 0 26] g [of 5 19] g [of 5 14]
    by (auto split: if_splits simp del: push_bit_mask_eq)
qed

section \<open>Examples\<close>

definition example_fresh :: Label where "example_fresh = \<lparr>position = 0\<rparr>"

definition example_empty :: "bool \<Rightarrow> Assembler" where
  "example_empty far = \<lparr>buffer = [], use_far_branches = far\<rparr>"

definition example_before :: "item list" where
  "example_before = [Branch (Cond NE), Code [kNopInstruction], Branch (Compare CBZ 2 kWord)]"

definition example_after :: "item list" where
  "example_after = [Code [kNopInstruction], Branch (Test TBNZ 3 40)]"

theorem Bind_near_layout_witness:
  "\<exists>ws vs. layout near_code 12 0 example_before = Inr ws \<and> layout near_code 12 3 example_after = Inr vs \<and>
     assemble example_before example_after (example_empty False, example_fresh) =
       Some (Inr (Emit (ws @ vs) (example_empty False), BindTo 12 example_fresh))"
  using Bind_near_layout [of "example_empty False" example_fresh example_before example_after]
  by (simp add: example_empty_def example_fresh_def IsUnused_def example_before_def example_after_def)

theorem Bind_far_layout_witness:
  "\<exists>ws vs. layout far_code 20 0 example_before = Inr ws \<and> layout far_back 20 5 example_after = Inr vs \<and>
     assemble example_before example_after (example_empty True, example_fresh) =
       Some (Inr (Emit (ws @ vs) (example_empty True), BindTo 20 example_fresh))"
  using Bind_far_layout [of "example_empty True" example_fresh example_before example_after]
  by (simp add: example_empty_def example_fresh_def IsUnused_def example_before_def example_after_def)

theorem branch_offset_roundtrip_witness:
  "DecodeImm26BranchOffset (EncodeImm26BranchOffset 0x100 0x14000000) = 0x100 \<and>
   EncodeImm26BranchOffset 0x100 0x14000000 AND NOT kImm26Mask = 0x14000000 AND NOT kImm26Mask \<and>
   (case EncodeImm19BranchOffset 0x100 0x14000000 of
      Inl e \<Rightarrow> False
    | Inr w \<Rightarrow> DecodeImm19BranchOffset w = 0x100 \<and> w AND NOT kImm19Mask = 0x14000000 AND NOT kImm19Mask) \<and>
   (case EncodeImm14BranchOffset 0x100 0x14000000 of
      Inl e \<Rightarrow> False
    | Inr w \<Rightarrow> DecodeImm14BranchOffset w = 0x100 \<and> w AND NOT kImm14Mask = 0x14000000 AND NOT kImm14Mask)"
  using branch_offset_roundtrip [where imm = "0x100" and instr = "0x14000000"] by (simp split: sum.splits)

end
