(* ===== verification/Arm64_BranchExec.thy ===== *)
theory Arm64_BranchExec
  imports Arm64_Macros Arm64_Backpatch
begin

text \<open>
  Branches from the assembler to the simulator: what the simulator does on the words of a branch, that
  the near, far and bound forms of a branch all jump to its label when its condition holds and fall
  through otherwise, and that this is so for every branch of code assembled around a label.
\<close>

section \<open>Fields of branches\<close>

lemma push_SImm:
  "push_bit 2 (SImm26Field w) = get_offset 0 26 w"
  "push_bit 2 (SImm19Field w) = get_offset 5 19 w"
  "push_bit 2 (SImm14Field w) = get_offset 5 14 w"
proof -
  have *: "push_bit 2 (scast (signed_drop_bit (32 - c) (push_bit (32 - c) (take_bit c (drop_bit p w)) :: i32)) :: i64) = get_offset p c w"
    if c: "p + c \<le> 31" "0 < c" "c \<le> 29" for p c
  proof (rule bit_word_eqI)
    fix n assume "n < LENGTH(64)"
    then have n: "n < 64" by simp
    show "bit (push_bit 2 (scast (signed_drop_bit (32 - c) (push_bit (32 - c) (take_bit c (drop_bit p w)) :: i32)) :: i64)) n
        \<longleftrightarrow> bit (get_offset p c w) n"
      unfolding bit_get_offset [OF c n] using c n
      by (auto simp: bit_push_bit_iff bit_signed_iff bit_signed_drop_bit_iff bit_take_bit_iff bit_drop_bit_eq min_def)
  qed
  show "push_bit 2 (SImm26Field w) = get_offset 0 26 w"
    "push_bit 2 (SImm19Field w) = get_offset 5 19 w" "push_bit 2 (SImm14Field w) = get_offset 5 14 w"
    using * [of 0 26] * [of 5 19] * [of 5 14]
    by (simp_all add: SImm26Field_def SImm19Field_def SImm14Field_def Imm26Field_def Imm19Field_def Imm14Field_def Bits_eq)
qed

lemma put_offset_field:
  assumes "p + c \<le> 31" "c \<le> 29" "j + k \<le> p \<or> p + c \<le> j" "j + k \<le> 32"
  shows "take_bit k (drop_bit j (put_offset p c d w)) = take_bit k (drop_bit j w)"
  by (rule bit_word_eqI) (use assms in \<open>auto simp: bit_take_bit_iff bit_drop_bit_eq bit_put_offset\<close>)

lemma put_offset_or:
  assumes "take_bit c (drop_bit 5 w) = 0" "c \<le> 19"
  obtains f where "put_offset 5 c d w = w OR push_bit 5 f" "fits c f"
proof -
  let ?f = "take_bit c (ucast (drop_bit 2 d) :: i32)"
  have "put_offset 5 c d 0 = push_bit 5 ?f"
    by (rule bit_word_eqI) (use assms(2) in \<open>auto simp: bit_put_offset bit_push_bit_iff bit_take_bit_iff bit_ucast_iff bit_drop_bit_eq add.commute\<close>)
  moreover have "fits c ?f" by (simp add: fits_def)
  ultimately show ?thesis using that [of ?f] or_put_offset [OF assms, of d] by simp
qed

section \<open>What a branch instruction does\<close>

primrec holds :: "Condition \<Rightarrow> sim \<Rightarrow> bool" where
  "holds EQ s \<longleftrightarrow> z_flag s"
| "holds NE s \<longleftrightarrow> \<not> z_flag s"
| "holds CS s \<longleftrightarrow> c_flag s"
| "holds CC s \<longleftrightarrow> \<not> c_flag s"
| "holds MI s \<longleftrightarrow> n_flag s"
| "holds PL s \<longleftrightarrow> \<not> n_flag s"
| "holds VS s \<longleftrightarrow> v_flag s"
| "holds VC s \<longleftrightarrow> \<not> v_flag s"
| "holds HI s \<longleftrightarrow> c_flag s \<and> \<not> z_flag s"
| "holds LS s \<longleftrightarrow> \<not> (c_flag s \<and> \<not> z_flag s)"
| "holds GE s \<longleftrightarrow> n_flag s = v_flag s"
| "holds LT s \<longleftrightarrow> n_flag s \<noteq> v_flag s"
| "holds GT s \<longleftrightarrow> \<not> z_flag s \<and> n_flag s = v_flag s"
| "holds LE s \<longleftrightarrow> \<not> (\<not> z_flag s \<and> n_flag s = v_flag s)"
| "holds AL s \<longleftrightarrow> True"
| "holds NV s \<longleftrightarrow> False"

primrec taken :: "branch \<Rightarrow> sim \<Rightarrow> bool" where
  "taken (Cond c) s \<longleftrightarrow> holds c s"
| "taken (Compare op rt sz) s \<longleftrightarrow>
     ((if sz = kDoubleWord then get_register s (ConcreteRegister rt) R31IsZR
       else take_bit 32 (get_register s (ConcreteRegister rt) R31IsZR)) = 0) = (op = CBZ)"
| "taken (Test op rt n) s \<longleftrightarrow> bit (get_register s (ConcreteRegister rt) R31IsZR) (unat (take_bit 6 n)) = (op = TBNZ)"

lemma cond_dispatch:
  assumes "c \<noteq> NV" "offset_ok 19 d"
  shows "InstructionDecode_dispatch h (put_offset 5 19 d (branch_word (Cond c))) s =
    Inr (if holds c s then set_pc (pc s + d) s else s)"
proof -
  define w where "w = put_offset 5 19 d (branch_word (Cond c))"
  obtain f where f: "w = branch_word (Cond c) OR push_bit 5 f" "fits 19 f"
    using put_offset_or [OF branch_word_field [of "Cond c"], of d] unfolding w_def by auto
  have off: "push_bit 2 (SImm19Field w) = d"
    using get_put_offset [of 5 19 d] assms(2) unfolding push_SImm w_def by simp
  have cls: "\<not> IsDPImmediateOp w" "IsCompareBranchOp w" "\<not> IsCompareAndBranchOp w" "IsConditionalBranchOp w"
      "Bit w 24 = 0" "Bit w 4 = 0" "take_bit 4 (drop_bit 25 w) = 0xa"
    using f(2) fits_Condition_val [of c] unfolding f(1) by (simp_all add: codec_simps bit_push_bit_iff)
  have "drop_bit 4 (take_bit 8 (drop_bit 21 w)) = take_bit 4 (drop_bit 25 w)" by (simp add: drop_bit_take_bit)
  then have sel: "\<not> IsConditionalSelectOp w" unfolding IsConditionalSelectOp_iff cls(7) by auto
  have "Bits w 0 4 = Condition_val c" using f(2) fits_Condition_val [of c] unfolding f(1) by (simp add: codec_simps)
  then have cnd: "ConditionField w = c" by (cases c) (simp_all add: ConditionField_def Condition_of_def)
  show ?thesis
    unfolding w_def [symmetric] using assms(1) off
    by (cases c) (simp_all add: InstructionDecode_dispatch_def DecodeCompareBranch_def DecodeConditionalBranch_def
        ConditionallyExecute_def cls sel cnd)
qed

lemma compare_dispatch:
  assumes "rt < 34" "offset_ok 19 d"
  shows "InstructionDecode_dispatch h (put_offset 5 19 d (branch_word (Compare op rt sz))) s =
    Inr (if taken (Compare op rt sz) s then set_pc (pc s + d) s else s)"
proof -
  define w where "w = put_offset 5 19 d (branch_word (Compare op rt sz))"
  obtain f where f: "w = branch_word (Compare op rt sz) OR push_bit 5 f" "fits 19 f"
    using put_offset_or [OF branch_word_field [of "Compare op rt sz"], of d] assms(1) unfolding w_def by auto
  have off: "push_bit 2 (SImm19Field w) = d"
    using get_put_offset [of 5 19 d] assms(2) unfolding push_SImm w_def by simp
  note fr = fits_creg [OF assms(1)]
  have cls: "\<not> IsDPImmediateOp w" "IsCompareBranchOp w" "IsCompareAndBranchOp w" "Bit w 24 = of_bool (op = CBNZ)"
      "SFField w = of_bool (sz = kDoubleWord)" "RtField w = ConcreteRegister rt"
    using f(2) fr unat_creg [OF assms(1)] unfolding f(1)
    by (cases op; cases "sz = kDoubleWord"; simp add: codec_simps size_bit_def Rt_def)+
  note m = X_mask W_mask
  show ?thesis
    unfolding w_def [symmetric]
    by (cases op; cases "sz = kDoubleWord"; simp add: InstructionDecode_dispatch_def DecodeCompareBranch_def DecodeCompareAndBranch_def cls off m Let_def)
qed

lemma class_bit:
  "take_bit k (drop_bit j w) = v \<Longrightarrow> j \<le> n \<Longrightarrow> n < j + k \<Longrightarrow> bit w n \<longleftrightarrow> bit (v :: i32) (n - j)"
  by (auto simp: bit_take_bit_iff bit_drop_bit_eq)

lemma test_fields:
  fixes n :: i64 and op :: TestAndBranchOp
  assumes "rt < 34" "fits 14 f"
  defines "w \<equiv> branch_word (Test op rt n) OR push_bit 5 f"
  shows "\<not> IsDPImmediateOp w" "IsCompareBranchOp w" "\<not> IsCompareAndBranchOp w" "\<not> IsConditionalBranchOp w"
    "\<not> IsExceptionGenOp w"
    "\<not> IsSystemOp w"
     "IsTestAndBranchOp w"
  "Bit w 24 = of_bool (op = TBNZ)"
  "RtField w = ConcreteRegister rt"
  "unat (Bits w 19 5 OR push_bit 5 (Bit w 31)) = unat (take_bit 6 n)"
proof -
  note fn = fits_bit_number [of n] fits_creg [OF assms(1)] unat_creg [OF assms(1)] assms(2)
  define x where "x = (ucast (n AND 0x1f) :: i32)"
  define y where "y = (ucast (signed_drop_bit 5 (n AND 0x20)) :: i32)"
  have w: "w = TestAndBranchOp_bits op OR push_bit 19 x OR push_bit 31 y OR of_nat (ConcreteRegister rt) OR push_bit 5 f"
    by (simp add: w_def x_def y_def or.assoc)
  have xy: "fits 5 x" "fits 1 y" using fn unfolding x_def y_def by simp_all
  note fs = xy fn(3,4,5)
  show "\<not> IsDPImmediateOp w" using fs unfolding w by (cases op) (simp_all add: codec_simps)
  show "IsCompareBranchOp w" using fs unfolding w by (cases op) (simp_all add: codec_simps)
  show "\<not> IsCompareAndBranchOp w" using fs unfolding w by (cases op) (simp_all add: codec_simps)
  have b: "bit w 25" using fs unfolding w by (cases op) (simp_all add: codec_simps)
  show "\<not> IsConditionalBranchOp w" "\<not> IsExceptionGenOp w" "\<not> IsSystemOp w"
    using class_bit [of 7 25 w "0x2a" 25] class_bit [of 8 24 w "0xd4" 25] class_bit [of 10 22 w "0x354" 25] b
    by (auto simp: IsConditionalBranchOp_iff IsExceptionGenOp_iff IsSystemOp_iff)
  show "IsTestAndBranchOp w" using fs unfolding w by (cases op) (simp_all add: codec_simps)
  show "Bit w 24 = of_bool (op = TBNZ)" using fs unfolding w by (cases op) (simp_all add: codec_simps bit_push_bit_iff)
  show "RtField w = ConcreteRegister rt" using fs unfolding w by (cases op) (simp_all add: codec_simps)
  show "unat (Bits w 19 5 OR push_bit 5 (Bit w 31)) = unat (take_bit 6 n)"
  proof -
    have "Bits w 19 5 = take_bit 5 x" using fs unfolding w by (cases op) (simp_all add: codec_simps)
    then have "Bits w 19 5 = x" using xy(1) by (simp only: fits_def)
    moreover have "Bit w 31 = y"
    proof -
      have "Bit w 31 = of_bool (bit y 0)" using fs unfolding w by (cases op) (simp_all add: codec_simps bit_push_bit_iff)
      also have "\<dots> = y" by (rule bit_word_eqI) (use fits_bit [OF xy(2)] in \<open>auto simp: bit_of_bool_iff simp del: bit_0\<close>)
      finally show ?thesis .
    qed
    moreover have "x OR push_bit 5 y = ucast (take_bit 6 n)"
    proof (rule bit_word_eqI)
      fix k assume "k < LENGTH(32)"
      have "(0x20 :: i64) = 2 ^ 5" by simp
      then have a: "bit (n AND 0x20) j \<longleftrightarrow> j = 5 \<and> bit n 5" for j by (simp only: bit_and_iff bit_exp_iff) auto
      have c: "n AND 0x1f = take_bit 5 n" by (simp add: take_bit_eq_mask mask_eq_exp_minus_1)
      have x: "bit x k \<longleftrightarrow> k < 5 \<and> bit n k" unfolding x_def c by (simp add: bit_ucast_iff bit_take_bit_iff) auto
      have y: "bit y j \<longleftrightarrow> j = 0 \<and> bit n 5" for j
        unfolding y_def by (simp only: bit_ucast_iff bit_signed_drop_bit_iff a, simp) auto
      show "bit (x OR push_bit 5 y) k \<longleftrightarrow> bit (ucast (take_bit 6 n) :: i32) k"
        unfolding bit_or_iff bit_push_bit_iff x y bit_ucast_iff bit_take_bit_iff
        using \<open>k < LENGTH(32)\<close> by (cases "k = 5"; cases "k < 5") auto
    qed
    moreover have "unat (ucast (take_bit 6 n) :: i32) = unat (take_bit 6 n)"
      by (simp add: unsigned_ucast_eq take_bit_take_bit unsigned_take_bit_eq)
    ultimately show ?thesis by simp
  qed
qed

lemma test_dispatch:
  assumes "rt < 34" "offset_ok 14 d"
  shows "InstructionDecode_dispatch h (put_offset 5 14 d (branch_word (Test op rt n))) s =
    Inr (if taken (Test op rt n) s then set_pc (pc s + d) s else s)"
proof -
  define w where "w = put_offset 5 14 d (branch_word (Test op rt n))"
  obtain f where f: "w = branch_word (Test op rt n) OR push_bit 5 f" "fits 14 f"
    using put_offset_or [OF branch_word_field [of "Test op rt n"], of d] assms(1) unfolding w_def by auto
  have off: "push_bit 2 (SImm14Field w) = d"
    using get_put_offset [of 5 14 d] assms(2) unfolding push_SImm w_def by simp
  note cls = test_fields [OF assms(1) f(2), of op n, folded f(1)]
  show ?thesis
    unfolding w_def [symmetric]
    by (cases op; simp add: InstructionDecode_dispatch_def DecodeCompareBranch_def DecodeTestAndBranch_def cls off and_exp_eq_0_iff_not_bit Let_def)
qed

lemma branch_dispatch:
  assumes "branch_ok b" "b \<noteq> Cond NV" "offset_ok (branch_bits b) d"
  shows "InstructionDecode_dispatch h (put_offset 5 (branch_bits b) d (branch_word b)) s =
    Inr (if taken b s then set_pc (pc s + d) s else s)"
  using assms by (cases b) (simp_all add: cond_dispatch compare_dispatch test_dispatch del: branch_word.simps taken.simps(2,3))

lemma jump_dispatch:
  assumes "offset_ok 26 d"
  shows "InstructionDecode_dispatch h (jump_word d) s = Inr (set_pc (pc s + d) s)"
proof -
  define w where "w = jump_word d"
  have off: "push_bit 2 (SImm26Field w) = d"
    using get_put_offset [of 0 26 d] assms unfolding push_SImm w_def jump_word_def by simp
  define f :: i32 where "f = take_bit 26 w"
  have "take_bit 6 (drop_bit 26 w) = 5"
    unfolding w_def jump_word_def by (subst put_offset_field) (simp_all add: op_consts)
  moreover have "w = push_bit 26 (take_bit 6 (drop_bit 26 w)) OR f"
    unfolding f_def
    by (rule bit_word_eqI) (auto simp: bit_or_iff bit_push_bit_iff bit_take_bit_iff bit_drop_bit_eq)
  ultimately have "w = push_bit 26 5 OR f" by simp
  moreover have "fits 26 f" by (simp add: f_def fits_def)
  ultimately have cls: "\<not> IsDPImmediateOp w" "IsCompareBranchOp w" "IsUnconditionalBranchOp w" "Bit w 31 = 0"
      "\<not> bit w 29" "\<not> bit w 30" "\<not> bit w 31"
    by (simp_all add: codec_simps)
  then have nots: "\<not> IsCompareAndBranchOp w" "\<not> IsConditionalBranchOp w" "\<not> IsExceptionGenOp w" "\<not> IsSystemOp w" "\<not> IsTestAndBranchOp w"
    using class_bit [of 6 25 w "0x1a" 29] class_bit [of 7 25 w "0x2a" 30] class_bit [of 8 24 w "0xd4" 31] class_bit [of 10 22 w "0x354" 31]
      class_bit [of 6 25 w "0x1b" 29]
    by (auto simp: IsCompareAndBranchOp_iff IsConditionalBranchOp_iff IsExceptionGenOp_iff IsSystemOp_iff IsTestAndBranchOp_iff)
  show ?thesis
    unfolding w_def [symmetric]
    by (simp add: InstructionDecode_dispatch_def DecodeCompareBranch_def DecodeUnconditionalBranch_def cls nots off Let_def)
qed

lemma nop_dispatch: "InstructionDecode_dispatch h kNopInstruction s = Inr s"
  by (simp add: kNopInstruction_def InstructionDecode_dispatch_def DecodeCompareBranch_def DecodeSystem_def codec_simps)

section \<open>Running the code of a branch\<close>

lemma taken_upd_sys [simp]: "taken b (upd_sys lp p m ic s) = taken b s"
proof -
  have "holds c (upd_sys lp p m ic s) = holds c s" for c by (cases c) (simp_all add: upd_sys_def)
  moreover have "get_register (upd_sys lp p m ic s) r t = get_register s r t" for r t
    by (simp add: get_register_def upd_sys_def)
  ultimately show ?thesis by (cases b) simp_all
qed

lemma sim_step_branch:
  assumes d: "\<And>s. InstructionDecode_dispatch h i s = Inr (if t s then set_pc (pc s + d) s else s)"
    and t: "t (s\<lparr>icount := icount s + 1, pc_modified := False\<rparr>) = t s"
    and c: "code_at (mem s) (pc s) (i # is)" and st: "stop_sim_at h = - 1"
  shows "sim_step h s (upd_sys (pc s) (if t s then pc s + d else pc s + 4) True (icount s + 1) s)"
proof -
  let ?s = "s\<lparr>icount := icount s + 1, pc_modified := False\<rparr>"
  have "Execute_iteration h s = bindE (InstructionDecode_dispatch h i ?s)
      (\<lambda>t. if \<not> pc_modified t then Inr (set_pc (pc s + kInstrSize) t) else Inr t)"
    unfolding Execute_iteration_def InstructionDecode_def Let_def using c st by simp
  also have "\<dots> = Inr (upd_sys (pc s) (if t s then pc s + d else pc s + 4) True (icount s + 1) s)"
    unfolding d t by (simp add: set_pc_def kInstrSize_def upd_sys_def)
  finally show ?thesis using c by (intro sim_stepI) auto
qed

lemma taken_step:
  assumes "branch_ok b" "b \<noteq> Cond NV" "offset_ok (branch_bits b) d" "stop_sim_at h = - 1"
    "code_at (mem s) (pc s) (put_offset 5 (branch_bits b) d (branch_word b) # is)"
  shows "sim_step h s (upd_sys (pc s) (if taken b s then pc s + d else pc s + 4) True (icount s + 1) s)"
proof (rule sim_step_branch [OF branch_dispatch [OF assms(1-3)] _ assms(5,4)])
  show "taken b (s\<lparr>icount := icount s + 1, pc_modified := False\<rparr>) = taken b s"
    (is "taken b ?s = _")
  proof -
    have u: "?s = upd_sys (last_pc s) (pc s) False (icount s + 1) s" by (simp add: upd_sys_def)
    show ?thesis unfolding u by (rule taken_upd_sys)
  qed
qed

lemma jump_step:
  assumes "offset_ok 26 d" "stop_sim_at h = - 1" "code_at (mem s) (pc s) (jump_word d # is)"
  shows "sim_step h s (upd_sys (pc s) (pc s + d) True (icount s + 1) s)"
  using sim_step_branch [of h "jump_word d" "\<lambda>s. True" d s "is"] jump_dispatch [OF assms(1)] assms by simp

lemma nop_step:
  assumes "stop_sim_at h = - 1" "code_at (mem s) (pc s) (kNopInstruction # is)"
  shows "sim_step h s (upd_sys (pc s) (pc s + 4) True (icount s + 1) s)"
  using sim_step_branch [of h kNopInstruction "\<lambda>s. False" 0 s "is"] nop_dispatch assms by simp

lemma taken_invert: "b \<noteq> Cond NV \<Longrightarrow> b \<noteq> Cond AL \<Longrightarrow> taken (invert_branch b) s \<longleftrightarrow> \<not> taken b s"
proof (cases b)
  case (Cond c)
  assume "b \<noteq> Cond NV" "b \<noteq> Cond AL"
  then show ?thesis using Cond by (cases c) (simp_all add: InvertCondition_def Condition_of_def)
next
  case (Compare op rt sz)
  then show ?thesis by (cases op) simp_all
next
  case (Test op rt n)
  then show ?thesis by (cases op) simp_all
qed

definition branch_ends :: "host \<Rightarrow> sim \<Rightarrow> i64 \<Rightarrow> bool" where
  "branch_ends h s p \<longleftrightarrow> (\<exists>n lp. 0 < n \<and> n \<le> 2 \<and> (sim_step h ^^ n) s (upd_sys lp p True (icount s + of_nat n) s))"

lemma branch_ends_1: "sim_step h s (upd_sys lp p True (icount s + 1) s) \<Longrightarrow> branch_ends h s p"
  unfolding branch_ends_def by (intro exI [of _ "1 :: nat"] exI [of _ lp]) (simp add: eq_OO)

lemma branch_ends_2:
  assumes "sim_step h s (upd_sys lp q True (icount s + 1) s)"
    "sim_step h (upd_sys lp q True (icount s + 1) s) (upd_sys lq p True (icount s + 2) s)"
  shows "branch_ends h s p"
  unfolding branch_ends_def using assms
  by (intro exI [of _ "2 :: nat"] exI [of _ lq]) (auto simp: numeral_2_eq_2 eq_OO)

lemma far_pair:
  assumes "branch_ok b" "b \<noteq> Cond NV" "b \<noteq> Cond AL" "offset_ok 26 (d - 4)" "stop_sim_at h = - 1"
    "code_at (mem s) (pc s) [guard_word b, jump_word (d - 4)]"
  shows "branch_ends h s (if taken b s then pc s + d else pc s + 8)"
proof -
  let ?i = "invert_branch b"
  have i: "branch_ok ?i" "branch_bits ?i = branch_bits b" "?i \<noteq> Cond NV"
  proof -
    have "InvertCondition c = NV \<longleftrightarrow> c = AL" for c by (cases c) (simp_all add: InvertCondition_def Condition_of_def)
    then show "?i \<noteq> Cond NV" using assms(3) by (cases b) auto
  qed (use assms(1) in \<open>simp_all add: invert_simps\<close>)
  have o: "offset_ok (branch_bits ?i) 8" using fits_8 [of ?i] by (simp add: offset_ok_def fits_offset_def)
  have s1: "sim_step h s (upd_sys (pc s) (if taken b s then pc s + 4 else pc s + 8) True (icount s + 1) s)"
    using taken_step [OF i(1,3) o assms(5), of s "[jump_word (d - 4)]"] assms(6) taken_invert [OF assms(2,3), of s]
    by (cases "taken b s") (simp_all add: guard_word_def i(2))
  show ?thesis
  proof (cases "taken b s")
    case True
    let ?t = "upd_sys (pc s) (pc s + 4) True (icount s + 1) s"
    have "sim_step h ?t (upd_sys (pc s + 4) (pc s + d) True (icount s + 2) s)"
      using jump_step [OF assms(4,5), of ?t "[]"] assms(6) by (simp add: add.assoc)
    then show ?thesis using branch_ends_2 [OF s1 [unfolded if_P [OF True]]] True by simp
  qed (use branch_ends_1 s1 in simp)
qed

lemma offset_ok_widen: "offset_ok 26 d \<Longrightarrow> fits_offset (branch_bits b) d \<Longrightarrow> offset_ok (branch_bits b) d"
  by (rule offset_ok_26)

lemma branch_code_runs:
  assumes b: "branch_ok b" "b \<noteq> Cond NV" and o: "offset_ok 26 d" "offset_ok 26 (d - 4)" and st: "stop_sim_at h = - 1"
    and c: "near_code b d = Inr ws \<or> far_code b d = Inr ws \<or> far_back b d = Inr ws" "code_at (mem s) (pc s) ws"
  shows "branch_ends h s (if taken b s then pc s + d else pc s + of_nat (4 * length ws))"
proof (cases "fits_offset (branch_bits b) d")
  case True
  let ?w = "put_offset 5 (branch_bits b) d (branch_word b)"
  note o' = offset_ok_widen [OF o(1) True]
  from c(1) True consider "ws = [?w]" | "ws = [?w, kNopInstruction]"
    by (auto simp: near_code_def far_code_def far_back_def)
  then show ?thesis
  proof cases
    case 1
    then show ?thesis using taken_step [OF b o' st, of s "[]"] c(2)
      by (intro branch_ends_1 [where lp = "pc s"]) (cases "taken b s"; simp)
  next
    case 2
    have s1: "sim_step h s (upd_sys (pc s) (if taken b s then pc s + d else pc s + 4) True (icount s + 1) s)"
      using taken_step [OF b o' st, of s "[kNopInstruction]"] c(2) 2 by simp
    show ?thesis
    proof (cases "taken b s")
      case False
      let ?t = "upd_sys (pc s) (pc s + 4) True (icount s + 1) s"
      have "sim_step h ?t (upd_sys (pc s + 4) (pc s + 8) True (icount s + 2) s)"
        using nop_step [OF st, of ?t "[]"] c(2) 2 by (simp add: add.assoc)
      then show ?thesis using branch_ends_2 [OF s1 [unfolded if_not_P [OF False]]] False 2 by simp
    qed (use branch_ends_1 s1 in simp)
  qed
next
  case False
  from c(1) False consider (always) "b = Cond AL" "ws = [kNopInstruction, jump_word (d - 4)]" | (jump) "b = Cond AL" "ws = [jump_word d]"
    | (guarded) "b \<noteq> Cond AL" "ws = [guard_word b, jump_word (d - 4)]"
    by (cases "b = Cond AL") (auto simp: near_code_def far_code_def far_back_def)
  then show ?thesis
  proof cases
    case always
    let ?t = "upd_sys (pc s) (pc s + 4) True (icount s + 1) s"
    have "sim_step h s ?t" using nop_step [OF st, of s "[jump_word (d - 4)]"] c(2) always by simp
    moreover have "sim_step h ?t (upd_sys (pc s + 4) (pc s + d) True (icount s + 2) s)"
      using jump_step [OF o(2) st, of ?t "[]"] c(2) always by (simp add: add.assoc)
    ultimately show ?thesis using branch_ends_2 always by fastforce
  next
    case jump
    then show ?thesis using jump_step [OF o(1) st, of s "[]"] c(2) by (intro branch_ends_1) simp
  next
    case guarded
    then show ?thesis using far_pair [OF b guarded(1) o(2) st, of s] c(2) by (cases "taken b s") simp_all
  qed
qed

section \<open>Branches in assembled code\<close>

lemma layout_split:
  assumes "layout code bound i (xs @ Branch b # ys) = Inr ws"
  obtains p c q where "ws = p @ c @ q" "layout code bound i xs = Inr p" "code b (bound - of_nat (4 * (i + length p))) = Inr c"
proof -
  have "\<exists>p c q. ws = p @ c @ q \<and> layout code bound i xs = Inr p \<and> code b (bound - of_nat (4 * (i + length p))) = Inr c"
    using assms
  proof (induction xs arbitrary: i ws)
    case Nil
    then show ?case by (auto simp: bindE_Inr_iff)
  next
    case (Cons x xs)
    then obtain us vs where u: "item_code code bound i x = Inr us" "layout code bound (i + length us) (xs @ Branch b # ys) = Inr vs"
      "ws = us @ vs" by (auto simp: bindE_Inr_iff)
    from Cons.IH [OF u(2)] obtain p c q where "vs = p @ c @ q" "layout code bound (i + length us) xs = Inr p"
      "code b (bound - of_nat (4 * (i + length us + length p))) = Inr c" by blast
    then have "ws = (us @ p) @ c @ q" "layout code bound i (x # xs) = Inr (us @ p)"
        "code b (bound - of_nat (4 * (i + length (us @ p)))) = Inr c"
      using u by (simp_all add: add.assoc del: of_nat_mult of_nat_add)
    then show ?case by blast
  qed
  then show ?thesis using that by blast
qed

lemma distance_ok:
  assumes "n \<le> 2 ^ 24" "j \<le> 2 ^ 24"
  shows "offset_ok 26 (of_nat (4 * n) - of_nat (4 * j))" "offset_ok 26 (of_nat (4 * n) - of_nat (4 * j) - 4)"
proof -
  have *: "offset_ok 26 (of_nat (4 * n) - of_nat (4 * j))" if "n \<le> 2 ^ 24" "j \<le> 2 ^ 24 + 1" for n j
  proof -
    have "(of_nat (4 * n) - of_nat (4 * j) :: i64) = push_bit 2 (of_nat n - of_nat j)"
      by (simp add: push_bit_eq_mult algebra_simps)
    then have "take_bit 2 (of_nat (4 * n) - of_nat (4 * j) :: i64) = 0" by (simp only: take_bit_push_bit) simp
    moreover have "sint (of_nat (4 * n) - of_nat (4 * j) :: i64) = 4 * int n - 4 * int j"
      using that by (intro sint_word_distance) simp_all
    ultimately show ?thesis using that unfolding offset_ok_def by (simp del: of_nat_mult)
  qed
  show "offset_ok 26 (of_nat (4 * n) - of_nat (4 * j))" using * [of n j] assms by simp
  have "of_nat (4 * n) - of_nat (4 * j) - 4 = (of_nat (4 * n) - of_nat (4 * Suc j) :: i64)" by (simp add: algebra_simps)
  then show "offset_ok 26 (of_nat (4 * n) - of_nat (4 * j) - 4)" using * [of n "Suc j"] assms by (simp only:)
qed

lemma layout_branch_runs:
  assumes l: "layout code (of_nat (4 * n)) i (xs @ Branch b # ys) = Inr ws" "layout code (of_nat (4 * n)) i xs = Inr p"
    and c: "\<And>d ws. code b d = Inr ws \<Longrightarrow> near_code b d = Inr ws \<or> far_code b d = Inr ws \<or> far_back b d = Inr ws"
    and b: "branch_ok b" "b \<noteq> Cond NV" and n: "n \<le> 2 ^ 24" "i + length p \<le> 2 ^ 24" and st: "stop_sim_at h = - 1"
    and m: "code_at (mem s) (base + of_nat (4 * i)) ws" and pc: "pc s = base + of_nat (4 * (i + length p))"
  shows "\<exists>cs. code b (of_nat (4 * n) - of_nat (4 * (i + length p))) = Inr cs \<and>
    branch_ends h s (if taken b s then base + of_nat (4 * n) else pc s + of_nat (4 * length cs))"
proof -
  let ?d = "of_nat (4 * n) - of_nat (4 * (i + length p)) :: i64"
  obtain c q where w: "ws = p @ c @ q" and cc: "code b ?d = Inr c"
    by (rule layout_split [OF l(1)]) (use l(2) in auto)
  have "code_at (mem s) (pc s) c"
    using m unfolding w code_at_append pc by (simp add: algebra_simps)
  note run = branch_code_runs [OF b distance_ok [OF n] st c [OF cc] this]
  have "pc s + ?d = base + of_nat (4 * n)" unfolding pc by simp
  then show ?thesis using cc run by (simp only:) blast
qed

context branch_form
begin

lemma assemble_Inr:
  assumes "use_far_branches a = far" "IsUnused l" "list_all item_ok (before @ after)"
    "length (buffer a) + items_words width before \<le> 2 ^ 24" "assemble before after (a, l) = Some (Inr (a', l'))"
  defines "n \<equiv> length (buffer a) + items_words width before"
  shows "\<exists>ws vs. layout code (of_nat (4 * n)) (length (buffer a)) before = Inr ws \<and>
    layout back_code (of_nat (4 * n)) n after = Inr vs \<and> buffer a' = buffer a @ ws @ vs \<and>
    Position l' = of_nat (4 * n) \<and> length ws = items_words width before"
proof -
  have "bindE (layout code (of_nat (4 * n)) (length (buffer a)) before) (\<lambda>ws.
        bindE (layout back_code (of_nat (4 * n)) n after) (\<lambda>vs.
          Inr (Emit (ws @ vs) a, l\<lparr>position := - of_nat (4 * n) - 4\<rparr>))) = Inr (a', l')"
    using assemble_layout [OF assms(1-4)] assms(5) unfolding n_def
    by (auto simp: assemble_def simp del: of_nat_mult of_nat_add)
  then obtain ws vs where "layout code (of_nat (4 * n)) (length (buffer a)) before = Inr ws"
      "layout back_code (of_nat (4 * n)) n after = Inr vs" "a' = Emit (ws @ vs) a" "l' = l\<lparr>position := - of_nat (4 * n) - 4\<rparr>"
    unfolding bindE_Inr_iff by auto
  then show ?thesis
    using layout_words bound_facts(2) [of n l'] assms(4) by (auto simp: n_def Emit_def simp del: of_nat_mult of_nat_add)
qed

lemma forward_branch:
  assumes a: "use_far_branches a = far" "IsUnused l" "list_all item_ok (xs @ Branch b # ys @ after)"
    "length (buffer a) + items_words width (xs @ Branch b # ys) \<le> 2 ^ 24"
    "assemble (xs @ Branch b # ys) after (a, l) = Some (Inr (a', l'))"
    and c: "\<And>d ws. code b d = Inr ws \<Longrightarrow> near_code b d = Inr ws \<or> far_code b d = Inr ws \<or> far_back b d = Inr ws"
    and b: "b \<noteq> Cond NV" and st: "stop_sim_at h = - 1" and m: "code_at (mem s) base (buffer a')"
    and pc: "pc s = base + of_nat (4 * (length (buffer a) + items_words width xs))"
  shows "branch_ends h s (if taken b s then base + Position l' else pc s + of_nat (4 * width))"
proof -
  define n where "n = length (buffer a) + items_words width (xs @ Branch b # ys)"
  obtain ws vs where w: "layout code (of_nat (4 * n)) (length (buffer a)) (xs @ Branch b # ys) = Inr ws"
      "buffer a' = buffer a @ ws @ vs" "Position l' = of_nat (4 * n)"
    using assemble_Inr [OF a(1,2) _ a(4,5)] a(3) unfolding n_def by auto
  obtain p where p: "layout code (of_nat (4 * n)) (length (buffer a)) xs = Inr p"
    by (rule layout_split [OF w(1)])
  note lp = layout_words [OF p]
  have "code_at (mem s) (base + of_nat (4 * length (buffer a))) ws"
    using m unfolding w(2) code_at_append by simp
  then obtain cs where cs: "code b (of_nat (4 * n) - of_nat (4 * (length (buffer a) + length p))) = Inr cs"
    "branch_ends h s (if taken b s then base + of_nat (4 * n) else pc s + of_nat (4 * length cs))"
    using layout_branch_runs [OF w(1) p c _ b _ _ st, of s base] a(3,4) pc lp unfolding n_def by auto
  then show ?thesis unfolding w(3) code_length [OF cs(1)] by simp
qed

end

text \<open>C1. Branches in assembled code reach their label. In any sequence of code and branches to a fresh label,
  assembled with near or with far branches, every branch emitted before the label was bound, run in
  the simulator from the loaded code, arrives at the bound position in one or two steps when its
  condition holds and at the code after it otherwise, and changes nothing but the program counter
  and the bookkeeping of the simulator.\<close>

theorem branch_reaches_label:
  assumes "IsUnused l" "list_all item_ok (xs @ Branch b # ys @ after)" "b \<noteq> Cond NV"
    "width = (if use_far_branches a then 2 else 1)"
    "length (buffer a) + items_words width (xs @ Branch b # ys) \<le> 2 ^ 24"
    "assemble (xs @ Branch b # ys) after (a, l) = Some (Inr (a', l'))"
    "code_at (mem s) base (buffer a')" "stop_sim_at h = - 1"
    "pc s = base + of_nat (4 * (length (buffer a) + items_words width xs))"
  shows "branch_ends h s (if taken b s then base + Position l' else pc s + of_nat (4 * width))"
proof (cases "use_far_branches a")
  case True
  then have w: "width = 2" using assms(4) by simp
  show ?thesis unfolding w
    by (rule far.forward_branch [of a l xs b ys after a']) (use assms True w in \<open>simp_all del: of_nat_mult of_nat_add\<close>)
next
  case False
  then have w: "width = 1" using assms(4) by simp
  show ?thesis unfolding w
    by (rule near.forward_branch [of a l xs b ys after a']) (use assms False w in \<open>simp_all del: of_nat_mult of_nat_add\<close>)
qed

text \<open>C16. A branch to a bound label reaches it: whichever of its forms was emitted, the code appended to
  the buffer leads to the position of the label when the condition holds and behind itself
  otherwise.\<close>

theorem bound_branch_reaches_label:
  assumes "emit_branch b (a, l) = Inr (a', l')" "IsBound l" "branch_ok b" "b \<noteq> Cond NV"
    "Position l = of_nat (4 * n)" "n \<le> 2 ^ 24" "length (buffer a) \<le> 2 ^ 24"
    "code_at (mem s) base (buffer a')" "pc s = base + Size a" "stop_sim_at h = - 1"
  shows "branch_ends h s (if taken b s then base + Position l else base + Size a')"
proof -
  let ?d = "Position l - Size a"
  obtain cs where c: "near_code b ?d = Inr cs \<or> far_code b ?d = Inr cs \<or> far_back b ?d = Inr cs" "a' = Emit cs a"
    using assms(1) emit_branch_cases(2,4) [OF assms(3) _ assms(2), of a] by (cases "use_far_branches a") (auto simp: bindE_Inr_iff)
  have o: "offset_ok 26 ?d" "offset_ok 26 (?d - 4)"
    using distance_ok [OF assms(6,7)] by (simp_all add: assms(5) Size_def)
  have "code_at (mem s) (pc s) cs"
    using assms(8) unfolding c(2) Emit_def assms(9) Size_def by (simp add: code_at_append)
  note run = branch_code_runs [OF assms(3,4) o assms(10) c(1) this]
  have "pc s + ?d = base + Position l" "pc s + of_nat (4 * length cs) = base + Size a'"
    unfolding assms(9) c(2) Size_Emit by simp_all
  then show ?thesis using run by (simp only:)
qed


section \<open>Examples\<close>

definition example_branches :: "item list" where
  "example_branches = [Code [kNopInstruction], Branch (Test TBZ 3 40)]"

definition example_words :: "i32 list" where
  "example_words = [0x540000a1, 0xd503201f, 0xd503201f, 0xb6400043, 0xd503201f, 0xd503201f]"

lemma example_assembled:
  "assemble ([] @ Branch (Cond NE) # example_branches) [Code [kNopInstruction]] (example_empty True, example_fresh) =
     Some (Inr ((example_empty True)\<lparr>buffer := example_words\<rparr>, example_fresh\<lparr>position := - 24\<rparr>))"
  by code_simp

theorem branch_reaches_label_witness:
  "branch_ends example_host (example_state example_words)
     (if taken (Cond NE) (example_state example_words) then 0x10000 + Position (example_fresh\<lparr>position := - 24\<rparr>)
      else pc (example_state example_words) + of_nat (4 * 2))"
proof (rule branch_reaches_label [OF _ _ _ _ _ example_assembled])
  show "code_at (mem (example_state example_words)) 0x10000 (buffer ((example_empty True)\<lparr>buffer := example_words\<rparr>))"
    by code_simp
qed (simp_all add: example_fresh_def example_empty_def example_branches_def IsUnused_def example_state_def stop_sim_at_example_host)

definition example_bound :: Label where "example_bound = \<lparr>position = - 4\<rparr>"

theorem bound_branch_reaches_label_witness:
  "branch_ends example_host ((example_state [0xd503201f, 0xb5ffffe3])\<lparr>pc := 0x10004\<rparr>)
     (if taken (Compare CBNZ 3 kDoubleWord) ((example_state [0xd503201f, 0xb5ffffe3])\<lparr>pc := 0x10004\<rparr>)
      then 0x10000 + Position example_bound
      else 0x10000 + Size (((example_empty True)\<lparr>buffer := [0xd503201f, 0xb5ffffe3]\<rparr>)))"
proof (rule bound_branch_reaches_label [of _ "(example_empty True)\<lparr>buffer := [0xd503201f]\<rparr>" _ _ example_bound 0])
  show "emit_branch (Compare CBNZ 3 kDoubleWord) ((example_empty True)\<lparr>buffer := [0xd503201f]\<rparr>, example_bound) =
      Inr (((example_empty True)\<lparr>buffer := [0xd503201f, 0xb5ffffe3]\<rparr>), example_bound)"
    by code_simp
  show "code_at (mem ((example_state [0xd503201f, 0xb5ffffe3])\<lparr>pc := 0x10004\<rparr>)) 0x10000
      (buffer ((example_empty True)\<lparr>buffer := [0xd503201f, 0xb5ffffe3]\<rparr>))"
    by code_simp
  show "IsBound example_bound" by code_simp
  show "Position example_bound = of_nat (4 * 0)" by code_simp
qed (simp_all add: Size_def stop_sim_at_example_host)

end
