(* ===== verification/Arm64_Integer.thy ===== *)
theory Arm64_Integer
  imports Arm64_Macros
begin

text \<open>
  Integer instructions between the assembler and the simulator: shifts by an immediate and the tagging of
  small integers built from them, addition of two-word numbers through the carry flag, the
  counting of leading zeros, the extraction of bit fields and multiplication. For three of them the
  code departs from the instruction set; the theorems say how.
\<close>

section \<open>Shifts by an immediate and tagging of small integers\<close>

lemma fits_of_nat6: "k < 64 \<Longrightarrow> fits 6 (of_nat k)" "k < 64 \<Longrightarrow> unat (of_nat k :: i32) = k"
  using fits_of_nat [of k 6] by (simp_all add: unat_of_nat take_bit_nat_eq_self)

lemma AddShift_dispatch:
  assumes r: "rd < 31" "rm < 31" "k < 64"
    and i: "i = hd (add rd ZR (Operand_shift rm sh (of_nat k)))"
  shows "InstructionDecode_dispatch h i s = Inr (write_reg rd (ShiftOperand 64 (registers s rm) sh k) s)"
proof -
  have r': "rd < 34" "rm < 34" "ConcreteRegister rd = rd" "ConcreteRegister rm = rm" "ConcreteRegister ZR = 31"
      "ConcreteRegister 31 = 31"
    using r by (simp_all add: ConcreteRegister_def R31_def ZR_def CSP_def)
  note fits = fits_creg [OF r'(1), unfolded r'(3)] fits_creg [OF r'(2), unfolded r'(4)] fits_of_nat6(1) [OF r(3)]
  note u = unat_creg [OF r'(1), unfolded r'(3)] unat_creg [OF r'(2), unfolded r'(4)] fits_of_nat6(2) [OF r(3)]
  have e: "i = AddSubShiftExtOp_bits ADD OR B31 OR of_nat rd OR push_bit 5 31 OR
      (push_bit 10 (of_nat k) OR push_bit 16 (of_nat rm) OR push_bit 22 (Shift_val sh))"
    unfolding i add_def AddSubHelper_def EmitAddSubShiftExtOp_def size_bit_def Rd_def Rn_def Operand_shift_def Rm_def Let_def r'
    by simp
  have c: "\<not> IsDPImmediateOp i" "\<not> IsCompareBranchOp i" "\<not> IsLoadStoreOp i" "IsDPRegisterOp i"
      "IsAddSubShiftExtOp i" "\<not> IsAddSubImmOp i" "\<not> IsLogicalImmOp i" "\<not> IsLogicalShiftOp i"
    using fits unfolding e by (cases sh; simp add: codec_simps)+
  have f: "SFField i = 1" "Bit i 30 = 0" "RdField i = rd" "RnField i = 31"
      "RmField i = rm" "\<not> HasS i" "unat (Imm6Field i) = k" "Bit i 21 = 0" "ShiftTypeField i = sh"
    using fits u unfolding e by (cases sh; simp add: codec_simps)+
  have m: "RdMode i = R31IsZR" "RnMode i = R31IsZR" "IsShift i"
    unfolding RdMode_def RnMode_def IsExtend_def IsShift_def using c f by simp_all
  have rm: "DecodeShiftExtendOperand i s = ShiftOperand 64 (registers s rm) sh k"
    unfolding DecodeShiftExtendOperand_def Let_def using f m r by (simp add: get_register_low)
  have "InstructionDecode_dispatch h i s = DecodeAddSubShiftExt i s"
    unfolding InstructionDecode_dispatch_def DecodeDPRegister_def using c by simp
  then show ?thesis
    unfolding DecodeAddSubShiftExt_def Let_def m rm f using r by (simp add: set_register_low get_register_def R31_def f)
qed

lemma straight_shift:
  assumes "rd < 31" "rm < 31" "k < 64"
  shows "straight h (add rd ZR (Operand_shift rm sh (of_nat k))) (\<lambda>s. write_reg rd (ShiftOperand 64 (registers s rm) sh k) s)"
proof -
  have t: "operand_type (Operand_shift rm sh (of_nat k)) \<noteq> Immediate" by (simp add: Operand_shift_def)
  have "effect h (hd (add rd ZR (Operand_shift rm sh (of_nat k)))) (\<lambda>s. write_reg rd (ShiftOperand 64 (registers s rm) sh k) s)"
    using AddShift_dispatch [OF assms refl] by (simp add: effect_def local_write_reg)
  then show ?thesis
    using straight_single t by (simp add: add_def AddSubHelper_def Let_def EmitAddSubShiftExtOp_def)
qed

lemma ShiftOperand_smi:
  assumes "- (2 ^ 62) \<le> sint v" "sint v < 2 ^ 62"
  shows "ShiftOperand 64 v LSL 1 = 2 * v" "ShiftOperand 64 (2 * v) ASR 1 = v" "sint (2 * v) = 2 * sint v"
proof -
  have m: "x AND kXRegMask = x" for x by (rule X_mask)
  show "ShiftOperand 64 v LSL 1 = 2 * v"
    by (simp add: ShiftOperand_def Let_def m push_bit_eq_mult mult.commute)
  have "sint (2 * v) = signed_take_bit 63 (2 * sint v)" by (simp add: sint_word_ariths)
  also have "\<dots> = 2 * sint v" using assms by (intro signed_take_bit_id) simp_all
  finally show s: "sint (2 * v) = 2 * sint v" .
  have "sint (signed_drop_bit 1 (2 * v)) = sint v"
    using s by (simp add: sint_signed_drop_bit_eq drop_bit_eq_div)
  then have "signed_drop_bit 1 (2 * v) = v" by (rule signed_word_eqI)
  then show "ShiftOperand 64 (2 * v) ASR 1 = v"
    by (simp add: ShiftOperand_def Let_def m)
qed

text \<open>C21. Tagging and untagging of small integers. The code of \<open>SmiTag\<close> followed by that of \<open>SmiUntag\<close>,
  run in the simulator on any register value of 63 signed bits, first leaves twice the value, whose tag bit is clear,
  and then the value itself; nothing else changes.\<close>

theorem SmiTag_SmiUntag:
  assumes "src < 31" "tagged < 31" "dst < 31"
    "- (2 ^ 62) \<le> sint (registers s src)" "sint (registers s src) < 2 ^ 62"
    "code_at (mem s) (pc s) (SmiTag tagged src @ SmiUntag dst tagged)" "stop_sim_at h = - 1"
  defines "v \<equiv> registers s src"
  shows "(sim_step h ^^ 2) s (advance 2 (write_reg dst v (write_reg tagged (2 * v) s))) \<and>
    sint (2 * v) = 2 * sint v \<and> \<not> bit (2 * v) 0"
proof -
  note smi = ShiftOperand_smi [OF assms(4,5)]
  have one: "of_nat 1 = (1 :: i32)" by simp
  have t: "straight h (SmiTag tagged src) (\<lambda>s. write_reg tagged (ShiftOperand 64 (registers s src) LSL 1) s)"
    using straight_shift [OF assms(2,1), of 1 h LSL] unfolding one by (simp add: SmiTag_def LslImmediate_def)
  have u: "straight h (SmiUntag dst tagged) (\<lambda>s. write_reg dst (ShiftOperand 64 (registers s tagged) ASR 1) s)"
    using straight_shift [OF assms(3,2), of 1 h ASR] unfolding one by (simp add: SmiUntag_def AsrImmediate_def)
  have l: "length (SmiTag tagged src @ SmiUntag dst tagged) = 2"
    by (simp add: SmiTag_def SmiUntag_def LslImmediate_def AsrImmediate_def add_def AddSubHelper_def Let_def Operand_shift_def
        EmitAddSubShiftExtOp_def)
  have "registers (write_reg tagged x s) tagged = x" for x by (simp add: write_reg_def)
  then show ?thesis
    using straight_steps [OF straight_append [OF t u] assms(6,7)] smi unfolding l v_def by (simp add: bit_0)
qed

section \<open>Multi-word addition\<close>

lemma straight_adds:
  assumes "rd < 31" "rn < 31" "rm < 31"
  shows "straight h (adds rd rn (Operand_reg rm))
    (\<lambda>s. addsub_flags True (registers s rn) (registers s rm) (write_reg rd (registers s rn + registers s rm) s))"
proof -
  have t: "operand_type (Operand_reg rm) \<noteq> Immediate" by (simp add: Operand_reg_def)
  have "effect h (hd (adds rd rn (Operand_reg rm)))
      (\<lambda>s. addsub_flags True (registers s rn) (registers s rm) (write_reg rd (registers s rn + registers s rm) s))"
    using assms AddSubReg_dispatch [OF _ _ _ refl, of rd rn rm h ADD True] t
    by (simp add: effect_def adds_def AddSubHelper_def Let_def addsub_outcome_def set_register_low get_register_low
        local_update_def addsub_flags_def write_flags_def write_reg_def upd_sys_def)
  then show ?thesis
    using straight_single t by (simp add: adds_def AddSubHelper_def Let_def EmitAddSubShiftExtOp_def)
qed

definition adcs_effect :: "Register \<Rightarrow> Register \<Rightarrow> Register \<Rightarrow> sim \<Rightarrow> sim" where
  "adcs_effect rd rn rm s =
     (let a = registers s rn; b = registers s rm; out = a + b + of_bool (c_flag s)
      in write_flags (out <s 0) (out = 0) (CarryFromX out a b True) (OverflowFromX out a b True) (write_reg rd out s))"

lemma adcs_dispatch:
  assumes r: "rd < 31" "rn < 31" "rm < 31" and i: "i = hd (adcs rd rn rm)"
  shows "InstructionDecode_dispatch h i s = Inr (adcs_effect rd rn rm s)"
proof -
  have r': "rd < 34" "rn < 34" "rm < 34" "ConcreteRegister rd = rd" "ConcreteRegister rn = rn" "ConcreteRegister rm = rm"
    using r by (simp_all add: ConcreteRegister_def R31_def ZR_def CSP_def)
  note fits = fits_creg [OF r'(1), unfolded r'(4)] fits_creg [OF r'(2), unfolded r'(5)] fits_creg [OF r'(3), unfolded r'(6)]
  note u = unat_creg [OF r'(1), unfolded r'(4)] unat_creg [OF r'(2), unfolded r'(5)] unat_creg [OF r'(3), unfolded r'(6)]
  have e: "i = AddSubWithCarryOp_bits ADC OR B31 OR B29 OR of_nat rd OR push_bit 5 (of_nat rn) OR push_bit 16 (of_nat rm)"
    unfolding i adcs_def AddSubWithCarryHelper_def size_bit_def Rd_def Rn_def Rm_def Let_def r' by simp
  have c: "\<not> IsDPImmediateOp i" "\<not> IsCompareBranchOp i" "\<not> IsLoadStoreOp i" "IsDPRegisterOp i"
      "\<not> IsAddSubShiftExtOp i" "IsAddSubWithCarryOp i"
    using fits unfolding e by (simp add: codec_simps)+
  have f: "SFField i = 1" "Bit i 30 = 0" "RdField i = rd" "RnField i = rn" "RmField i = rm" "HasS i"
    using fits u unfolding e by (simp add: codec_simps)+
  have "InstructionDecode_dispatch h i s = DecodeAddSubWithCarry i s"
    unfolding InstructionDecode_dispatch_def DecodeDPRegister_def using c by simp
  then show ?thesis
    unfolding DecodeAddSubWithCarry_def Let_def f using r
    by (simp add: set_register_low get_register_low f adcs_effect_def SetNZFlagsX_def SetCFlag_def SetVFlag_def write_flags_def Let_def)
qed

lemma straight_adcs:
  assumes "rd < 31" "rn < 31" "rm < 31"
  shows "straight h (adcs rd rn rm) (adcs_effect rd rn rm)"
proof -
  have "effect h (hd (adcs rd rn rm)) (adcs_effect rd rn rm)"
    using adcs_dispatch [OF assms refl]
    by (simp add: effect_def local_update_def adcs_effect_def write_flags_def write_reg_def upd_sys_def Let_def)
  then show ?thesis using straight_single by (simp add: adcs_def AddSubWithCarryHelper_def)
qed

lemma two_word_sum:
  fixes x0 x1 y0 y1 L :: int
  assumes "0 < L" "0 \<le> x0" "x0 < L" "0 \<le> y0" "y0 < L"
  defines "c \<equiv> of_bool (L \<le> x0 + y0)"
  shows "(x1 + y1 + c) mod L * L + (x0 + y0) mod L = (x1 * L + x0 + (y1 * L + y0)) mod (L * L)"
    "x1 * L + x0 + (y1 * L + y0) = (x1 + y1 + c) * L + (x0 + y0) mod L"
proof -
  have lo: "(x0 + y0) mod L = x0 + y0 - c * L"
  proof (cases "L \<le> x0 + y0")
    case True
    then have "(x0 + y0) mod L = (x0 + y0 - L) mod L" by simp
    also have "\<dots> = x0 + y0 - L" using assms True by (intro mod_pos_pos_trivial) simp_all
    finally show ?thesis using True by (simp add: c_def)
  qed (use assms in \<open>simp add: c_def\<close>)
  then show e: "x1 * L + x0 + (y1 * L + y0) = (x1 + y1 + c) * L + (x0 + y0) mod L" by (simp add: algebra_simps)
  have "((x1 + y1 + c) * L + (x0 + y0) mod L) mod (L * L) = (x1 + y1 + c) mod L * L + (x0 + y0) mod L"
    using assms(1) zmod_zmult2_eq [of L "(x1 + y1 + c) * L + (x0 + y0) mod L" L] by simp
  then show "(x1 + y1 + c) mod L * L + (x0 + y0) mod L = (x1 * L + x0 + (y1 * L + y0)) mod (L * L)"
    unfolding e by simp
qed

lemma word_bound:
  fixes L M k lo :: int
  assumes "0 \<le> lo" "lo < L"
  shows "M * L \<le> k * L + lo \<longleftrightarrow> M \<le> k"
proof -
  have d: "(k * L + lo) div L = k" using assms by simp
  show ?thesis
  proof
    assume "M * L \<le> k * L + lo"
    then have "M * L div L \<le> (k * L + lo) div L" using assms by (intro zdiv_mono1) simp_all
    then show "M \<le> k" using assms d by simp
  next
    assume "M \<le> k"
    then have "M * L \<le> k * L" using assms by (intro mult_right_mono) simp_all
    then show "M * L \<le> k * L + lo" using assms(1) by simp
  qed
qed

text \<open>C20. Multi-word addition. \<open>adds\<close> on the low words followed by \<open>adcs\<close> on the high words leaves in
  the two destinations the low and high word of the 128-bit sum and in the carry flag its carry;
  the overflow flag tells whether the sum of the operands read as signed 128-bit numbers is out of
  range. No other register changes.\<close>

theorem adds_adcs_128:
  assumes "lo < 31" "hi < 31" "a0 < 31" "a1 < 31" "b0 < 31" "b1 < 31" "lo \<noteq> hi" "lo \<noteq> a1" "lo \<noteq> b1"
    "code_at (mem s) (pc s) (adds lo a0 (Operand_reg b0) @ adcs hi a1 b1)" "stop_sim_at h = - 1"
  defines "a \<equiv> uint (registers s a1) * 2 ^ 64 + uint (registers s a0)"
    and "b \<equiv> uint (registers s b1) * 2 ^ 64 + uint (registers s b0)"
    and "sa \<equiv> sint (registers s a1) * 2 ^ 64 + uint (registers s a0)"
    and "sb \<equiv> sint (registers s b1) * 2 ^ 64 + uint (registers s b0)"
  shows "\<exists>t. (sim_step h ^^ 2) s (advance 2 t) \<and>
    uint (registers t hi) * 2 ^ 64 + uint (registers t lo) = (a + b) mod 2 ^ 128 \<and>
    (c_flag t \<longleftrightarrow> 2 ^ 128 \<le> a + b) \<and>
    (v_flag t \<longleftrightarrow> \<not> (- (2 ^ 127) \<le> sa + sb \<and> sa + sb < 2 ^ 127)) \<and>
    (\<forall>r. r \<noteq> lo \<and> r \<noteq> hi \<longrightarrow> registers t r = registers s r)"
proof -
  let ?x0 = "registers s a0" and ?x1 = "registers s a1" and ?y0 = "registers s b0" and ?y1 = "registers s b1"
  let ?L = "2 ^ 64 :: int"
  define c :: i64 where "c = of_bool (?L \<le> uint ?x0 + uint ?y0)"
  define t where "t = adcs_effect hi a1 b1 (addsub_flags True ?x0 ?y0 (write_reg lo (?x0 + ?y0) s))"
  have run: "(sim_step h ^^ 2) s (advance 2 t)"
  proof -
    have "length (adds lo a0 (Operand_reg b0) @ adcs hi a1 b1) = 2"
      by (simp add: adds_def AddSubHelper_def Let_def Operand_reg_def EmitAddSubShiftExtOp_def adcs_def AddSubWithCarryHelper_def)
    then show ?thesis
      using straight_steps [OF straight_append [OF straight_adds [OF assms(1,3,5)] straight_adcs [OF assms(2,4,6)]] assms(10,11)]
      by (simp add: t_def)
  qed
  have cu: "uint c = of_bool (?L \<le> uint ?x0 + uint ?y0)" "uint c \<le> 1" by (simp_all add: c_def)
  have cf: "CarryFromX (?x0 + ?y0) ?x0 ?y0 True \<longleftrightarrow> ?L \<le> uint ?x0 + uint ?y0" using CarryFromX_add [of 0 ?x0 ?y0] by simp
  have regs: "registers t lo = ?x0 + ?y0" "registers t hi = ?x1 + ?y1 + c" "\<forall>r. r \<noteq> lo \<and> r \<noteq> hi \<longrightarrow> registers t r = registers s r"
    "c_flag t = CarryFromX (?x1 + ?y1 + c) ?x1 ?y1 True" "v_flag t = OverflowFromX (?x1 + ?y1 + c) ?x1 ?y1 True"
    using assms(7-9) unfolding t_def adcs_effect_def addsub_flags_def Let_def c_def
    by (simp_all add: write_flags_def write_reg_def cf)
  have r: "0 \<le> uint ?x0" "uint ?x0 < ?L" "0 \<le> uint ?y0" "uint ?y0 < ?L" using u64_range by simp_all
  have pos: "0 < ?L" by simp
  note w = two_word_sum [OF pos r, folded cu(1)]
  have lo: "uint (?x0 + ?y0) = (uint ?x0 + uint ?y0) mod ?L" "0 \<le> (uint ?x0 + uint ?y0) mod ?L" "(uint ?x0 + uint ?y0) mod ?L < ?L"
    by (simp_all add: uint_word_ariths)
  have hi: "uint (?x1 + ?y1 + c) = (uint ?x1 + uint ?y1 + uint c) mod ?L" by (simp add: uint_word_ariths mod_simps)
  have ab: "a + b = (uint ?x1 + uint ?y1 + uint c) * ?L + (uint ?x0 + uint ?y0) mod ?L"
    and sab: "sa + sb = (sint ?x1 + sint ?y1 + uint c) * ?L + (uint ?x0 + uint ?y0) mod ?L"
    unfolding a_def b_def sa_def sb_def by (rule w(2))+
  have M: "?L * ?L = 2 ^ 128" "- (2 ^ 63) * ?L = - (2 ^ 127)" "2 ^ 63 * ?L = 2 ^ 127" by simp_all
  have "uint (registers t hi) * ?L + uint (registers t lo) = (a + b) mod 2 ^ 128"
    unfolding regs(1,2) lo(1) hi a_def b_def M(1) [symmetric] by (rule w(1))
  moreover have "c_flag t \<longleftrightarrow> 2 ^ 128 \<le> a + b"
    unfolding regs(4) CarryFromX_add [OF cu(2)] ab M(1) [symmetric] word_bound [OF lo(2,3)] by simp
  moreover have "v_flag t \<longleftrightarrow> \<not> (- (2 ^ 127) \<le> sa + sb \<and> sa + sb < 2 ^ 127)"
  proof -
    let ?k = "sint ?x1 + sint ?y1 + uint c"
    have "- (2 ^ 127) \<le> sa + sb \<longleftrightarrow> - (2 ^ 63) \<le> ?k" "2 ^ 127 \<le> sa + sb \<longleftrightarrow> 2 ^ 63 \<le> ?k"
      using word_bound [OF lo(2,3), of "- (2 ^ 63)" ?k] word_bound [OF lo(2,3), of "2 ^ 63" ?k] unfolding M(2,3) sab by blast+
    then show ?thesis unfolding regs(5) OverflowFromX_add [OF cu(2)] by (simp only: not_le [symmetric])
  qed
  ultimately show ?thesis using run regs(3) by blast
qed

section \<open>Counting leading zeros\<close>

definition leading_zeros :: "'a::len word \<Rightarrow> nat" where
  "leading_zeros v = length (takeWhile (\<lambda>k. \<not> bit v k) (rev [0..<LENGTH('a)]))"

lemma takeWhile_rev_upt:
  assumes "bit v m" "\<And>k. m < k \<Longrightarrow> k < n \<Longrightarrow> \<not> bit v k" "m < n"
  shows "length (takeWhile (\<lambda>k. \<not> bit v k) (rev [0..<n])) = n - Suc m"
  using assms
proof (induction n)
  case (Suc n)
  show ?case
  proof (cases "m = n")
    case False
    then show ?thesis using Suc by simp
  qed (use Suc.prems in simp)
qed simp

lemma leading_zeros_top:
  fixes v :: "'a::len word"
  assumes "bit v m" "\<And>k. m < k \<Longrightarrow> \<not> bit v k" "m < LENGTH('a)"
  shows "leading_zeros v = LENGTH('a) - Suc m"
  unfolding leading_zeros_def using assms by (intro takeWhile_rev_upt) auto

lemma top_bit_exists:
  fixes v :: "'a::len word"
  assumes "v \<noteq> 0"
  obtains m where "bit v m" "\<And>k. m < k \<Longrightarrow> \<not> bit v k" "m < LENGTH('a)"
proof -
  let ?S = "{k. bit v k}"
  have sub: "?S \<subseteq> {..<LENGTH('a)}" by (auto dest: bit_imp_le_length)
  then have f: "finite ?S" by (rule finite_subset) simp
  have ne: "?S \<noteq> {}" using assms by (auto simp: bit_eq_iff)
  show ?thesis
    using that [of "Max ?S"] Max_in [OF f ne] Max_ge [OF f] sub by (metis mem_Collect_eq lessThan_iff subsetD not_le)
qed

lemma sless_top_bit: "0 <s (v :: i64) \<longleftrightarrow> v \<noteq> 0 \<and> \<not> bit v 63"
proof -
  have "v = 0" if "sint v = 0" by (rule signed_word_eqI) (use that in simp)
  then have "v \<noteq> 0 \<longleftrightarrow> sint v \<noteq> 0" by auto
  then show ?thesis using bit_last_iff [of v] by (auto simp: word_sless_alt simp del: signed_eq_0_iff)
qed

lemma clz_loop_top:
  assumes "bit v m" "\<And>k. m < k \<Longrightarrow> \<not> bit v k" "m < 64"
  shows "clz_loop v c = c + of_nat (63 - m)"
  using assms
proof (induction "63 - m" arbitrary: v c m)
  case 0
  then have "m = 63" by simp
  then have "\<not> 0 <s v" using 0 by (simp add: sless_top_bit)
  then show ?case using 0 by (subst clz_loop.simps) simp
next
  case (Suc j)
  have "\<not> bit v 63" using Suc by simp
  moreover have "v \<noteq> 0" using Suc.prems(1) by auto
  ultimately have p: "0 <s v" by (simp add: sless_top_bit)
  have "clz_loop (push_bit 1 v) (c + 1) = c + 1 + of_nat (63 - Suc m)"
    using Suc.hyps(2) Suc.prems by (intro Suc.hyps(1)) (simp_all only: bit_push_bit_iff, auto)
  also have "\<dots> = c + of_nat (63 - m)"
  proof -
    have "63 - m = Suc (63 - Suc m)" using Suc.hyps(2) by simp
    then show ?thesis by simp
  qed
  finally show ?case using p by (subst clz_loop.simps) simp
qed

lemma leading_zeros_0: "leading_zeros (0 :: 'a::len word) = LENGTH('a)"
proof -
  have t: "takeWhile (\<lambda>k. True) xs = xs" for xs :: "nat list" by (induction xs) simp_all
  show ?thesis by (simp add: leading_zeros_def t)
qed

lemma clz_loop_leading_zeros: "v \<noteq> 0 \<Longrightarrow> clz_loop v 0 = of_nat (leading_zeros v)"
proof -
  assume "v \<noteq> 0"
  then obtain m where m: "bit v m" "\<And>k. m < k \<Longrightarrow> \<not> bit v k" "m < 64" using top_bit_exists [of v] by auto
  then show ?thesis using clz_loop_top [OF m, of 0] leading_zeros_top [of v m] by simp
qed

lemma clz_fields:
  assumes r: "rd < 31" "rn < 31" and i: "i = hd (EmitMiscDP1Source CLZ rd rn sz)"
  shows "InstructionDecode_dispatch h i s = DecodeMiscDP1Source i s" "SFField i = of_bool (sz = kDoubleWord)"
    "RdField i = rd" "RnField i = rn" "Bits i 10 10 = 4" "Bit i 29 = 0"
proof -
  have r': "rd < 34" "rn < 34" "ConcreteRegister rd = rd" "ConcreteRegister rn = rn"
    using r by (simp_all add: ConcreteRegister_def R31_def ZR_def CSP_def)
  note fits = fits_creg [OF r'(1), unfolded r'(3)] fits_creg [OF r'(2), unfolded r'(4)]
  note u = unat_creg [OF r'(1), unfolded r'(3)] unat_creg [OF r'(2), unfolded r'(4)]
  have e: "i = MiscDP1SourceOp_bits CLZ OR (if sz = kDoubleWord then B31 else 0) OR of_nat rd OR push_bit 5 (of_nat rn)"
    unfolding i EmitMiscDP1Source_def size_bit_def Rd_def Rn_def r' by simp
  have c: "\<not> IsDPImmediateOp i" "\<not> IsCompareBranchOp i" "\<not> IsLoadStoreOp i" "IsDPRegisterOp i"
      "\<not> IsAddSubShiftExtOp i" "\<not> IsAddSubWithCarryOp i" "\<not> IsLogicalShiftOp i" "IsMiscDP1SourceOp i"
    using fits unfolding e by (cases "sz = kDoubleWord"; simp add: codec_simps)+
  show "SFField i = of_bool (sz = kDoubleWord)"
    "RdField i = rd" "RnField i = rn" "Bits i 10 10 = 4" "Bit i 29 = 0"
    using fits u unfolding e by (cases "sz = kDoubleWord"; simp add: codec_simps)+
  show "InstructionDecode_dispatch h i s = DecodeMiscDP1Source i s"
    unfolding InstructionDecode_dispatch_def DecodeDPRegister_def using c by simp
qed

text \<open>C22. The \<open>clz\<close> instruction of the assembler, run in the simulator, counts the leading zeros of its
  source for every 64-bit value, zero included: the shifting loop of \<open>DecodeMiscDP1Source\<close> ends
  and its count is the number of positions above the highest set bit.\<close>

theorem clz_counts_leading_zeros:
  assumes "rd < 31" "rn < 31"
  shows "InstructionDecode_dispatch h (hd (clz rd rn)) s = Inr (write_reg rd (of_nat (leading_zeros (registers s rn))) s)"
  using clz_fields [OF assms refl, where sz = kDoubleWord] assms clz_loop_leading_zeros [of "registers s rn"]
  by (simp add: clz_def DecodeMiscDP1Source_def Let_def get_register_low set_register_low leading_zeros_0)

text \<open>C23. The 32-bit form of \<open>clz\<close> counts too much: for every positive 32-bit value the simulator's
  result is 32 larger than the number of leading zeros of the 32-bit value, because the value is
  widened before the loop.\<close>

theorem clz_word_form_counts_64_bits:
  assumes "rd < 31" "rn < 31" "0 <s (ucast (registers s rn) :: i32)"
  shows "InstructionDecode_dispatch h (hd (EmitMiscDP1Source CLZ rd rn kWord)) s =
    Inr (set_wregister rd (of_nat (32 + leading_zeros (ucast (registers s rn) :: i32))) R31IsZR s)"
proof -
  let ?w = "ucast (registers s rn) :: i32"
  have "?w \<noteq> 0" using assms(3) by auto
  then obtain m where m: "bit ?w m" "\<And>k. m < k \<Longrightarrow> \<not> bit ?w k" "m < 32" using top_bit_exists [of ?w] by auto
  have nb: "\<not> bit ?w 31" using assms(3) bit_last_iff [of ?w] by (auto simp: word_sless_alt)
  have b: "bit (scast ?w :: i64) k \<longleftrightarrow> bit ?w k" for k
  proof -
    have "k = 31 \<or> k < 31" if "bit ?w k" using bit_imp_le_length [OF that] by auto
    then show ?thesis using nb bit_imp_le_length [of ?w k] by (auto simp: bit_signed_iff min_def)
  qed
  have z: "leading_zeros ?w = 31 - m" using leading_zeros_top [of ?w m] m by simp
  have "clz_loop (scast ?w) 0 = of_nat (63 - m)"
    using clz_loop_top [of "scast ?w" m 0] m by (simp add: b)
  moreover have "63 - m = 32 + leading_zeros ?w" using m(3) z by simp
  moreover have "scast ?w \<noteq> (0 :: i64)" using m(1) b by auto
  moreover have "ucast (of_nat (63 - m) :: i64) = (of_nat (63 - m) :: i32)"
    by (rule unsigned_word_eqI [where ?'a = nat]) (simp add: unsigned_ucast_eq unsigned_of_nat take_bit_nat_eq_self)
  ultimately show ?thesis
    using clz_fields [OF assms(1,2) refl, where sz = kWord] assms
    by (simp add: DecodeMiscDP1Source_def Let_def get_wregister_def R31_def)
qed

section \<open>Extraction of bit fields\<close>

lemma UBFM_fields:
  assumes r: "rd < 31" "rn < 31" "r \<le> t" "t < 64" and i: "i = hd (EmitBitfieldOp UBFM rd rn (of_nat r) (of_nat t) kDoubleWord)"
  shows "InstructionDecode_dispatch h i s = DecodeBitfield i s" "SFField i = 1" "Bits i 29 2 = 2" "RdField i = rd" "RnField i = rn"
    "unat (ImmRField i) = r" "unat (ImmSField i) = t" "RdMode i = R31IsZR"
proof -
  have r': "rd < 34" "rn < 34" "ConcreteRegister rd = rd" "ConcreteRegister rn = rn" "r < 64"
    using r by (simp_all add: ConcreteRegister_def R31_def ZR_def CSP_def)
  have sc: "scast (ucast (of_nat k :: i32) :: u8) = (of_nat k :: i32)" if "k < 64" for k
  proof (rule bit_word_eqI)
    fix n assume "n < LENGTH(32)"
    then show "bit (scast (ucast (of_nat k :: i32) :: u8) :: i32) n \<longleftrightarrow> bit (of_nat k :: i32) n"
      using fits_bit [OF fits_of_nat6(1) [OF that], of n] fits_bit [OF fits_of_nat6(1) [OF that], of 7]
      by (cases "n < 7") (auto simp: bit_signed_iff bit_ucast_iff min_def)
  qed
  note fits = fits_creg [OF r'(1), unfolded r'(3)] fits_creg [OF r'(2), unfolded r'(4)] fits_of_nat6(1) [OF r'(5)] fits_of_nat6(1) [OF r(4)]
  note u = unat_creg [OF r'(1), unfolded r'(3)] unat_creg [OF r'(2), unfolded r'(4)] fits_of_nat6(2) [OF r'(5)] fits_of_nat6(2) [OF r(4)]
  have e: "i = BitfieldOp_bits UBFM OR Bitfield64 OR (push_bit 10 (of_nat t) OR push_bit 16 (of_nat r)) OR of_nat rd OR push_bit 5 (of_nat rn)"
    unfolding i EmitBitfieldOp_def Rd_def Rn_def r' Operand_bitfield_def using sc [OF r(4)] sc [OF r'(5)] by simp
  have c: "IsDPImmediateOp i" "\<not> IsMoveWideOp i" "\<not> IsAddSubImmOp i" "IsBitfieldOp i" "\<not> IsAddSubShiftExtOp i" "\<not> IsLogicalImmOp i"
    using fits unfolding e by (simp add: codec_simps)+
  show "SFField i = 1" "Bits i 29 2 = 2" "RdField i = rd" "RnField i = rn" "unat (ImmRField i) = r" "unat (ImmSField i) = t"
    using fits u unfolding e by (simp add: codec_simps)+
  show "RdMode i = R31IsZR" unfolding RdMode_def using c by simp
  show "InstructionDecode_dispatch h i s = DecodeBitfield i s"
    unfolding InstructionDecode_dispatch_def DecodeDPImmediate_def using c by simp
qed

text \<open>C24. \<open>ubfx\<close> on 64-bit registers reads only the lower half of its source in the simulator: for every
  bit field the result is the field of the source with its upper 32 bits cleared. The mask of a full
  word is \<open>0xffffffff\<close> on the targets the simulator is built for.\<close>

theorem ubfx_ignores_upper_half:
  assumes "rd < 31" "rn < 31" "r + width \<le> 64" "0 < width"
  shows "InstructionDecode_dispatch h (hd (ubfx rd rn (of_nat r) (of_nat width) kDoubleWord)) s =
    Inr (write_reg rd (take_bit width (drop_bit r (take_bit 32 (registers s rn)))) s)"
proof -
  define t where "t = r + width - 1"
  let ?i = "hd (EmitBitfieldOp UBFM rd rn (of_nat r) (of_nat t) kDoubleWord)"
  let ?v = "registers s rn"
  have t: "r \<le> t" "t < 64" using assms by (simp_all add: t_def)
  note f = UBFM_fields [OF assms(1,2) t refl]
  have e: "hd (ubfx rd rn (of_nat r) (of_nat width) kDoubleWord) = ?i"
    using assms(4) by (simp add: ubfx_def t_def)
  have rn: "get_register s rn m = ?v" for m using assms(2) by (rule get_register_low)
  have m: "bit (NBitMask TARGET_ARCH_ARM64 k) n \<longleftrightarrow> n < (if k = 64 then 32 else k)" if "k \<le> 64" "n < 64" for k n
  proof -
    have "NBitMask TARGET_ARCH_ARM64 k = mask (if k = 64 then 32 else k)"
      by (simp add: NBitMask_def mask_eq_exp_minus_1)
    then show ?thesis using that by (simp only: bit_mask_iff) auto
  qed
  have "signed_drop_bit r (?v AND NBitMask TARGET_ARCH_ARM64 64) AND drop_bit r (NBitMask TARGET_ARCH_ARM64 (t + 1))
      = take_bit width (drop_bit r (take_bit 32 ?v))"
  proof (rule bit_word_eqI)
    fix n assume "n < LENGTH(64)"
    have "bit (?v AND NBitMask TARGET_ARCH_ARM64 64) k \<longleftrightarrow> k < 32 \<and> bit ?v k" if "k < 64" for k
      using that by (simp add: bit_and_iff m)  auto
    then have "bit (signed_drop_bit r (?v AND NBitMask TARGET_ARCH_ARM64 64)) n \<longleftrightarrow> r + n < 32 \<and> bit ?v (r + n)"
      using \<open>n < LENGTH(64)\<close> t by (auto simp: bit_signed_drop_bit_iff)
    moreover have "bit (drop_bit r (NBitMask TARGET_ARCH_ARM64 (t + 1))) n \<longleftrightarrow> r + n < (if t = 63 then 32 else t + 1)" if "r + n < 64"
      using t that by (simp add: bit_drop_bit_eq m)
    ultimately show "bit (signed_drop_bit r (?v AND NBitMask TARGET_ARCH_ARM64 64) AND drop_bit r (NBitMask TARGET_ARCH_ARM64 (t + 1))) n
        \<longleftrightarrow> bit (take_bit width (drop_bit r (take_bit 32 ?v))) n"
      using assms(4) by (cases "r + n < 64") (auto simp: bit_and_iff bit_take_bit_iff bit_drop_bit_eq t_def)
  qed
  then show ?thesis
    unfolding e f(1) DecodeBitfield_def Let_def f(2-8) rn using t assms(1) by (simp add: set_register_low)
qed

section \<open>Multiplication\<close>

lemma DP3_size:
  assumes "op = MADD \<or> op = SMULH \<or> op = UMULH"
  shows "MiscDP3SourceOp_bits op OR size_bit sz = MiscDP3SourceOp_bits op"
  using assms by (elim disjE; simp add: size_bit_def op_consts)

lemma DP3_class:
  fixes a b c :: i32
  assumes o: "op = MADD \<or> op = SMULH \<or> op = UMULH" and fits: "fits 5 a" "fits 5 b" "fits 5 c"
    and e: "i = MiscDP3SourceOp_bits op OR a OR push_bit 5 b OR push_bit 16 c OR push_bit 10 31"
  shows "\<not> IsDPImmediateOp i" "\<not> IsCompareBranchOp i" "\<not> IsLoadStoreOp i" "IsDPRegisterOp i"
      "\<not> IsAddSubShiftExtOp i" "\<not> IsAddSubWithCarryOp i" "\<not> IsLogicalShiftOp i" "\<not> IsMiscDP1SourceOp i" "\<not> IsMiscDP2SourceOp i" "IsMiscDP3SourceOp i"
  using o fits unfolding e by (elim disjE; simp add: codec_simps)+

lemma DP3_codes:
  fixes a b c :: i32
  assumes o: "op = MADD \<or> op = SMULH \<or> op = UMULH" and fits: "fits 5 a" "fits 5 b" "fits 5 c"
    and e: "i = MiscDP3SourceOp_bits op OR a OR push_bit 5 b OR push_bit 16 c OR push_bit 10 31"
  shows "SFField i = 1" "RdField i = unat a" "RnField i = unat b" "RmField i = unat c" "RaField i = 31"
    "Bit i 15 = 0" "Bits i 29 2 = 0" "Bits i 29 3 = 4" "Bits i 21 3 = (if op = MADD then 0 else if op = SMULH then 2 else 6)"
  using o fits unfolding e by (elim disjE; simp add: codec_simps bit_push_bit_iff)+

lemma uint_high: "uint (drop_bit 64 w) = uint w div 2 ^ 64" for w :: "128 word"
  by (simp add: drop_bit_eq_div uint_div_distrib)

lemma high_bounds:
  fixes p :: int
  shows "0 \<le> p \<Longrightarrow> p < 2 ^ 64 * 2 ^ 64 \<Longrightarrow> 0 \<le> p div 2 ^ 64 \<and> p div 2 ^ 64 < 2 ^ 64"
    "\<bar>p\<bar> \<le> 2 ^ 126 \<Longrightarrow> - (2 ^ 63) \<le> p div 2 ^ 64 \<and> p div 2 ^ 64 < 2 ^ 63"
  by (simp_all, linarith+)

lemma low_product: "(ucast (ucast x * ucast y :: i32) :: i64) = take_bit 32 (x * y)" for x y :: i64
proof (rule unsigned_word_eqI [where ?'a = int])
  have "take_bit 32 (take_bit 32 (uint x) * take_bit 32 (uint y)) = take_bit 32 (uint x * uint y)" by (rule take_bit_mult)
  then show "uint (ucast (ucast x * ucast y :: i32) :: i64) = uint (take_bit 32 (x * y))"
    unfolding unsigned_take_bit_eq by (simp add: unsigned_ucast_eq uint_word_ariths take_bit_eq_mod mod_mod_cancel)
qed

lemma product_bounds:
  fixes a b :: i64
  shows "0 \<le> uint a * uint b" "uint a * uint b < 2 ^ 64 * 2 ^ 64" "\<bar>sint a * sint b\<bar> \<le> 2 ^ 126"
proof -
  show "uint a * uint b < 2 ^ 64 * 2 ^ 64" using u64_range [of a] u64_range [of b] by (intro mult_strict_mono) simp_all
  have "\<bar>sint a\<bar> * \<bar>sint b\<bar> \<le> 2 ^ 63 * 2 ^ 63" using sint_range64 [of a] sint_range64 [of b] by (intro mult_mono) auto
  then show "\<bar>sint a * sint b\<bar> \<le> 2 ^ 126" by (simp add: abs_mult)
qed simp

text \<open>The multiplications of two registers: the low word, and the high word of the signed and the unsigned product.\<close>

definition dp3_product :: "MiscDP3SourceOp \<Rightarrow> i64 \<Rightarrow> i64 \<Rightarrow> i64" where
  "dp3_product op a b = (if op = MADD then a * b else if op = SMULH then word_of_int (sint a * sint b div 2 ^ 64) else word_of_int (uint a * uint b div 2 ^ 64))"

lemma high_words:
  fixes a b :: i64
  shows "ucast (signed_drop_bit 64 (scast a * scast b :: 128 word)) = (word_of_int (sint a * sint b div 2 ^ 64) :: i64)"
    "ucast (drop_bit 64 (ucast a * ucast b :: 128 word)) = (word_of_int (uint a * uint b div 2 ^ 64) :: i64)"
proof -
  have u: "uint (ucast a * ucast b :: 128 word) = uint a * uint b"
  proof -
    have "uint a * uint b < 2 ^ 128" using product_bounds(2) [of a b] by simp
    moreover have "uint (ucast x :: 128 word) = uint x" for x :: i64
      using u64_range [of x] by (simp add: unsigned_ucast_eq take_bit_int_eq_self)
    ultimately show ?thesis by (simp add: uint_word_ariths)
  qed
  show "ucast (drop_bit 64 (ucast a * ucast b :: 128 word)) = (word_of_int (uint a * uint b div 2 ^ 64) :: i64)"
  proof -
    have "ucast x = (word_of_int (uint x) :: i64)" for x :: "128 word" by transfer simp
    then show ?thesis by (simp only: uint_high u)
  qed
  have "sint (scast x :: 128 word) = sint x" for x :: i64
    using sint_range64 [of x] by (simp add: signed_scast_eq signed_take_bit_int_eq_self)
  then have s: "sint (scast a * scast b :: 128 word) = sint a * sint b"
    using product_bounds(3) [of a b] by (simp add: sint_word_ariths signed_take_bit_int_eq_self abs_le_iff)
  have w: "ucast x = (word_of_int (sint x) :: i64)" for x :: "128 word"
    by transfer (simp add: take_bit_signed_take_bit)
  show "ucast (signed_drop_bit 64 (scast a * scast b :: 128 word)) = (word_of_int (sint a * sint b div 2 ^ 64) :: i64)"
    unfolding w sint_signed_drop_bit_eq s by (simp add: drop_bit_eq_div)
qed

lemma straight_product:
  assumes r: "rd < 31" "rn < 31" "rm < 31" and o: "op = MADD \<or> op = SMULH \<or> op = UMULH"
  shows "straight h (EmitMiscDP3Source op rd rn rm R31 sz) (\<lambda>s. write_reg rd (dp3_product op (registers s rn) (registers s rm)) s)"
proof -
  let ?i = "hd (EmitMiscDP3Source op rd rn rm R31 sz)"
  have r': "rd < 34" "rn < 34" "rm < 34" "ConcreteRegister rd = rd" "ConcreteRegister rn = rn" "ConcreteRegister rm = rm" "ConcreteRegister R31 = 31"
    using r by (simp_all add: ConcreteRegister_def R31_def ZR_def CSP_def)
  note fits = fits_creg [OF r'(1), unfolded r'(4)] fits_creg [OF r'(2), unfolded r'(5)] fits_creg [OF r'(3), unfolded r'(6)]
  note u = unat_creg [OF r'(1), unfolded r'(4)] unat_creg [OF r'(2), unfolded r'(5)] unat_creg [OF r'(3), unfolded r'(6)]
  have e: "?i = MiscDP3SourceOp_bits op OR of_nat rd OR push_bit 5 (of_nat rn) OR push_bit 16 (of_nat rm) OR push_bit 10 31"
    unfolding EmitMiscDP3Source_def Rd_def Rn_def Rm_def Ra_def r' using DP3_size [OF o] by (simp add: or.assoc [symmetric])
  note c = DP3_class [OF o fits e] and f = DP3_codes [OF o fits e, unfolded u]
  have "InstructionDecode_dispatch h ?i s = DecodeMiscDP3Source ?i s" for s
    unfolding InstructionDecode_dispatch_def DecodeDPRegister_def using c by simp
  also have "\<dots> s = Inr (write_reg rd (dp3_product op (registers s rn) (registers s rm)) s)" for s
    unfolding DecodeMiscDP3Source_def Let_def f using o r
    by (elim disjE) (simp_all add: set_register_low get_register_low dp3_product_def high_words get_register_def R31_def)
  finally have "effect h ?i (\<lambda>s. write_reg rd (dp3_product op (registers s rn) (registers s rm)) s)"
    by (simp add: effect_def local_update_def write_reg_def upd_sys_def)
  then show ?thesis using straight_single by (simp add: EmitMiscDP3Source_def)
qed

lemma mul_code: "mul rd rn rm = EmitMiscDP3Source MADD rd rn rm R31 kDoubleWord" "mulw rd rn rm = EmitMiscDP3Source MADD rd rn rm R31 kWord"
  by (simp_all add: mul_def mulw_def madd_def EmitMiscDP3Source_def Ra_def ConcreteRegister_def R31_def ZR_def CSP_def)

lemma product_value:
  "uint (dp3_product UMULH a b) * 2 ^ 64 + uint (dp3_product MADD a b) = uint a * uint b"
  "sint (dp3_product SMULH a b) * 2 ^ 64 + uint (dp3_product MADD a b) = sint a * sint b"
proof -
  have lo: "uint (a * b) = (uint a * uint b) mod 2 ^ 64" "uint (a * b) = (sint a * sint b) mod 2 ^ 64"
  proof -
    show "uint (a * b) = (uint a * uint b) mod 2 ^ 64" by (simp add: uint_word_ariths)
    have "a * b = word_of_int (sint a * sint b)" by (simp add: wi_hom_syms)
    then have "uint (a * b) = uint (word_of_int (sint a * sint b) :: i64)" by (rule arg_cong)
    then show "uint (a * b) = (sint a * sint b) mod 2 ^ 64" by (simp only: uint_word_of_int) simp
  qed
  have "uint (dp3_product UMULH a b) = uint a * uint b div 2 ^ 64" using high_bounds(1) [OF product_bounds(1,2), of a b] by (simp add: dp3_product_def uint_word_of_int)
  then show "uint (dp3_product UMULH a b) * 2 ^ 64 + uint (dp3_product MADD a b) = uint a * uint b" using lo(1) by (simp add: dp3_product_def)
  have "sint (dp3_product SMULH a b) = sint a * sint b div 2 ^ 64" using high_bounds(2) [OF product_bounds(3), of a b] by (simp add: dp3_product_def sint_of_int64)
  then show "sint (dp3_product SMULH a b) * 2 ^ 64 + uint (dp3_product MADD a b) = sint a * sint b" using lo(2) by (simp add: dp3_product_def)
qed

text \<open>C25. Multiplication to two words. \<open>mul\<close> followed by \<open>umulh\<close> or \<open>smulh\<close>, run in the simulator, leaves in the two destinations
  the low and the high word of the 128-bit product of the sources, read as unsigned or as signed numbers. No other register and no
  flag changes.\<close>

theorem mul_mulh_128:
  assumes "lo < 31" "hi < 31" "rn < 31" "rm < 31" "lo \<noteq> hi" "lo \<noteq> rn" "lo \<noteq> rm" "stop_sim_at h = - 1"
    "code_at (mem s) (pc s) (mul lo rn rm @ (if sgnd then smulh hi rn rm kDoubleWord else umulh hi rn rm kDoubleWord))"
  shows "\<exists>x y. (sim_step h ^^ 2) s (advance 2 (write_reg hi y (write_reg lo x s))) \<and>
    (if sgnd then sint y * 2 ^ 64 + uint x = sint (registers s rn) * sint (registers s rm)
     else uint y * 2 ^ 64 + uint x = uint (registers s rn) * uint (registers s rm))"
proof -
  define op where "op = (if sgnd then SMULH else UMULH)"
  have op: "op = MADD \<or> op = SMULH \<or> op = UMULH" by (simp add: op_def)
  have c: "(if sgnd then smulh hi rn rm kDoubleWord else umulh hi rn rm kDoubleWord) = EmitMiscDP3Source op hi rn rm R31 kDoubleWord"
    by (simp add: op_def smulh_def umulh_def)
  have l: "length (EmitMiscDP3Source a b c d e sz) = 1" for a b c d e sz by (simp add: EmitMiscDP3Source_def)
  let ?x = "dp3_product MADD (registers s rn) (registers s rm)" and ?y = "dp3_product op (registers s rn) (registers s rm)"
  have k: "registers (write_reg lo ?x s) rn = registers s rn" "registers (write_reg lo ?x s) rm = registers s rm"
    using assms(6,7) by (simp_all add: write_reg_def)
  have two: "length (EmitMiscDP3Source MADD lo rn rm R31 kDoubleWord @ EmitMiscDP3Source op hi rn rm R31 kDoubleWord) = 2" by (simp add: l)
  have "(sim_step h ^^ 2) s (advance 2 (write_reg hi ?y (write_reg lo ?x s)))"
    using straight_steps [OF straight_append [OF straight_product [OF assms(1,3,4), of MADD h kDoubleWord] straight_product [OF assms(2,3,4) op, of h kDoubleWord]],
      OF _ _ assms(8), of s] assms(9) unfolding c mul_code two by (simp add: k)
  then show ?thesis using product_value unfolding op_def by (intro exI [of _ ?x] exI [of _ ?y]) (auto simp: op_def)
qed

text \<open>C26. \<open>mulw\<close> multiplies 64 bits: run in the simulator, its code leaves the 64-bit product of the whole source registers. The
  result is the 32-bit product of the lower halves, as the instruction for words gives it, exactly when the upper half of the
  64-bit product is zero.\<close>

theorem mulw_multiplies_64_bits:
  assumes "rd < 31" "rn < 31" "rm < 31" "stop_sim_at h = - 1" "code_at (mem s) (pc s) (mulw rd rn rm)"
  defines "p \<equiv> registers s rn * registers s rm"
  shows "sim_step h s (advance 1 (write_reg rd p s)) \<and>
    (p = ucast (ucast (registers s rn) * ucast (registers s rm) :: i32) \<longleftrightarrow> drop_bit 32 p = 0)"
proof -
  have one: "length (EmitMiscDP3Source MADD rd rn rm R31 kWord) = 1" by (simp add: EmitMiscDP3Source_def)
  have "sim_step h s (advance 1 (write_reg rd p s))"
    using straight_steps [OF straight_product [OF assms(1-3), of MADD h kWord], of s] assms(4,5) unfolding mul_code one
    by (simp add: dp3_product_def p_def relcompp_apply)
  moreover have "p = take_bit 32 p \<longleftrightarrow> drop_bit 32 p = 0"
    using take_bit_eq_self_iff_drop_bit_eq_0 [of 32 p] by auto
  ultimately show ?thesis by (simp add: low_product p_def)
qed

section \<open>Examples\<close>

definition example_registers :: "i32 list \<Rightarrow> sim" where
  "example_registers code = write_reg 3 0x7fffffffffffffff (write_reg 2 5 (write_reg 1 (- 3) (example_state code)))"

theorem SmiTag_SmiUntag_witness:
  "(sim_step example_host ^^ 2) (example_registers (SmiTag 2 1 @ SmiUntag 3 2))
     (advance 2 (write_reg 3 (- 3) (write_reg 2 (2 * (- 3)) (example_registers (SmiTag 2 1 @ SmiUntag 3 2))))) \<and>
   sint (2 * (- 3) :: i64) = 2 * sint (- 3 :: i64) \<and> \<not> bit (2 * (- 3) :: i64) 0"
proof -
  let ?s = "example_registers (SmiTag 2 1 @ SmiUntag 3 2)"
  have r: "registers ?s 1 = - 3" by (simp add: example_registers_def write_reg_def)
  have c: "code_at (mem ?s) (pc ?s) (SmiTag 2 1 @ SmiUntag 3 2)" by code_simp
  show ?thesis using SmiTag_SmiUntag [OF _ _ _ _ _ c, of example_host, unfolded r] stop_sim_at_example_host by simp
qed

theorem adds_adcs_128_witness:
  "\<exists>t. (sim_step example_host ^^ 2) (example_registers (adds 4 1 (Operand_reg 2) @ adcs 5 2 3)) (advance 2 t) \<and>
    uint (registers t 5) * 2 ^ 64 + uint (registers t 4) = 0x80000000000000050000000000000002 \<and>
    \<not> c_flag t \<and> v_flag t"
proof -
  let ?s = "example_registers (adds 4 1 (Operand_reg 2) @ adcs 5 2 3)"
  have r: "registers ?s 1 = - 3" "registers ?s 2 = 5" "registers ?s 3 = 0x7fffffffffffffff"
    by (simp_all add: example_registers_def write_reg_def)
  have c: "code_at (mem ?s) (pc ?s) (adds 4 1 (Operand_reg 2) @ adcs 5 2 3)" by code_simp
  show ?thesis using adds_adcs_128 [OF _ _ _ _ _ _ _ _ _ c, of example_host, unfolded r] stop_sim_at_example_host by force
qed

theorem clz_counts_leading_zeros_witness:
  "InstructionDecode_dispatch example_host (hd (clz 4 2)) (example_registers []) =
     Inr (write_reg 4 61 (example_registers []))"
proof -
  have "leading_zeros (registers (example_registers []) 2) = 61"
    by code_simp
  then show ?thesis using clz_counts_leading_zeros [of 4 2 example_host "example_registers []"] by simp
qed

theorem clz_word_form_counts_64_bits_witness:
  "InstructionDecode_dispatch example_host (hd (EmitMiscDP1Source CLZ 4 2 kWord)) (example_registers []) =
     Inr (set_wregister 4 (of_nat (32 + leading_zeros (5 :: i32))) R31IsZR (example_registers []))"
proof -
  have "ucast (registers (example_registers []) 2) = (5 :: i32)" by code_simp
  then show ?thesis using clz_word_form_counts_64_bits [of 4 2 "example_registers []" example_host] by (simp add: word_sless_alt)
qed

theorem ubfx_ignores_upper_half_witness:
  "InstructionDecode_dispatch example_host (hd (ubfx 4 3 28 8 kDoubleWord)) (example_registers []) =
     Inr (write_reg 4 0xf (example_registers []))"
proof -
  have "take_bit 8 (drop_bit 28 (take_bit 32 (registers (example_registers []) 3))) = 0xf" by code_simp
  then show ?thesis using ubfx_ignores_upper_half [of 4 3 28 8 example_host "example_registers []"] by simp
qed

theorem mul_mulh_128_witness:
  "\<exists>x y. (sim_step example_host ^^ 2) (example_registers (mul 4 1 2 @ smulh 5 1 2 kDoubleWord))
       (advance 2 (write_reg 5 y (write_reg 4 x (example_registers (mul 4 1 2 @ smulh 5 1 2 kDoubleWord))))) \<and>
     sint y * 2 ^ 64 + uint x = - 15"
proof -
  let ?s = "example_registers (mul 4 1 2 @ smulh 5 1 2 kDoubleWord)"
  have r: "registers ?s 1 = - 3" "registers ?s 2 = 5" by (simp_all add: example_registers_def write_reg_def)
  have c: "code_at (mem ?s) (pc ?s) (mul 4 1 2 @ (if True then smulh 5 1 2 kDoubleWord else umulh 5 1 2 kDoubleWord))" by code_simp
  show ?thesis using mul_mulh_128 [OF _ _ _ _ _ _ _ _ c, of example_host, unfolded if_True r] stop_sim_at_example_host by simp
qed

theorem mulw_multiplies_64_bits_witness:
  "sim_step example_host (example_registers (mulw 4 1 2)) (advance 1 (write_reg 4 (- 15) (example_registers (mulw 4 1 2)))) \<and>
   (- 15 :: i64) \<noteq> ucast (- 15 :: i32)"
proof -
  let ?s = "example_registers (mulw 4 1 2)"
  have r: "registers ?s 1 = - 3" "registers ?s 2 = 5" by (simp_all add: example_registers_def write_reg_def)
  have c: "code_at (mem ?s) (pc ?s) (mulw 4 1 2)" by code_simp
  have d: "drop_bit 32 (- 15 :: i64) \<noteq> 0" by code_simp
  show ?thesis using mulw_multiplies_64_bits [OF _ _ _ _ c, of example_host, unfolded r] stop_sim_at_example_host d by simp
qed

end
