(* ===== verification/Arm64_Memory.thy ===== *)
theory Arm64_Memory
  imports Arm64_Macros
begin

text \<open>
  Loads and stores of general registers, from the assembler to the simulator's memory. The first part
  decodes what \<open>EmitLoadStoreReg\<close> emits for an immediate address and gives the effect of one such
  instruction, its faults included; the second runs \<open>LoadFromOffset\<close> and \<open>StoreToOffset\<close> for encodable and other
  offsets; the third runs \<open>Push\<close> and \<open>Pop\<close>; the last is about the exclusive monitor.
\<close>

section \<open>Addresses\<close>

definition general_size :: "OperandSize \<Rightarrow> bool" where
  "general_size sz \<longleftrightarrow> sz \<in> {kByte, kUnsignedByte, kHalfword, kUnsignedHalfword, kWord, kUnsignedWord, kDoubleWord}"

lemma SImm9:
  assumes "IsInt 9 (offset :: i32)" "Bits i 12 9 = offset AND 0x1ff"
  shows "SImm9Field i = scast offset"
proof -
  have "- 256 \<le> sint offset" "sint offset < 256"
    using assms(1) by (simp_all add: IsInt_def Let_def word_sle_eq word_sless_alt)
  then have s: "signed_take_bit 8 (sint offset) = sint offset" by (simp add: signed_take_bit_int_eq_self_iff)
  have hi: "bit offset n \<longleftrightarrow> bit offset 8" if "8 \<le> n" "n < 32" for n
  proof -
    have "bit (sint offset) n \<longleftrightarrow> bit (sint offset) 8"
      using that arg_cong [OF s, of "\<lambda>x. bit x n"] by (simp add: bit_signed_take_bit_iff min_def)
    then show ?thesis using that by (auto simp: bit_sint_iff min_def le_less)
  qed
  have f: "offset AND 0x1ff = take_bit 9 offset" by (simp add: take_bit_eq_mask mask_eq_exp_minus_1)
  have "signed_drop_bit 23 (push_bit 23 (take_bit 9 offset)) = offset"
  proof (rule bit_word_eqI)
    fix n assume "n < LENGTH(32)"
    then show "bit (signed_drop_bit 23 (push_bit 23 (take_bit 9 offset))) n \<longleftrightarrow> bit offset n"
      using hi [of n] by (cases "n < 9") (simp_all add: bit_signed_drop_bit_iff bit_push_bit_iff bit_take_bit_iff)
  qed
  then show ?thesis by (simp add: SImm9Field_def Imm9Field_def assms(2) f)
qed

lemma field_above1: "j < k \<Longrightarrow> drop_bit j (push_bit k (x :: i32)) mod 2 = 0"
proof -
  assume "j < k"
  then have "\<not> bit (drop_bit j (push_bit k x)) 0" by (simp add: bit_drop_bit_eq bit_push_bit_iff del: bit_0)
  then show ?thesis by (simp only: bit_0 even_iff_mod_2_eq_zero not_not)
qed

lemma access_common:
  assumes r: "rt < 31" "rn < 31" and z: "z < 4" and y: "fits 12 y" "fits 2 opc" "fits 1 sc"
    and i: "i = LoadStoreRegFixed OR push_bit 22 opc OR push_bit 30 (of_nat z) OR of_nat rt
      OR (push_bit 24 sc OR push_bit 10 y OR push_bit 5 (of_nat rn))"
  shows "InstructionDecode_dispatch h i s = DecodeLoadStoreReg i s" "LoadStoreReg_size i = z" "RtField i = rt" "RnField i = rn"
    "Bit i 26 = 0" "Bits i 22 2 = opc" "Bit i 23 = of_bool (bit opc 1)" "Bit i 22 = of_bool (bit opc 0)"
    "Bit i 24 = of_bool (bit sc 0)" "Imm12Field i = y"
proof -
  have r': "rt < 34" "rn < 34" "ConcreteRegister rt = rt" "ConcreteRegister rn = rn"
    using r by (simp_all add: ConcreteRegister_def R31_def ZR_def CSP_def)
  have fz: "fits 2 (of_nat z)" "unat (of_nat z :: i32) = z" using z fits_of_nat [of z 2] by (simp_all add: unat_of_nat take_bit_nat_eq_self)
  note f = fits_creg [OF r'(1), unfolded r'(3)] fits_creg [OF r'(2), unfolded r'(4)] fz(1) y
  note u = unat_creg [OF r'(1), unfolded r'(3)] unat_creg [OF r'(2), unfolded r'(4)] fz(2)
  have c: "\<not> IsDPImmediateOp i" "\<not> IsCompareBranchOp i" "IsLoadStoreOp i" "IsLoadStoreRegOp i"
    using f unfolding i by (simp_all add: codec_simps bit_push_bit_iff field_above1)
  show "InstructionDecode_dispatch h i s = DecodeLoadStoreReg i s"
    unfolding InstructionDecode_dispatch_def DecodeLoadStore_def using c by simp
  show "RtField i = rt" "RnField i = rn"
    using f u unfolding i by (simp_all add: codec_simps bit_push_bit_iff)
  show b: "Bit i 26 = 0" using f unfolding i by (simp add: codec_simps bit_push_bit_iff)
  show "LoadStoreReg_size i = z" using f u unfolding LoadStoreReg_size_def b unfolding i by (simp add: codec_simps bit_push_bit_iff)
  show "Bits i 22 2 = opc" "Imm12Field i = y"
    using f unfolding i by (simp_all add: codec_simps bit_push_bit_iff)
  show "Bit i 23 = of_bool (bit opc 1)" "Bit i 22 = of_bool (bit opc 0)" "Bit i 24 = of_bool (bit sc 0)"
    using f unfolding i by (simp_all add: codec_simps bit_push_bit_iff)
qed

lemma log2_size: "general_size sz \<Longrightarrow> Log2OperandSizeBytes sz < 4"
  by (auto simp: general_size_def)

lemma address_scaled:
  assumes "Bit i 24 = 1" "Imm12Field i = y" "RnField i = rn" "rn < 31" "fits 12 y" "z < 4"
  shows "LoadStoreReg_address i z s = Inr (registers s rn + scast (push_bit z y), False, 0)"
proof -
  have "n < 31" if "bit (push_bit z y) n" for n
    using that fits_bit [OF assms(5), of "n - z"] assms(6) by (auto simp: bit_push_bit_iff)
  note small = this
  have "ucast (push_bit z y) = (scast (push_bit z y) :: i64)"
  proof (rule bit_word_eqI)
    fix n assume "n < LENGTH(64)"
    then show "bit (ucast (push_bit z y) :: i64) n \<longleftrightarrow> bit (scast (push_bit z y) :: i64) n"
      using small [of n] small [of 31] by (cases "n < 31") (auto simp: bit_ucast_iff bit_signed_iff min_def)
  qed
  then show ?thesis using assms by (simp add: LoadStoreReg_address_def Let_def get_register_low)
qed

lemma address_unscaled:
  assumes "Bit i 24 = 0" "Imm12Field i = push_bit 2 (offset AND 0x1ff) OR idx" "RnField i = rn" "rn < 31" "IsInt 9 offset" "fits 2 idx"
  shows "idx = 0 \<Longrightarrow> LoadStoreReg_address i z s = Inr (registers s rn + scast offset, False, registers s rn)"
    "idx = 1 \<Longrightarrow> LoadStoreReg_address i z s = Inr (registers s rn, True, registers s rn + scast offset)"
    "idx = 3 \<Longrightarrow> LoadStoreReg_address i z s = Inr (registers s rn + scast offset, True, registers s rn + scast offset)"
proof -
  have f: "offset AND 0x1ff = take_bit 9 offset" by (simp add: take_bit_eq_mask mask_eq_exp_minus_1)
  have d: "bit (drop_bit 10 i) k \<longleftrightarrow> bit (push_bit 2 (take_bit 9 offset) OR idx) k" if "k < 12" for k
    using arg_cong [OF assms(2) [unfolded f], of "\<lambda>x. bit x k"] that by (simp add: Imm12Field_def Bits_eq bit_take_bit_iff)
  have "Bits i 12 9 = offset AND 0x1ff"
  proof (rule bit_word_eqI)
    fix n assume "n < LENGTH(32)"
    then show "bit (Bits i 12 9) n \<longleftrightarrow> bit (offset AND 0x1ff) n"
      using d [of "n + 2"] fits_bit [OF assms(6), of "n + 2"]
      by (cases "n < 9") (auto simp: f Bits_eq bit_take_bit_iff bit_drop_bit_eq bit_or_iff bit_push_bit_iff add.commute)
  qed
  then have o: "SImm9Field i = scast offset" by (rule SImm9 [OF assms(5)])
  have b: "Bits i 10 2 = idx"
  proof (rule bit_word_eqI)
    fix n assume "n < LENGTH(32)"
    then show "bit (Bits i 10 2) n \<longleftrightarrow> bit idx n"
      using d [of n] fits_bit [OF assms(6), of n]
      by (cases "n < 2") (auto simp: Bits_eq bit_take_bit_iff bit_or_iff bit_push_bit_iff simp del: bit_0)
  qed
  have b': "Bit i 10 = of_bool (bit idx 0)" "Bit i 11 = of_bool (bit idx 1)"
    unfolding b [symmetric] by (simp_all add: Bit_eq Bits_eq bit_take_bit_iff bit_drop_bit_eq del: bit_0)
  note rn = get_register_low [OF assms(4)]
  show "idx = 0 \<Longrightarrow> LoadStoreReg_address i z s = Inr (registers s rn + scast offset, False, registers s rn)"
    "idx = 1 \<Longrightarrow> LoadStoreReg_address i z s = Inr (registers s rn, True, registers s rn + scast offset)"
    "idx = 3 \<Longrightarrow> LoadStoreReg_address i z s = Inr (registers s rn + scast offset, True, registers s rn + scast offset)"
    using assms b b' o rn by (simp_all add: LoadStoreReg_address_def Let_def)
qed

lemma IsUint_scaled:
  assumes "IsUint (12 + z) (offset :: i32)" "z < 4"
  shows "fits 12 (signed_drop_bit z offset)"
proof -
  have p: "sint (push_bit (12 + z) 1 :: i32) = 2 ^ (12 + z)"
  proof -
    consider "z = 0" | "z = 1" | "z = 2" | "z = 3" using assms(2) by linarith
    then show ?thesis by cases simp_all
  qed
  have o: "0 \<le> sint offset" "sint offset < 2 ^ (12 + z)"
    using assms(1) p by (simp_all add: IsUint_def Let_def word_sle_eq word_sless_alt)
  then have t: "take_bit (12 + z) (sint offset) = sint offset" by (simp add: take_bit_int_eq_self)
  have "n < 12 + z" if "bit offset n" for n
  proof -
    have n: "n < 32" using bit_imp_le_length [OF that] by simp
    then have "bit (sint offset) n" using that by (auto simp: bit_sint_iff min_def le_less)
    then show ?thesis using arg_cong [OF t, of "\<lambda>x. bit x n"] by (simp add: bit_take_bit_iff)
  qed
  note b = this
  show ?thesis unfolding fits_def
  proof (rule bit_word_eqI)
    fix n assume "n < LENGTH(32)"
    then show "bit (take_bit 12 (signed_drop_bit z offset)) n \<longleftrightarrow> bit (signed_drop_bit z offset) n"
      using b [of "z + n"] b [of 31] assms(2) by (auto simp: bit_take_bit_iff bit_signed_drop_bit_iff)
  qed
qed

definition op_of :: "bool \<Rightarrow> OperandSize \<Rightarrow> LoadStoreRegOp" where
  "op_of load sz = (if \<not> load then STR_op else if IsSignedOperand sz then LDRS else LDR)"

definition opc_of :: "bool \<Rightarrow> OperandSize \<Rightarrow> i32" where
  "opc_of load sz = (if \<not> load then 0 else if IsSignedOperand sz then 2 else 1)"

lemma emitted_access:
  assumes r: "rt < 31" "rn < 31" and sz: "general_size sz" and at: "at = Offset \<or> at = PreIndex \<or> at = PostIndex"
    and h: "CanHoldOffset offset at sz" and a: "Address_imm rn offset at sz = Some a"
    and i: "i = hd (EmitLoadStoreReg (op_of load sz) rt a sz)" and z_def: "z = Log2OperandSizeBytes sz"
  obtains sc y where "fits 12 y" "fits 1 sc"
    "i = LoadStoreRegFixed OR push_bit 22 (opc_of load sz) OR push_bit 30 (of_nat z) OR of_nat rt
      OR (push_bit 24 sc OR push_bit 10 y OR push_bit 5 (of_nat rn))"
    "LoadStoreReg_address i z s =
       Inr (if at = PostIndex then registers s rn else registers s rn + scast offset, at \<noteq> Offset,
            if at = Offset then (if sc = 1 then 0 else registers s rn) else registers s rn + scast offset)"
proof -
  have z: "z < 4" using log2_size [OF sz] by (simp add: z_def)
  have r': "ConcreteRegister rt = rt" "ConcreteRegister rn = rn" using r by simp_all
  have opc: "LoadStoreRegOp_bits (op_of load sz) = LoadStoreRegFixed OR push_bit 22 (opc_of load sz)" "fits 2 (opc_of load sz)"
    by (simp_all add: op_of_def opc_of_def fits_def op_consts)
  have z3: "of_nat z AND 3 = (of_nat z :: i32)"
  proof -
    have "take_bit 2 (of_nat z :: i32) = of_nat z" using fits_of_nat [of z 2] z by (simp add: fits_def)
    then show ?thesis by (simp add: take_bit_eq_mask mask_eq_exp_minus_1)
  qed
  have e: "i = LoadStoreRegFixed OR push_bit 22 (opc_of load sz) OR push_bit 30 (of_nat z) OR of_nat rt OR addr_encoding a"
    unfolding i EmitLoadStoreReg_def Rt_def r' opc z_def [symmetric] z3 by (simp add: or.assoc)
  let ?scaled = "at = Offset \<and> IsUint (12 + z) offset \<and> offset = push_bit z (signed_drop_bit z offset)"
  show thesis
  proof (cases ?scaled)
    case True
    let ?y = "signed_drop_bit z offset"
    have enc: "addr_encoding a = push_bit 24 1 OR push_bit 10 ?y OR push_bit 5 (of_nat rn)"
      using a True unfolding Address_imm_def Let_def z_def [symmetric] Rn_def r' by auto
    have y: "fits 12 ?y" by (rule IsUint_scaled) (use True z in auto)
    note f = access_common [OF r z y opc(2) _ e [unfolded enc]]
    have "fits 1 (1 :: i32)" by (simp add: fits_def)
    note f = f [OF this]
    have "LoadStoreReg_address i z s = Inr (registers s rn + scast offset, False, 0)"
      using address_scaled [OF _ f(10,4) r(2) y z, of s] f(9) True by simp
    then show thesis using that [OF y _ e [unfolded enc]] True by (simp add: fits_def)
  next
    case False
    then have o: "IsInt 9 offset" using h at unfolding CanHoldOffset_def Let_def z_def [symmetric] by auto
    define idx :: i32 where "idx = (if at = Offset then 0 else if at = PostIndex then 1 else 3)"
    let ?y = "push_bit 2 (offset AND 0x1ff) OR idx"
    have enc: "addr_encoding a = push_bit 24 0 OR push_bit 10 ?y OR push_bit 5 (of_nat rn)"
      using a False o at unfolding Address_imm_def Let_def z_def [symmetric] Rn_def r' idx_def
      by (auto simp: push_bit_or push_bit_push_bit ac_simps)
    have y: "fits 12 ?y"
    proof -
      have f: "offset AND 0x1ff = take_bit 9 offset" by (simp add: take_bit_eq_mask mask_eq_exp_minus_1)
      have "bit idx n \<Longrightarrow> n < 2" for n using fits_bit [of 2 idx n] by (simp add: idx_def fits_def)
      then show ?thesis unfolding f fits_def
        by (intro bit_word_eqI) (fastforce simp: bit_take_bit_iff bit_or_iff bit_push_bit_iff)
    qed
    have s0: "fits 1 (0 :: i32)" by (simp add: fits_def)
    note f = access_common [OF r z y opc(2) s0 e [unfolded enc]]
    have f2: "fits 2 idx" by (simp add: idx_def fits_def)
    have b: "Bit i 24 = 0" using f(9) by simp
    note ad = address_unscaled [OF b f(10,4) r(2) o f2, of z s]
    show thesis
      using that [OF y s0 e [unfolded enc]] ad at by (auto simp: idx_def)
  qed
qed

section \<open>Accesses\<close>

definition extend_loaded :: "OperandSize \<Rightarrow> i64 \<Rightarrow> i64" where
  "extend_loaded sz v = (if IsSignedOperand sz then signed_take_bit (8 * 2 ^ Log2OperandSizeBytes sz - 1) v else v)"

definition aligned :: "OperandSize \<Rightarrow> uword \<Rightarrow> bool" where
  "aligned sz a \<longleftrightarrow> take_bit (Log2OperandSizeBytes sz) a = 0"

lemma store_bytes_ucast:
  fixes w :: "'a::len word"
  assumes "8 * n \<le> LENGTH('b)" "n \<le> 8"
  shows "store_bytes n m a (ucast w :: 'b::len word) = store_bytes n m a w"
proof
  fix b
  have "n \<le> 2 ^ 64" using assms by simp
  moreover have "ucast (drop_bit (8 * k) (ucast w :: 'b word)) = (ucast (drop_bit (8 * k) w) :: u8)" if "k < n" for k
    by (rule bit_word_eqI) (use assms that in \<open>auto simp: bit_ucast_iff bit_drop_bit_eq dest: bit_imp_le_length\<close>)
  ultimately show "store_bytes n m a (ucast w :: 'b word) b = store_bytes n m a w b"
    by (simp add: store_bytes_apply)
qed

lemma load_bytes_ucast:
  assumes "8 * n \<le> LENGTH('b)" "LENGTH('b) \<le> LENGTH('a)"
  shows "ucast (load_bytes n m a :: 'b::len word) = (load_bytes n m a :: 'a::len word)"
  by (rule bit_word_eqI) (use assms in \<open>auto simp: bit_ucast_iff bit_load_bytes\<close>)

lemma load_bytes_scast:
  assumes "8 * n = LENGTH('b)" "LENGTH('b) \<le> LENGTH('a)"
  shows "scast (load_bytes n m a :: 'b::len word) = (signed_take_bit (LENGTH('b) - 1) (load_bytes n m a) :: 'a::len word)"
proof (rule bit_word_eqI)
  fix k assume "k < LENGTH('a)"
  have p: "0 < LENGTH('b)" by simp
  show "bit (scast (load_bytes n m a :: 'b word) :: 'a word) k \<longleftrightarrow> bit (signed_take_bit (LENGTH('b) - 1) (load_bytes n m a) :: 'a word) k"
    using assms \<open>k < LENGTH('a)\<close> p by (auto simp: bit_signed_iff bit_signed_take_bit_iff bit_load_bytes min_def)
qed

lemma and_masks: "(a :: u64) AND 7 = take_bit 3 a" "a AND 3 = take_bit 2 a" "a AND 1 = take_bit 1 a"
  by (simp_all add: take_bit_eq_mask mask_eq_exp_minus_1)

lemma access_store:
  assumes sz: "general_size sz" and z: "z = Log2OperandSizeBytes sz" and r: "rt < 31"
    and i: "RtField i = rt" "Bits i 22 2 = 0"
  shows "LoadStoreReg_access i z a s =
    (if aligned sz a then Inr (s\<lparr>mem := store_bytes (2 ^ z) (mem s) a (registers s rt)\<rparr>) else Inl (UnalignedAccess a))"
proof -
  have w: "get_wregister s rt R31IsZR = ucast (registers s rt)" using r by (simp add: get_wregister_def R31_def)
  have "z = 0 \<or> z = 1 \<or> z = 2 \<or> z = 3" using log2_size [OF sz] by (auto simp: z)
  then show ?thesis
  proof (elim disjE)
    assume "z = 0"
    moreover have "store_bytes 1 (mem s) a (registers s rt) = (mem s)(a := ucast (registers s rt))" by simp
    moreover have "ucast (ucast (registers s rt) :: i32) = (ucast (registers s rt) :: u8)" by (rule bit_word_eqI) (simp add: bit_ucast_iff)
    ultimately show ?thesis using i by (simp add: LoadStoreReg_access_def Let_def w aligned_def z [symmetric] WriteB_def)
  next
    assume "z = 1"
    have h16: "ucast (ucast (registers s rt) :: i32) = (ucast (registers s rt) :: u16)" by (rule bit_word_eqI) (simp add: bit_ucast_iff)
    from \<open>z = 1\<close> show ?thesis using i store_bytes_ucast [of 2, where ?'b = 16, of "mem s" a "registers s rt"]
      by (simp add: LoadStoreReg_access_def Let_def w aligned_def z [symmetric] WriteH_def and_masks h16)
  next
    assume "z = 2"
    then show ?thesis using i store_bytes_ucast [of 4, where ?'b = 32, of "mem s" a "registers s rt"]
      by (simp add: LoadStoreReg_access_def Let_def w aligned_def z [symmetric] WriteW_def and_masks)
  next
    assume "z = 3"
    then show ?thesis using i get_register_low [OF r]
      by (simp add: LoadStoreReg_access_def Let_def w aligned_def z [symmetric] WriteX_def and_masks)
  qed
qed

lemma LowHigh_zero: "LowHighTo64Bits w 0 = ucast w"
proof -
  have "ucast w AND 0xffffffff = take_bit 32 (ucast w :: i64)" by (simp add: take_bit_eq_mask mask_eq_exp_minus_1)
  also have "\<dots> = ucast w" by (rule bit_word_eqI) (auto simp: bit_take_bit_iff bit_ucast_iff dest: bit_imp_le_length)
  finally show ?thesis by (simp add: LowHighTo64Bits_def)
qed

lemma loaded_words:
  "scast (b :: u8) = (signed_take_bit 7 (ucast b) :: i64)"
  "ucast (load_bytes 2 m a :: u16) = (load_bytes 2 m a :: i64)"
  "scast (load_bytes 2 m a :: u16) = (signed_take_bit 15 (load_bytes 2 m a) :: i64)"
  "ucast (load_bytes 4 m a :: u32) = (load_bytes 4 m a :: i64)"
  "scast (load_bytes 4 m a :: u32) = (signed_take_bit 31 (load_bytes 4 m a) :: i64)"
  "ucast (ucast (load_bytes 4 m a :: i64) :: i32) = (load_bytes 4 m a :: i64)"
proof -
  show "scast (b :: u8) = (signed_take_bit 7 (ucast b) :: i64)"
    by (rule bit_word_eqI) (auto simp: bit_signed_iff bit_signed_take_bit_iff bit_ucast_iff min_def)
  show "ucast (load_bytes 2 m a :: u16) = (load_bytes 2 m a :: i64)" "ucast (load_bytes 4 m a :: u32) = (load_bytes 4 m a :: i64)"
    by (rule load_bytes_ucast, simp_all)+
  show "scast (load_bytes 2 m a :: u16) = (signed_take_bit 15 (load_bytes 2 m a) :: i64)"
    using load_bytes_scast [of 2, where ?'a = 64 and ?'b = 16] by simp
  show "scast (load_bytes 4 m a :: u32) = (signed_take_bit 31 (load_bytes 4 m a) :: i64)"
    using load_bytes_scast [of 4, where ?'a = 64 and ?'b = 32] by simp
  show "ucast (ucast (load_bytes 4 m a :: i64) :: i32) = (load_bytes 4 m a :: i64)"
    by (rule bit_word_eqI) (auto simp: bit_ucast_iff bit_load_bytes)
qed

lemma access_load:
  assumes sz: "general_size sz" and z: "z = Log2OperandSizeBytes sz" and r: "rt < 31"
    and i: "RtField i = rt" "Bits i 22 2 = opc_of True sz" "Bit i 23 = of_bool (IsSignedOperand sz)"
      "Bit i 22 = of_bool (\<not> IsSignedOperand sz)"
  shows "LoadStoreReg_access i z a s =
    (if aligned sz a then Inr (write_reg rt (extend_loaded sz (load_bytes (2 ^ z) (mem s) a)) s) else Inl (UnalignedAccess a))"
proof -
  note defs = LoadStoreReg_access_def opc_of_def aligned_def extend_loaded_def z ReadB_def ReadBU_def ReadH_def ReadHU_def
    ReadW_def ReadWU_def ReadX_def and_masks set_register_low set_wregister_def R31_def LowHigh_zero write_reg_def [symmetric]
  show ?thesis
    using i r sz by (cases sz) (simp_all add: defs general_size_def loaded_words)
qed


text \<open>The address an instruction accesses, what the access does, and what is written back.\<close>

definition accessed :: "AddressType \<Rightarrow> Register \<Rightarrow> i32 \<Rightarrow> sim \<Rightarrow> uword" where
  "accessed at rn offset s = (if at = PostIndex then registers s rn else registers s rn + scast offset)"

definition perform_access :: "bool \<Rightarrow> OperandSize \<Rightarrow> Register \<Rightarrow> uword \<Rightarrow> sim \<Rightarrow> sim" where
  "perform_access load sz rt a s =
     (if load then write_reg rt (extend_loaded sz (load_bytes (2 ^ Log2OperandSizeBytes sz) (mem s) a)) s
      else s\<lparr>mem := store_bytes (2 ^ Log2OperandSizeBytes sz) (mem s) a (registers s rt)\<rparr>)"

definition write_back :: "AddressType \<Rightarrow> Register \<Rightarrow> uword \<Rightarrow> sim \<Rightarrow> sim" where
  "write_back at rn v s = (if at = Offset then s else write_reg rn v s)"

lemma access_dispatch:
  assumes r: "rt < 31" "rn < 31" and sz: "general_size sz" and at: "at = Offset \<or> at = PreIndex \<or> at = PostIndex"
    and h: "CanHoldOffset offset at sz" and a: "Address_imm rn offset at sz = Some a"
    and i: "i = hd (EmitLoadStoreReg (op_of load sz) rt a sz)"
  shows "InstructionDecode_dispatch h i s =
    (let ad = accessed at rn offset s
     in if IsIllegalAddress ad then Inl (HandleIllegalAccess ad)
        else if \<not> aligned sz ad then Inl (UnalignedAccess ad)
        else Inr (write_back at rn (registers s rn + scast offset) (perform_access load sz rt ad s)))"
proof -
  define z where "z = Log2OperandSizeBytes sz"
  obtain sc y where f: "fits 12 y" "fits 1 sc"
    and e: "i = LoadStoreRegFixed OR push_bit 22 (opc_of load sz) OR push_bit 30 (of_nat z) OR of_nat rt
      OR (push_bit 24 sc OR push_bit 10 y OR push_bit 5 (of_nat rn))"
    and ad: "LoadStoreReg_address i z s =
       Inr (if at = PostIndex then registers s rn else registers s rn + scast offset, at \<noteq> Offset,
            if at = Offset then (if sc = 1 then 0 else registers s rn) else registers s rn + scast offset)"
    by (rule emitted_access [OF r sz at h a i z_def, of s])
  have z: "z < 4" using log2_size [OF sz] by (simp add: z_def)
  have o: "fits 2 (opc_of load sz)" by (simp add: opc_of_def fits_def)
  note c = access_common [OF r z f(1) o f(2) e]
  have acc: "LoadStoreReg_access i z ad s = (if aligned sz ad then Inr (perform_access load sz rt ad s) else Inl (UnalignedAccess ad))" for ad
  proof (cases load)
    case True
    then show ?thesis
      using access_load [OF sz z_def r(1) c(3)] c(6,7,8) by (simp add: opc_of_def perform_access_def z_def)
  next
    case False
    then show ?thesis
      using access_store [OF sz z_def r(1) c(3)] c(6) by (simp add: opc_of_def perform_access_def z_def)
  qed
  show ?thesis
    unfolding c(1) DecodeLoadStoreReg_def Let_def c(2,4,5) ad
    using at set_register_low [OF r(2)] by (auto simp: acc accessed_def write_back_def)
qed

section \<open>Steps that access memory\<close>

definition sys_free :: "(sim \<Rightarrow> sim) \<Rightarrow> bool" where
  "sys_free F \<longleftrightarrow> (\<forall>s lp p m ic. F (upd_sys lp p m ic s) = upd_sys lp p m ic (F s))"

lemma sys_free_facts:
  assumes "sys_free F"
  shows "pc (F s) = pc s" "icount (F s) = icount s" "last_pc (F s) = last_pc s" "pc_modified (F s) = pc_modified s"
    "F (upd_sys lp p m ic s) = upd_sys lp p m ic (F s)"
proof -
  show c: "F (upd_sys lp p m ic s) = upd_sys lp p m ic (F s)" for lp p m ic s using assms by (simp add: sys_free_def)
  show "pc (F s) = pc s" "icount (F s) = icount s" "last_pc (F s) = last_pc s" "pc_modified (F s) = pc_modified s"
    using arg_cong [OF c, of _ "last_pc s" "pc s" "pc_modified s" "icount s" s] by (metis upd_sys_simps)+
qed

lemma sim_step_state:
  assumes F: "sys_free F" and d: "\<And>lp m ic. InstructionDecode_dispatch h i (upd_sys lp (pc s) m ic s) = Inr (F (upd_sys lp (pc s) m ic s))"
    and c: "code_at (mem s) (pc s) (i # is)" and st: "stop_sim_at h = - 1"
  shows "sim_step h s (upd_sys (pc s) (pc s + 4) True (icount s + 1) (F s))"
proof -
  let ?s = "upd_sys (last_pc s) (pc s) False (icount s + 1) s"
  have u: "s\<lparr>icount := icount s + 1, pc_modified := False\<rparr> = ?s" by (simp add: upd_sys_def)
  have "Execute_iteration h s = bindE (InstructionDecode_dispatch h i ?s)
      (\<lambda>t. if \<not> pc_modified t then Inr (set_pc (pc s + kInstrSize) t) else Inr t)"
    unfolding Execute_iteration_def InstructionDecode_def Let_def u [symmetric] using c st by simp
  also have "\<dots> = Inr (upd_sys (pc s) (pc s + 4) True (icount s + 1) (F s))"
    unfolding d using sys_free_facts [OF F]
    by (simp add: set_pc_def kInstrSize_def) (simp add: upd_sys_def)
  finally show ?thesis using c by (intro sim_stepI) auto
qed

lemma upd_sys_commute:
  "write_reg r v (upd_sys lp p m ic s) = upd_sys lp p m ic (write_reg r v s)"
  "(upd_sys lp p m ic s)\<lparr>mem := x\<rparr> = upd_sys lp p m ic (s\<lparr>mem := x\<rparr>)"
  by (simp_all add: write_reg_def upd_sys_def)

lemma perform_access_upd_sys: "perform_access load sz rt a (upd_sys lp p m ic s) = upd_sys lp p m ic (perform_access load sz rt a s)"
  unfolding perform_access_def by (cases load) (simp_all only: upd_sys_simps upd_sys_commute if_True if_False)

lemma sys_free_access: "sys_free (\<lambda>s. write_back at rn (registers s rn + x) (perform_access load sz rt (accessed at rn offset s) s))"
proof -
  have "accessed at rn offset (upd_sys lp p m ic s) = accessed at rn offset s" for lp p m ic s by (simp add: accessed_def)
  moreover have "write_back at rn v (upd_sys lp p m ic s) = upd_sys lp p m ic (write_back at rn v s)" for v lp p m ic s
    unfolding write_back_def upd_sys_commute by (rule if_distrib [symmetric])
  ultimately show ?thesis unfolding sys_free_def by (simp only: upd_sys_simps perform_access_upd_sys simp_thms)
qed

lemma access_step:
  assumes r: "rt < 31" "rn < 31" and sz: "general_size sz" and at: "at = Offset \<or> at = PreIndex \<or> at = PostIndex"
    and h: "CanHoldOffset offset at sz" and a: "Address_imm rn offset at sz = Some a"
    and ad: "\<not> IsIllegalAddress (accessed at rn offset s)" "aligned sz (accessed at rn offset s)"
    and c: "code_at (mem s) (pc s) (EmitLoadStoreReg (op_of load sz) rt a sz)" and st: "stop_sim_at h = - 1"
  shows "sim_step h s (upd_sys (pc s) (pc s + 4) True (icount s + 1)
      (write_back at rn (registers s rn + scast offset) (perform_access load sz rt (accessed at rn offset s) s)))"
proof -
  define i where "i = hd (EmitLoadStoreReg (op_of load sz) rt a sz)"
  have l: "EmitLoadStoreReg (op_of load sz) rt a sz = [i]" unfolding i_def by (simp add: EmitLoadStoreReg_def)
  have acc: "accessed at rn offset (upd_sys lp p m ic s) = accessed at rn offset s" for lp p m ic by (simp add: accessed_def)
  have c': "code_at (mem s) (pc s) (i # [])" using c by (simp only: l)
  show ?thesis
    by (rule sim_step_state [OF sys_free_access _ c' st])
      (use ad in \<open>simp add: access_dispatch [OF r sz at h a i_def] Let_def acc\<close>)
qed

lemma access_ops:
  "addr_type a \<noteq> PCOffset \<Longrightarrow> ldr rt a sz = EmitLoadStoreReg (op_of True sz) rt a sz"
  "str rt a sz = EmitLoadStoreReg (op_of False sz) rt a sz"
  by (simp_all add: ldr_def str_def op_of_def)

lemma Address_imm_type: "Address_imm rn offset at sz = Some a \<Longrightarrow> addr_type a = at"
  by (auto simp: Address_imm_def Let_def split: if_splits AddressType.splits)

lemma Address_imm_zero:
  "Address_imm rn 0 Offset kDoubleWord = Address_imm rn 0 Offset sz" "CanHoldOffset 0 Offset sz"
proof -
  have "IsUint (12 + Log2OperandSizeBytes sz) (0 :: i32)" for sz by (cases sz) (simp_all add: IsUint_def word_sless_alt)
  note this this [of kDoubleWord]
  then show "Address_imm rn 0 Offset kDoubleWord = Address_imm rn 0 Offset sz" "CanHoldOffset 0 Offset sz"
    unfolding Address_imm_def Let_def CanHoldOffset_def by simp_all
qed

lemma Address_imm_held: "CanHoldOffset offset Offset sz \<Longrightarrow> \<exists>a. Address_imm rn offset Offset sz = Some a"
  by (auto simp: Address_imm_def Let_def CanHoldOffset_def)

lemma straight_then_access:
  assumes F: "straight h code F" and r: "rt < 31" "rn < 31" and sz: "general_size sz" and at: "at = Offset \<or> at = PreIndex \<or> at = PostIndex"
    and h: "CanHoldOffset offset at sz" and a: "Address_imm rn offset at sz = Some a"
    and ad: "\<not> IsIllegalAddress (accessed at rn offset (F s))" "aligned sz (accessed at rn offset (F s))"
    and c: "code_at (mem s) (pc s) (code @ EmitLoadStoreReg (op_of load sz) rt a sz)" and st: "stop_sim_at h = - 1"
  shows "(sim_step h ^^ Suc (length code)) s (advance (Suc (length code))
      (write_back at rn (registers (F s) rn + scast offset) (perform_access load sz rt (accessed at rn offset (F s)) (F s))))"
proof -
  let ?n = "length code"
  let ?t = "advance ?n (F s)"
  define G where "G = (\<lambda>s. write_back at rn (registers s rn + scast offset) (perform_access load sz rt (accessed at rn offset s) s))"
  have G: "sys_free G" unfolding G_def by (rule sys_free_access)
  note lF = local_updateD [OF straight_local [OF F]]
  have t: "mem ?t = mem s" "pc ?t = pc s + of_nat (4 * ?n)" "icount ?t = icount s + of_nat ?n" "accessed at rn offset ?t = accessed at rn offset (F s)"
    by (simp_all add: advance_def lF accessed_def)
  have cc: "code_at (mem s) (pc s) code" "code_at (mem ?t) (pc ?t) (EmitLoadStoreReg (op_of load sz) rt a sz)"
    using c by (simp_all add: t code_at_append)
  have "sim_step h ?t (upd_sys (pc ?t) (pc ?t + 4) True (icount ?t + 1) (G ?t))"
    unfolding G_def by (rule access_step [OF r sz at h a _ _ cc(2) st]) (use ad t in simp_all)
  moreover have "upd_sys (pc ?t) (pc ?t + 4) True (icount ?t + 1) (G ?t) = advance (Suc ?n) (G (F s))"
    unfolding t(2,3) by (simp add: advance_def sys_free_facts [OF G] lF algebra_simps)
  ultimately have "(sim_step h ^^ Suc ?n) s (advance (Suc ?n) (G (F s)))"
    using straight_steps [OF F cc(1) st] by auto
  then show ?thesis by (simp only: G_def)
qed

text \<open>The two forms of the emitted code: a single access, or the address in the scratch register first.\<close>

definition offset_macro :: "bool \<Rightarrow> Register \<Rightarrow> Register \<Rightarrow> i32 \<Rightarrow> OperandSize \<Rightarrow> i32 list option" where
  "offset_macro load rt base offset sz =
     (if load then LoadFromOffset None rt base offset sz else StoreToOffset None rt base offset sz)"

lemma offset_macro_forms:
  "offset_macro load rt base offset sz =
    (if CanHoldOffset offset Offset sz
     then map_option (\<lambda>a. EmitLoadStoreReg (op_of load sz) rt a sz) (Address_imm base offset Offset sz)
     else Option.bind (AddImmediate None TMP2 base (scast offset)) (\<lambda>c.
       map_option (\<lambda>a. c @ EmitLoadStoreReg (op_of load sz) rt a sz) (Address_imm TMP2 0 Offset sz)))"
proof -
  have "map_option (\<lambda>a. c @ (if load then ldr rt a sz else str rt a sz)) (Address_imm rn x Offset sz) =
    map_option (\<lambda>a. c @ EmitLoadStoreReg (op_of load sz) rt a sz) (Address_imm rn x Offset sz)" for c rn x
    using Address_imm_type [of rn x Offset sz] by (cases "Address_imm rn x Offset sz") (auto simp: access_ops)
  note this [of _ TMP2 0] this [of "[]" base offset, simplified]
  then show ?thesis
    by (cases load) (simp_all add: offset_macro_def LoadFromOffset_def StoreToOffset_def Address_imm_zero(1) [of _ sz])
qed

lemma offset_macro_total: "\<exists>code. offset_macro load rt base offset sz = Some code"
proof -
  have "AddImmediate None TMP2 base (scast offset) \<noteq> None"
    using LoadImmediate_total [of TMP2 "scast offset"] by (auto simp: AddImmediate_def)
  then obtain c where "AddImmediate None TMP2 base (scast offset) = Some c" by blast
  moreover obtain a where "Address_imm TMP2 0 Offset sz = Some a" using Address_imm_held [OF Address_imm_zero(2)] by blast
  ultimately show ?thesis
    using Address_imm_held [of offset sz base] by (auto simp: offset_macro_forms)
qed

lemma offset_macro_code:
  assumes r: "base < 31" "base \<noteq> TMP2" and code: "offset_macro load rt base offset sz = Some code"
  obtains c0 F rn x a where "code = c0 @ EmitLoadStoreReg (op_of load sz) rt a sz" "straight h c0 F"
      "Address_imm rn x Offset sz = Some a" "CanHoldOffset x Offset sz" "rn < 31"
      "registers (F s) rn + scast x = registers s base + scast offset" "only_registers {TMP2} s (F s)"
proof (cases "CanHoldOffset offset Offset sz")
  case True
  then obtain a where "Address_imm base offset Offset sz = Some a" "code = [] @ EmitLoadStoreReg (op_of load sz) rt a sz"
    using code by (auto simp: offset_macro_forms)
  then show ?thesis using that [OF _ straight.Nil _ True r(1)] only_registers_refl by blast
next
  case False
  then obtain c0 a where c0: "AddImmediate None TMP2 base (scast offset) = Some c0"
      "Address_imm TMP2 0 Offset sz = Some a" "code = c0 @ EmitLoadStoreReg (op_of load sz) rt a sz"
    using code by (auto simp: offset_macro_forms split: bind_splits)
  moreover have T: "TMP2 < 31" by (simp add: TMP2_def)
  moreover obtain F where "straight h c0 F" "\<forall>s. registers (F s) TMP2 = registers s base + scast offset \<and> only_registers {TMP2, TMP2} s (F s)"
    using AddImmediate_straight [OF c0(1) T r] by blast
  ultimately show ?thesis using that [of c0 a F TMP2 0] Address_imm_zero(2) by auto
qed

lemma offset_macro_runs:
  assumes r: "rt < 31" "base < 31" "base \<noteq> TMP2" and sz: "general_size sz" and code: "offset_macro load rt base offset sz = Some code"
    and ad: "\<not> IsIllegalAddress (registers s base + scast offset)" "aligned sz (registers s base + scast offset)"
    and c: "code_at (mem s) (pc s) code" and st: "stop_sim_at h = - 1"
  shows "\<exists>t. (sim_step h ^^ length code) s (advance (length code) (perform_access load sz rt (registers s base + scast offset) t)) \<and>
    only_registers {TMP2} s t"
proof -
  obtain c0 F rn x a where e: "code = c0 @ EmitLoadStoreReg (op_of load sz) rt a sz" "straight h c0 F"
      "Address_imm rn x Offset sz = Some a" "CanHoldOffset x Offset sz" "rn < 31"
    and F: "registers (F s) rn + scast x = registers s base + scast offset" "only_registers {TMP2} s (F s)"
    by (rule offset_macro_code [OF r(2,3) code])
  note run = straight_then_access [OF e(2) r(1) e(5) sz _ e(4,3), of s load]
  have "(sim_step h ^^ length code) s (advance (length code) (perform_access load sz rt (registers s base + scast offset) (F s)))"
    using run c ad st unfolding e(1) accessed_def write_back_def by (simp add: F EmitLoadStoreReg_def del: relpowp.simps)
  then show ?thesis using F(2) by blast
qed

lemma offset_macro_faults:
  assumes r: "rt < 31" "base < 31" "base \<noteq> TMP2" and sz: "general_size sz" and code: "offset_macro load rt base offset sz = Some code"
    and a_def: "a = registers s base + scast offset" and ad: "IsIllegalAddress a \<or> \<not> aligned sz a"
    and c: "code_at (mem s) (pc s) code" and st: "stop_sim_at h = - 1"
  shows "Execute h s = Some (Inl (if IsIllegalAddress a then HandleIllegalAccess a else UnalignedAccess a))"
proof -
  obtain c0 F rn x b where e: "code = c0 @ EmitLoadStoreReg (op_of load sz) rt b sz" "straight h c0 F"
      "Address_imm rn x Offset sz = Some b" "CanHoldOffset x Offset sz" "rn < 31"
    and F: "registers (F s) rn + scast x = a"
    unfolding a_def by (rule offset_macro_code [OF r(2,3) code])
  let ?t = "advance (length c0) (F s)"
  note lF = local_updateD [OF straight_local [OF e(2)]]
  have t: "mem ?t = mem s" "pc ?t = pc s + of_nat (4 * length c0)" "registers ?t = registers (F s)"
    by (simp_all add: advance_def lF)
  define i where "i = hd (EmitLoadStoreReg (op_of load sz) rt b sz)"
  have l: "EmitLoadStoreReg (op_of load sz) rt b sz = [i]" unfolding i_def by (simp add: EmitLoadStoreReg_def)
  have cc: "code_at (mem s) (pc s) c0" "code_at (mem ?t) (pc ?t) [i]"
    using c unfolding e(1) l code_at_append t by simp_all
  have "Execute_iteration h ?t = Inl (if IsIllegalAddress a then HandleIllegalAccess a else UnalignedAccess a)"
    using cc(2) st ad unfolding Execute_iteration_def InstructionDecode_def Let_def
    by (auto simp: access_dispatch [OF r(1) e(5) sz _ e(4,3) i_def] accessed_def t F Let_def)
  moreover have "(sim_step h)\<^sup>*\<^sup>* s ?t"
    using straight_steps [OF e(2) cc(1) st] by (rule relpowp_imp_rtranclp)
  ultimately show ?thesis using cc(2) by (intro run_outcome_Execute) (auto simp: run_outcome_def)
qed

text \<open>The \<open>n\<close> bytes from \<open>a\<close> on and the \<open>k\<close> bytes from \<open>b\<close> on have no byte in common.\<close>

definition apart :: "uword \<Rightarrow> nat \<Rightarrow> uword \<Rightarrow> nat \<Rightarrow> bool" where
  "apart a n b k \<longleftrightarrow> list_all (\<lambda>i. int n \<le> uint (b + of_nat i - a)) [0..<k]"

lemma apart_iff: "apart a n b k \<longleftrightarrow> (\<forall>i<k. n \<le> unat (b + of_nat i - a))"
proof -
  have "int n \<le> uint w \<longleftrightarrow> n \<le> unat w" for w :: u64 by (metis of_nat_unat of_nat_le_iff)
  then show ?thesis by (auto simp: apart_def list_all_iff)
qed

lemma apart_shift: "apart a n p (k + j) \<Longrightarrow> apart a n (p + of_nat k) j"
  unfolding apart_iff
proof (intro allI impI)
  fix i assume h: "\<forall>i<k + j. n \<le> unat (p + of_nat i - a)" and "i < j"
  then have "n \<le> unat (p + of_nat (k + i) - a)" by (intro h [rule_format]) simp
  then show "n \<le> unat (p + of_nat k + of_nat i - a)" by (simp add: add.assoc)
qed

lemma code_at_store:
  assumes "code_at m p code" "n \<le> 8" "apart a n p (4 * length code)"
  shows "code_at (store_bytes n m a v) p code"
  using assms(1,3)
proof (induction code arbitrary: p)
  case (Cons i code)
  have "load_bytes 4 (store_bytes n m a v) p = load_bytes 4 m p"
    using Cons.prems(2) assms(2) by (intro load_store_disjoint) (auto simp: apart_iff)
  moreover have "apart a n (p + 4) (4 * length code)" using apart_shift [of a n p 4] Cons.prems(2) by simp
  ultimately show ?case using Cons by auto
qed simp

lemma load_after_store:
  fixes v :: "'a::len word"
  assumes "n \<le> 8"
  shows "load_bytes n (store_bytes n m a v) a = take_bit (8 * n) v"
proof (rule bit_word_eqI)
  fix i
  assume "i < LENGTH('a)"
  moreover have "unat (of_nat (i div 8) :: u64) = i div 8" if "i div 8 < n"
    using that assms by (intro unat_of_nat_small) simp
  moreover have "i div 8 < n \<longleftrightarrow> i < 8 * n" by (simp add: div_less_iff_less_mult ac_simps)
  ultimately show "bit (load_bytes n (store_bytes n m a v) a :: 'a word) i \<longleftrightarrow> bit (take_bit (8 * n) v) i"
    using assms by (auto simp: bit_load_bytes store_bytes_apply bit_ucast_iff bit_drop_bit_eq bit_take_bit_iff)
qed

section \<open>Loads and stores at any offset\<close>

text \<open>C10. \<open>StoreToOffset\<close> without a constant pool, for every operand size of a general register and
  every 32-bit offset, encodable or not: run from where it is loaded, at a legal and aligned address,
  the code stores exactly the low bytes of the source register at base plus offset and
  otherwise changes nothing but the scratch register.\<close>

theorem StoreToOffset_correct:
  assumes "src < 31" "src \<noteq> TMP2" "base < 31" "base \<noteq> TMP2" "general_size sz"
    and "code = the (StoreToOffset None src base offset sz)" and "a = registers s base + scast offset"
    and "\<not> IsIllegalAddress a" "aligned sz a" and "code_at (mem s) (pc s) code" and "stop_sim_at h = - 1"
  shows "StoreToOffset None src base offset sz = Some code \<and>
    (\<exists>t. (sim_step h ^^ length code) s (advance (length code)
            (t\<lparr>mem := store_bytes (2 ^ Log2OperandSizeBytes sz) (mem s) a (registers s src)\<rparr>)) \<and>
         only_registers {TMP2} s t)"
proof -
  have c: "offset_macro False src base offset sz = Some code"
    using offset_macro_total [of False src base offset sz] assms(6) by (auto simp: offset_macro_def)
  obtain t where t: "(sim_step h ^^ length code) s (advance (length code) (perform_access False sz src a t))" "only_registers {TMP2} s t"
    using offset_macro_runs [OF assms(1,3,4,5) c] assms(7-) by blast
  then have "mem t = mem s" "registers t src = registers s src"
    using assms(2) by (auto simp: only_registers_def dest: arg_cong [of _ _ mem])
  then show ?thesis using c t by (auto simp: perform_access_def offset_macro_def)
qed

definition example_store :: "i32 list" where
  "example_store = the (StoreToOffset None 3 5 0x12345 kWord)"

definition example_data :: "i32 list \<Rightarrow> uword \<Rightarrow> sim" where
  "example_data code base = write_reg 5 base (write_reg 3 0x8877665544332211 (example_state code))"

theorem StoreToOffset_correct_witness:
  "StoreToOffset None 3 5 0x12345 kWord = Some example_store \<and>
    (\<exists>t. (sim_step example_host ^^ length example_store) (example_data example_store 0x2fffb) (advance (length example_store)
            (t\<lparr>mem := store_bytes (2 ^ Log2OperandSizeBytes kWord) (mem (example_data example_store 0x2fffb)) 0x42340
               (registers (example_data example_store 0x2fffb) 3)\<rparr>)) \<and>
         only_registers {TMP2} (example_data example_store 0x2fffb) t)"
proof (rule StoreToOffset_correct)
  show "code_at (mem (example_data example_store 0x2fffb)) (pc (example_data example_store 0x2fffb)) example_store"
    by code_simp
qed (simp_all add: example_store_def example_data_def stop_sim_at_example_host TMP2_def general_size_def IsIllegalAddress_def aligned_def)

text \<open>C11. \<open>LoadFromOffset\<close> without a constant pool, for every operand size of a general register and
  every 32-bit offset: the code leaves the bytes at base plus offset in the destination, extended by
  their sign or by zeros as the operand size says, and otherwise changes nothing but the scratch register.\<close>

theorem LoadFromOffset_correct:
  assumes "dest < 31" "base < 31" "base \<noteq> TMP2" "general_size sz"
    and "code = the (LoadFromOffset None dest base offset sz)" and "a = registers s base + scast offset"
    and "\<not> IsIllegalAddress a" "aligned sz a" and "code_at (mem s) (pc s) code" and "stop_sim_at h = - 1"
  shows "LoadFromOffset None dest base offset sz = Some code \<and>
    (\<exists>t. (sim_step h ^^ length code) s (advance (length code) t) \<and>
         registers t dest = extend_loaded sz (load_bytes (2 ^ Log2OperandSizeBytes sz) (mem s) a) \<and>
         only_registers {dest, TMP2} s t)"
proof -
  have c: "offset_macro True dest base offset sz = Some code"
    using offset_macro_total [of True dest base offset sz] assms(5) by (auto simp: offset_macro_def)
  obtain t where t: "(sim_step h ^^ length code) s (advance (length code) (perform_access True sz dest a t))" "only_registers {TMP2} s t"
    using offset_macro_runs [OF assms(1,2,3,4) c] assms(6-) by blast
  then have "mem t = mem s" by (auto simp: only_registers_def dest: arg_cong [of _ _ mem])
  moreover have "only_registers {dest, TMP2} s (write_reg dest v t)" for v
    using t(2) by (intro only_registers_write) (auto simp: only_registers_def)
  ultimately show ?thesis using c t by (auto simp: perform_access_def offset_macro_def)
qed

definition example_load :: "i32 list" where
  "example_load = the (LoadFromOffset None 3 5 (- 8) kHalfword)"

theorem LoadFromOffset_correct_witness:
  "LoadFromOffset None 3 5 (- 8) kHalfword = Some example_load \<and>
    (\<exists>t. (sim_step example_host ^^ length example_load) (example_data example_load 0x1000a) (advance (length example_load) t) \<and>
         registers t 3 = extend_loaded kHalfword
           (load_bytes (2 ^ Log2OperandSizeBytes kHalfword) (mem (example_data example_load 0x1000a)) 0x10002) \<and>
         only_registers {3, TMP2} (example_data example_load 0x1000a) t)"
proof (rule LoadFromOffset_correct)
  show "code_at (mem (example_data example_load 0x1000a)) (pc (example_data example_load 0x1000a)) example_load"
    by code_simp
qed (simp_all add: example_load_def example_data_def stop_sim_at_example_host TMP2_def general_size_def IsIllegalAddress_def aligned_def)

text \<open>C12. The fault of a bad access: when base plus offset is in the illegal first 64 KB, or not a
  multiple of the operand's size, running the code of \<open>LoadFromOffset\<close> or \<open>StoreToOffset\<close> ends in the
  simulator's report of that address, the illegal access taking precedence, whether the
  offset was encodable or computed into the scratch register first.\<close>

theorem bad_access_faults:
  assumes "rt < 31" "base < 31" "base \<noteq> TMP2" "general_size sz"
    and "code = the (LoadFromOffset None rt base offset sz) \<or> code = the (StoreToOffset None rt base offset sz)"
    and "a = registers s base + scast offset" and "IsIllegalAddress a \<or> \<not> aligned sz a"
    and "code_at (mem s) (pc s) code" and "stop_sim_at h = - 1"
  shows "Execute h s = Some (Inl (if IsIllegalAddress a then HandleIllegalAccess a else UnalignedAccess a))"
proof -
  obtain load where "offset_macro load rt base offset sz = Some code"
    using offset_macro_total [of True rt base offset sz] offset_macro_total [of False rt base offset sz] assms(5)
    unfolding offset_macro_def by (metis option.sel)
  then show ?thesis using offset_macro_faults assms by blast
qed

theorem bad_access_faults_witness:
  "Execute example_host (example_data example_store 0x2fffc) =
    Some (Inl (if IsIllegalAddress 0x42341 then HandleIllegalAccess 0x42341 else UnalignedAccess 0x42341))"
proof (rule bad_access_faults [where rt = 3 and base = 5 and sz = kWord and offset = "0x12345"])
  show "code_at (mem (example_data example_store 0x2fffc)) (pc (example_data example_store 0x2fffc)) example_store"
    by code_simp
  show "example_store = the (LoadFromOffset None 3 5 0x12345 kWord) \<or> example_store = the (StoreToOffset None 3 5 0x12345 kWord)"
    by (simp add: example_store_def)
qed (simp_all add: example_data_def stop_sim_at_example_host TMP2_def general_size_def IsIllegalAddress_def aligned_def)

section \<open>The stack\<close>

lemma Push_Pop_code:
  obtains a b where "Address_imm SP (- 8) PreIndex kDoubleWord = Some a" "Push x = Some (EmitLoadStoreReg (op_of False kDoubleWord) x a kDoubleWord)"
    "Address_imm SP 8 PostIndex kDoubleWord = Some b" "Pop y = Some (EmitLoadStoreReg (op_of True kDoubleWord) y b kDoubleWord)"
proof -
  obtain a b where "Address_imm SP (- 8) PreIndex kDoubleWord = Some a" "Address_imm SP 8 PostIndex kDoubleWord = Some b"
    by (simp add: Address_imm_def Let_def)
  moreover from this have "addr_type b = PostIndex" by (rule_tac Address_imm_type)
  ultimately show ?thesis by (intro that [of a b]) (simp_all add: Push_def Pop_def with_address_def access_ops)
qed

lemma aligned_slot: "aligned kDoubleWord (w - 8) \<longleftrightarrow> aligned kDoubleWord w"
proof -
  have "take_bit 3 (v - 8) = take_bit 3 v" for v :: int using take_bit_diff [of 3 v 8] by simp
  then have "take_bit 3 (w - 8) = take_bit 3 w" by transfer (simp add: min_def)
  then show ?thesis by (simp add: aligned_def)
qed

lemma Push_runs:
  assumes "x < 31" "\<not> IsIllegalAddress (registers s SP - 8)" "aligned kDoubleWord (registers s SP)"
    and "code_at (mem s) (pc s) (the (Push x))" "stop_sim_at h = - 1"
  shows "sim_step h s (advance 1 (write_reg SP (registers s SP - 8)
    (s\<lparr>mem := store_bytes 8 (mem s) (registers s SP - 8) (registers s x)\<rparr>)))"
proof -
  obtain a where a: "Address_imm SP (- 8) PreIndex kDoubleWord = Some a" "the (Push x) = EmitLoadStoreReg (op_of False kDoubleWord) x a kDoubleWord"
    by (rule Push_Pop_code [of x x]) simp
  have "aligned kDoubleWord (registers s SP - 8)" using assms(3) by (simp add: aligned_slot)
  then show ?thesis
    using access_step [of x SP kDoubleWord PreIndex "- 8" a s False h] a assms
    by (simp add: SP_def general_size_def CanHoldOffset_def IsInt_def accessed_def advance_def write_back_def perform_access_def write_reg_def upd_sys_def)
qed

lemma Pop_runs:
  assumes "y < 31" "y \<noteq> SP" "\<not> IsIllegalAddress (registers s SP)" "aligned kDoubleWord (registers s SP)"
    and "code_at (mem s) (pc s) (the (Pop y))" "stop_sim_at h = - 1"
  shows "sim_step h s (advance 1 (write_reg SP (registers s SP + 8) (write_reg y (load_bytes 8 (mem s) (registers s SP)) s)))"
proof -
  obtain b where b: "Address_imm SP 8 PostIndex kDoubleWord = Some b" "the (Pop y) = EmitLoadStoreReg (op_of True kDoubleWord) y b kDoubleWord"
    by (rule Push_Pop_code [of y y]) simp
  then show ?thesis
    using access_step [of y SP kDoubleWord PostIndex 8 b s True h] assms
    by (simp add: SP_def general_size_def CanHoldOffset_def IsInt_def accessed_def advance_def write_back_def perform_access_def extend_loaded_def write_reg_def upd_sys_def)
qed

text \<open>C19. \<open>Push\<close> followed by \<open>Pop\<close>, with an aligned stack pointer and a slot below it that is legal and does
  not overlap the code: the second register receives the value of the first, the stack pointer is back where
  it was, and memory differs in the slot only.\<close>

theorem Push_Pop:
  assumes "x < 31" "y < 31" "y \<noteq> SP" and "code = the (Push x) @ the (Pop y)" and "slot = registers s SP - 8"
    and "\<not> IsIllegalAddress slot" "aligned kDoubleWord (registers s SP)" and "apart slot 8 (pc s) 8"
    and "code_at (mem s) (pc s) code" and "stop_sim_at h = - 1"
  shows "(sim_step h ^^ 2) s (advance 2
    (write_reg y (registers s x) (s\<lparr>mem := store_bytes 8 (mem s) slot (registers s x)\<rparr>)))"
proof -
  define t where "t = advance 1 (write_reg SP slot (s\<lparr>mem := store_bytes 8 (mem s) slot (registers s x)\<rparr>))"
  have l: "length (the (Push x)) = 1" "length (the (Pop y)) = 1"
    by (rule Push_Pop_code [of x y], simp add: EmitLoadStoreReg_def)+
  have ts: "mem t = store_bytes 8 (mem s) slot (registers s x)" "registers t = (registers s)(SP := slot)" "pc t = pc s + 4"
    unfolding t_def by (simp_all add: advance_def write_reg_def upd_sys_def)
  have c: "code_at (mem s) (pc s) (the (Push x))" "code_at (mem s) (pc s + 4) (the (Pop y))"
    using assms(9) unfolding assms(4) code_at_append by (simp_all add: l)
  have "apart slot 8 (pc s + 4) 4" using apart_shift [of slot 8 "pc s" 4 4] assms(8) by simp
  then have c2: "code_at (mem t) (pc t) (the (Pop y))"
    unfolding ts by (intro code_at_store c) (simp_all add: l)
  have "aligned kDoubleWord slot" using assms(5,7) by (simp add: aligned_slot)
  then have "sim_step h t (advance 1 (write_reg SP (slot + 8) (write_reg y (load_bytes 8 (mem t) slot) t)))"
    using Pop_runs [OF assms(2,3) _ _ c2 assms(10)] assms(6) by (simp add: ts)
  moreover have "load_bytes 8 (mem t) slot = registers s x" unfolding ts by (rule load_store_same) simp_all
  moreover have "advance 1 (write_reg SP (slot + 8) (write_reg y (registers s x) t)) =
    advance 2 (write_reg y (registers s x) (s\<lparr>mem := store_bytes 8 (mem s) slot (registers s x)\<rparr>))"
    unfolding t_def using assms(3,5) by (auto simp: advance_def write_reg_def upd_sys_def fun_upd_twist)
  moreover have "sim_step h s t"
    unfolding t_def using Push_runs [OF assms(1) _ assms(7) c(1) assms(10)] assms(5,6) by simp
  ultimately show ?thesis unfolding numeral_2_eq_2 by auto
qed

definition example_stack :: "i32 list" where
  "example_stack = the (Push 3) @ the (Pop 7)"

definition example_pushed :: sim where
  "example_pushed = write_reg SP 0x20000 (example_data example_stack 0)"

theorem Push_Pop_witness:
  "(sim_step example_host ^^ 2) example_pushed (advance 2 (write_reg 7 (registers example_pushed 3)
    (example_pushed\<lparr>mem := store_bytes 8 (mem example_pushed) 0x1fff8 (registers example_pushed 3)\<rparr>)))"
proof (rule Push_Pop [where code = example_stack])
  show "code_at (mem example_pushed) (pc example_pushed) example_stack" by code_simp
  show "apart 0x1fff8 8 (pc example_pushed) 8" by code_simp
  show "\<not> IsIllegalAddress 0x1fff8" "aligned kDoubleWord (registers example_pushed SP)" "0x1fff8 = registers example_pushed SP - 8"
    by code_simp+
qed (simp_all add: example_stack_def stop_sim_at_example_host SP_def)

section \<open>Exclusive accesses\<close>

text \<open>C13. A store exclusive after a load exclusive, whatever other threads wrote to memory in between: the
  store takes place, and reports success with 0, exactly when it is to the address of the load and the
  word there still is the one loaded; a store that fails leaves memory alone and reports 1. The
  reservation is used up: a second store exclusive to that address fails without
  touching memory, however memory is changed before it.\<close>

theorem exclusive_store_safe:
  assumes "ReadExclusiveX a s = Inr (v, t)"
    and "WriteExclusiveX b w (t\<lparr>mem := m\<rparr>) = (status, u)"
  shows "(status = 0 \<longleftrightarrow> b = a \<and> load_bytes 8 m a = v) \<and>
    (status = 0 \<or> status = 1) \<and>
    mem u = (if status = 0 then store_bytes 8 m a w else m) \<and>
    (b = a \<and> a \<noteq> 0 \<longrightarrow> (\<forall>m' w'. WriteExclusiveX a w' (u\<lparr>mem := m'\<rparr>) = (1, u\<lparr>mem := m'\<rparr>)))"
proof -
  have t: "exclusive_access_addr t = a" "exclusive_access_value t = v"
    using assms(1) by (auto simp: ReadExclusiveX_def ReadX_def split: if_splits)
  show ?thesis
  proof (cases "b = a")
    case False
    then show ?thesis using assms(2) t by (auto simp: WriteExclusiveX_def)
  next
    case True
    then show ?thesis using assms(2) t
      by (cases "load_bytes 8 m a = v") (auto simp: WriteExclusiveX_def CompareAndSwapWord_def ClearExclusive_def Let_def)
  qed
qed


theorem exclusive_store_safe_witness:
  "\<exists>t u. ReadExclusiveX 0x20000 (Simulator_init (\<lambda>_. 0) 0 0) = Inr (0, t) \<and>
     WriteExclusiveX 0x20000 7 (t\<lparr>mem := \<lambda>_. 0\<rparr>) = (0, u) \<and> mem u = store_bytes 8 (\<lambda>_. 0) 0x20000 (7 :: i64)"
proof -
  let ?m = "\<lambda>_. 0 :: u8"
  have z: "load_bytes 8 ?m 0x20000 = (0 :: i64)" by (rule bit_word_eqI) (simp add: bit_load_bytes)
  have "mem (Simulator_init ?m 0 0) = ?m" by (simp add: Simulator_init_def)
  then obtain t where r: "ReadExclusiveX 0x20000 (Simulator_init ?m 0 0) = Inr (0, t)"
    using z by (simp add: ReadExclusiveX_def ReadX_def)
  obtain status u where w: "WriteExclusiveX 0x20000 7 (t\<lparr>mem := ?m\<rparr>) = (status, u)" by fastforce
  have "status = 0 \<and> mem u = store_bytes 8 ?m 0x20000 (7 :: i64)" using exclusive_store_safe [OF r w] z by presburger
  then show ?thesis using r w by blast
qed

end
