(* ===== verification/Arm64_Call.thy ===== *)
theory Arm64_Call
  imports Arm64_Macros
begin

text \<open>
  \<open>Call\<close> of the simulator, which enters simulated code from C++: what it preserves whatever the code does,
  and that it returns from straight-line code that ends with \<open>ret\<close>.
\<close>

section \<open>What a call leaves alone\<close>

lemma set_registers_facts:
  "registers (set_registers rs v s) r = (if r \<in> set rs then v else registers s r)"
  "vregisters (set_registers rs v s) = vregisters s" "mem (set_registers rs v s) = mem s"
  "pc (set_registers rs v s) = pc s" "icount (set_registers rs v s) = icount s"
  unfolding set_registers_def by (induction rs arbitrary: s) auto

lemma set_vregisterd_facts:
  "registers (set_vregisterd r k v s) = registers s" "mem (set_vregisterd r k v s) = mem s"
  "pc (set_vregisterd r k v s) = pc s" "icount (set_vregisterd r k v s) = icount s"
  by (simp_all add: set_vregisterd_def)

lemma simd_i64_set: "simd_i64 (simd_set_i64 w 1 0) 0 = simd_i64 w 0" "simd_i64 (simd_set_i64 w 0 v) 0 = v"
proof -
  show "simd_i64 (simd_set_i64 w 1 0) 0 = simd_i64 w 0"
    by (rule bit_word_eqI) (auto simp: simd_i64_def simd_set_i64_def bit_simps dest: bit_imp_le_length)
  show "simd_i64 (simd_set_i64 w 0 v) 0 = v"
    by (rule bit_word_eqI) (auto simp: simd_i64_def simd_set_i64_def bit_simps dest: bit_imp_le_length)
qed

lemma get_set_vregisterd:
  "get_vregisterd (set_vregisterd r' 1 0 (set_vregisterd r' 0 v s)) r 0 = (if r = r' then v else get_vregisterd s r 0)"
  by (simp add: get_vregisterd_def set_vregisterd_def simd_i64_set [unfolded One_nat_def])

lemma fold_registers:
  "registers (fold (\<lambda>r s. set_registers [r] (f r) s) rs s) r = (if r \<in> set rs then f r else registers s r)"
  "vregisters (fold (\<lambda>r s. set_registers [r] (f r) s) rs s) = vregisters s" "mem (fold (\<lambda>r s. set_registers [r] (f r) s) rs s) = mem s"
  "pc (fold (\<lambda>r s. set_registers [r] (f r) s) rs s) = pc s" "icount (fold (\<lambda>r s. set_registers [r] (f r) s) rs s) = icount s"
  by (induction rs arbitrary: s) (auto simp: set_registers_facts)

lemma fold_vregisters:
  "get_vregisterd (fold (\<lambda>r s. set_vregisterd r 1 0 (set_vregisterd r 0 (f r) s)) rs s) r 0 = (if r \<in> set rs then f r else get_vregisterd s r 0)"
  "registers (fold (\<lambda>r s. set_vregisterd r 1 0 (set_vregisterd r 0 (f r) s)) rs s) = registers s"
  "mem (fold (\<lambda>r s. set_vregisterd r 1 0 (set_vregisterd r 0 (f r) s)) rs s) = mem s"
  "pc (fold (\<lambda>r s. set_vregisterd r 1 0 (set_vregisterd r 0 (f r) s)) rs s) = pc s"
  "icount (fold (\<lambda>r s. set_vregisterd r 1 0 (set_vregisterd r 0 (f r) s)) rs s) = icount s"
  by (induction rs arbitrary: s) (auto simp: get_set_vregisterd [unfolded One_nat_def] set_vregisterd_facts)

lemmas call_state = set_registers_facts set_vregisterd_facts fold_registers fold_vregisters
  get_register_def kAbiPreservedCpuRegs_def kAbiPreservedFpuRegs_def R31_def LR_def

lemma Call_restore_facts:
  "registers (Call_restore b s) r = (if r = 31 \<or> (19 \<le> r \<and> r < 29) then registers b r else registers s r)"
  "get_vregisterd (Call_restore b s) v 0 = get_vregisterd (if 8 \<le> v \<and> v < 16 then b else s) v 0"
  "pc (Call_restore b s) = pc s" "mem (Call_restore b s) = mem s" "icount (Call_restore b s) = icount s"
proof -
  have g: "get_vregisterd (set_registers rs x s) v 0 = get_vregisterd s v 0" for rs x s
    by (simp add: get_vregisterd_def set_registers_facts)
  have h: "get_vregisterd (fold (\<lambda>r s. set_registers [r] (f r) s) rs s) v 0 = get_vregisterd s v 0" for f rs
    by (simp add: get_vregisterd_def fold_registers)
  show "registers (Call_restore b s) r = (if r = 31 \<or> (19 \<le> r \<and> r < 29) then registers b r else registers s r)"
    unfolding Call_restore_def Let_def kAbiPreservedCpuRegs_def set_registers_facts(1) fold_vregisters(2) fold_registers(1) set_upt
    by (auto simp: R31_def get_register_def)
  show "get_vregisterd (Call_restore b s) v 0 = get_vregisterd (if 8 \<le> v \<and> v < 16 then b else s) v 0"
    unfolding Call_restore_def Let_def g fold_vregisters h kAbiPreservedFpuRegs_def set_upt by simp
  show "pc (Call_restore b s) = pc s" "mem (Call_restore b s) = mem s" "icount (Call_restore b s) = icount s"
    unfolding Call_restore_def Let_def by (simp_all add: call_state)
qed

text \<open>C9. Whatever code a call runs and whatever host functions that code calls: when \<open>Call\<close> returns,
  every register the C++ calling convention preserves has its value from before the call (the general
  registers \<open>R19\<close> to \<open>R28\<close>, the stack pointer \<open>R31\<close>, the low halves of \<open>V8\<close> to \<open>V15\<close>), and the
  program counter is the end marker.\<close>

theorem Call_preserves:
  assumes "Call h frame_alignment entry parameters fp_return fp_args s = Some (Inr (v, t))"
  shows "(\<forall>r. r = R31 \<or> r \<in> set kAbiPreservedCpuRegs \<longrightarrow> registers t r = registers s r) \<and>
    (\<forall>r. r \<in> set kAbiPreservedFpuRegs \<longrightarrow> get_vregisterd t r 0 = get_vregisterd s r 0) \<and>
    pc t = kEndSimulatingPC"
proof -
  obtain u where u: "Execute h (Call_setup h frame_alignment entry parameters fp_args s) = Some (Inr u)" "t = Call_restore s u"
    using assms unfolding Call_def by (auto simp: Let_def split: option.splits sum.splits)
  have "pc u = kEndSimulatingPC" using Execute_run_outcome [OF u(1)] by (auto simp: run_outcome_def)
  then show ?thesis unfolding u(2) Call_restore_facts by (auto simp: R31_def kAbiPreservedCpuRegs_def kAbiPreservedFpuRegs_def)
qed

section \<open>Calls that return\<close>

lemma ret_dispatch: "InstructionDecode_dispatch h (hd (ret LR)) s = Inr (set_pc (registers s LR) s)"
proof -
  have w: "hd (ret LR) = 0xd65f03c0" by code_simp
  have "\<not> IsDPImmediateOp 0xd65f03c0" "IsCompareBranchOp 0xd65f03c0" "\<not> IsCompareAndBranchOp 0xd65f03c0"
    "\<not> IsConditionalBranchOp 0xd65f03c0" "\<not> IsExceptionGenOp 0xd65f03c0" "\<not> IsSystemOp 0xd65f03c0" "\<not> IsTestAndBranchOp 0xd65f03c0"
    "\<not> IsUnconditionalBranchOp 0xd65f03c0" "IsUnconditionalBranchRegOp 0xd65f03c0"
    "Bits (0xd65f03c0 :: i32) 0 5 = 0" "Bits (0xd65f03c0 :: i32) 10 6 = 0" "Bits (0xd65f03c0 :: i32) 16 5 = 0x1f" "Bits (0xd65f03c0 :: i32) 21 4 = 2"
    "RnField 0xd65f03c0 = 30"
    by code_simp+
  then show ?thesis
    unfolding w by (simp add: InstructionDecode_dispatch_def DecodeCompareBranch_def DecodeUnconditionalBranchReg_def Let_def get_register_def R31_def LR_def)
qed

lemma Call_setup_facts:
  assumes "s' = Call_setup h al entry parameters False s"
  shows "mem s' = mem s" "pc s' = entry" "icount s' = icount s" "registers s' LR = kEndSimulatingPC" "registers s' 0 = parameters ! 0"
proof -
  have f: "fold (\<lambda>i s. set_registers [i] (parameters ! i) s) [0..<4] s = s\<lparr>registers := (registers s)(0 := parameters ! 0, 1 := parameters ! 1, 2 := parameters ! 2, 3 := parameters ! 3)\<rparr>"
    by (simp add: set_registers_def upt_rec numeral_nat)
  show "mem s' = mem s" "pc s' = entry" "icount s' = icount s" "registers s' LR = kEndSimulatingPC" "registers s' 0 = parameters ! 0"
    unfolding assms Call_setup_def Let_def fold_vregisters f
    by (simp_all add: set_registers_facts set_pc_def kAbiPreservedCpuRegs_def LR_def R31_def)
qed

lemma Call_straight:
  assumes F: "straight h code F" "\<And>s. registers (F s) LR = registers s LR"
    and c: "code_at (mem s) entry (code @ ret LR)" and st: "stop_sim_at h = - 1"
    and s0: "s0 = Call_setup h al entry parameters False s"
  shows "\<exists>t. Call h al entry parameters False False s = Some (Inr (registers (F s0) 0, t)) \<and> mem t = mem s \<and>
    icount t = icount s + of_nat (length code + 1)"
proof -
  note f = Call_setup_facts [OF s0] and lF = local_updateD [OF straight_local [OF F(1)]]
  define i where "i = hd (ret LR)"
  have r: "ret LR = [i]" unfolding i_def by (simp add: ret_def EmitUnconditionalBranchRegOp_def)
  let ?t = "advance (length code) (F s0)"
  let ?u = "set_pc kEndSimulatingPC (?t\<lparr>icount := icount ?t + 1, pc_modified := False\<rparr>)"
  have t: "mem ?t = mem s" "pc ?t = entry + of_nat (4 * length code)" "registers ?t = registers (F s0)" "icount ?t = icount s + of_nat (length code)"
    by (simp_all add: advance_def lF f)
  have cc: "code_at (mem s0) (pc s0) code" "code_at (mem ?t) (pc ?t) [i]"
    using c unfolding r f t code_at_append by simp_all
  have "Execute_iteration h ?t = Inr ?u"
    using cc(2) st unfolding Execute_iteration_def InstructionDecode_def Let_def i_def
    by (simp add: ret_dispatch t F(2) f) (simp add: set_pc_def)
  then have "sim_step h ?t ?u" using cc(2) by (intro sim_stepI) auto
  moreover have "(sim_step h)\<^sup>*\<^sup>* s0 ?t" using straight_steps [OF F(1) cc(1) st] by (rule relpowp_imp_rtranclp)
  ultimately have "(sim_step h)\<^sup>*\<^sup>* s0 ?u" by simp
  then have "Execute h s0 = Some (Inr ?u)" by (intro run_outcome_Execute) (auto simp: run_outcome_def set_pc_def)
  moreover have "registers (Call_restore s ?u) 0 = registers (F s0) 0" "mem (Call_restore s ?u) = mem s"
      "icount (Call_restore s ?u) = icount s + of_nat (length code + 1)"
    using t by (simp_all add: Call_restore_facts set_pc_def)
  ultimately show ?thesis unfolding Call_def s0 [symmetric] by (simp add: Let_def get_register_def R31_def)
qed

text \<open>C8. A call comes back with the right answer: calling the code of \<open>AddImmediate R0, R0, imm\<close> followed by
  \<open>ret\<close>, loaded anywhere, with any arguments, ends, for every 64-bit immediate. It returns the first argument plus
  the immediate, executes as many instructions as were emitted and leaves memory alone.\<close>

theorem Call_AddImmediate_returns:
  assumes "code = the (AddImmediate None 0 0 imm) @ ret LR" and "code_at (mem s) entry code" and "stop_sim_at h = - 1"
  shows "\<exists>t. Call h frame_alignment entry parameters False False s = Some (Inr (parameters ! 0 + imm, t)) \<and>
    mem t = mem s \<and> icount t = icount s + of_nat (length code)"
proof -
  have "AddImmediate None 0 0 imm \<noteq> None" using LoadImmediate_total [of TMP2 imm] by (auto simp: AddImmediate_def)
  then obtain c where c: "AddImmediate None 0 0 imm = Some c" by blast
  obtain F where F: "straight h c F" "\<forall>s. registers (F s) 0 = registers s 0 + imm \<and> only_registers {0, TMP2} s (F s)"
    using AddImmediate_straight [OF c] by (auto simp: TMP2_def)
  have "registers (F s) LR = registers s LR" for s
    using F(2) [rule_format, of s] spec [of "\<lambda>r. r \<in> {0, TMP2} \<or> registers (F s) r = registers s r" LR]
    by (simp add: only_registers_def LR_def TMP2_def)
  moreover have "length code = length c + 1" using c assms(1) by (simp add: ret_def EmitUnconditionalBranchRegOp_def)
  ultimately show ?thesis
    using Call_straight [OF F(1) _ _ assms(3) refl, of s entry frame_alignment parameters] assms(1,2) c F(2)
      Call_setup_facts(5) [OF refl, of h frame_alignment entry parameters s] by simp
qed

definition example_callee :: "i32 list" where
  "example_callee = the (AddImmediate None 0 0 0x123456789) @ ret LR"

theorem Call_AddImmediate_returns_witness:
  "\<exists>t. Call example_host 16 0x10000 [5, 0, 0, 0] False False (example_state example_callee) =
      Some (Inr ([5, 0, 0, 0] ! 0 + 0x123456789, t)) \<and>
    mem t = mem (example_state example_callee) \<and>
    icount t = icount (example_state example_callee) + of_nat (length example_callee)"
proof (rule Call_AddImmediate_returns)
  show "code_at (mem (example_state example_callee)) 0x10000 example_callee" by code_simp
qed (simp_all add: example_callee_def stop_sim_at_example_host)

definition example_return :: "i32 list" where
  "example_return = ret LR"

theorem Call_preserves_witness:
  "\<exists>v t. Call example_host 16 0x10000 [5, 0, 0, 0] False False (example_state example_return) = Some (Inr (v, t)) \<and>
    registers t R31 = 0x20000 \<and> pc t = kEndSimulatingPC"
proof -
  have c: "code_at (mem (example_state example_return)) 0x10000 ([] @ ret LR)" by code_simp
  obtain v t where t: "Call example_host 16 0x10000 [5, 0, 0, 0] False False (example_state example_return) = Some (Inr (v, t))"
    using Call_straight [OF straight.Nil _ c stop_sim_at_example_host refl] by blast
  have "registers (example_state example_return) R31 = 0x20000" by code_simp
  then have "registers t R31 = 0x20000 \<and> pc t = kEndSimulatingPC" using Call_preserves [OF t] by simp
  then show ?thesis using t by blast
qed

end
