(* ===== verification/Range_Analysis.thy ===== *)
theory Range_Analysis
  imports Utils "HOL-Library.Monad_Syntax"
begin

text \<open>
  Integer range analysis: boundaries, ranges, their arithmetic and the test for redundant array bounds checks of
  \<^verbatim>\<open>runtime/vm/compiler/backend/range_analysis.h\<close> and \<^verbatim>\<open>range_analysis.cc\<close>, on a
  64-bit target.

  A definition of the flow graph is a number; \<open>flow_graph\<close> has what the analysis reads of it: the instruction,
  its range, and whether common subexpression elimination regards two definitions as equal. The constants among the
  operands of Smi operations are Smis. A symbolic boundary refers to a definition whose range can again
  have symbolic boundaries, so the functions that follow these references, or the operands of definitions, can
  run forever on a cyclic graph: they are partial functions with \<^const>\<open>None\<close> for no result. \<^const>\<open>None\<close> also
  stands for what the sources exclude with an assertion or leave undefined: a symbol asked of a
  boundary that has none, and a right shift by 64 or more.
\<close>

type_synonym defn = nat

datatype TokenKind =
  kADD | kSUB | kMUL | kTRUNCDIV | kMOD | kSHL | kSHR | kBIT_AND | kBIT_OR | kBIT_XOR
| kEQ | kNE | kLT | kGT | kLTE | kGTE

datatype Definition =
  ConstantSmi i64 | Constraint defn | BinarySmiOp TokenKind defn defn | ImmutableLengthLoad | OtherDefinition

datatype RangeBoundary =
  Unknown | NegativeInfinity | PositiveInfinity | Symbol defn i64 | Constant i64

datatype RangeSize = kRangeBoundarySmi | kRangeBoundaryInt32 | kRangeBoundaryInt64

record Range =
  range_min :: RangeBoundary
  range_max :: RangeBoundary

record flow_graph =
  node :: "defn \<Rightarrow> Definition"
  defn_range :: "defn \<Rightarrow> Range option"
  cse_equal :: "defn \<Rightarrow> defn \<Rightarrow> bool"

definition kSmiMin :: i64 where "kSmiMin = - (2 ^ 62)"
definition kSmiMax :: i64 where "kSmiMax = 2 ^ 62 - 1"

section \<open>Boundaries\<close>

fun IsUnknown :: "RangeBoundary \<Rightarrow> bool" where
  "IsUnknown Unknown = True" | "IsUnknown _ = False"
fun IsConstant :: "RangeBoundary \<Rightarrow> bool" where
  "IsConstant (Constant _) = True" | "IsConstant _ = False"
fun IsSymbol :: "RangeBoundary \<Rightarrow> bool" where
  "IsSymbol (Symbol _ _) = True" | "IsSymbol _ = False"
definition IsNegativeInfinity :: "RangeBoundary \<Rightarrow> bool" where
  "IsNegativeInfinity b \<longleftrightarrow> b = NegativeInfinity"
definition IsPositiveInfinity :: "RangeBoundary \<Rightarrow> bool" where
  "IsPositiveInfinity b \<longleftrightarrow> b = PositiveInfinity"
definition IsInfinity :: "RangeBoundary \<Rightarrow> bool" where
  "IsInfinity b \<longleftrightarrow> IsNegativeInfinity b \<or> IsPositiveInfinity b"

text \<open>The field \<open>value_\<close>, which is 0 unless the boundary is a constant or, excluded by an assertion, a symbol.\<close>

fun ConstantValue :: "RangeBoundary \<Rightarrow> i64" where
  "ConstantValue (Constant c) = c" | "ConstantValue _ = 0"

fun boundary_offset :: "RangeBoundary \<Rightarrow> i64" where
  "boundary_offset (Symbol _ offs) = offs" | "boundary_offset _ = 0"

definition MinConstant :: "RangeSize \<Rightarrow> RangeBoundary" where
  "MinConstant sz = Constant (case sz of
     kRangeBoundarySmi \<Rightarrow> kSmiMin | kRangeBoundaryInt32 \<Rightarrow> - (2 ^ 31) | kRangeBoundaryInt64 \<Rightarrow> kMinInt64)"
definition MaxConstant :: "RangeSize \<Rightarrow> RangeBoundary" where
  "MaxConstant sz = Constant (case sz of
     kRangeBoundarySmi \<Rightarrow> kSmiMax | kRangeBoundaryInt32 \<Rightarrow> 2 ^ 31 - 1 | kRangeBoundaryInt64 \<Rightarrow> kMaxInt64)"

definition IsValidOffsetForSymbolicRangeBoundary :: "i64 \<Rightarrow> bool" where
  "IsValidOffsetForSymbolicRangeBoundary offset \<longleftrightarrow>
     \<not> (kMaxInt64 - kSmiMax <s offset \<or> offset <s kMinInt64 - kSmiMin)"

definition FromDefinition :: "flow_graph \<Rightarrow> defn \<Rightarrow> i64 \<Rightarrow> RangeBoundary" where
  "FromDefinition g d offs = (case node g d of ConstantSmi c \<Rightarrow> Constant (c + offs) | _ \<Rightarrow> Symbol d offs)"

definition Clamp_boundary :: "RangeBoundary \<Rightarrow> RangeSize \<Rightarrow> RangeBoundary" where
  "Clamp_boundary b sz =
     (if IsNegativeInfinity b then MinConstant sz
      else if IsPositiveInfinity b then MaxConstant sz
      else if IsConstant b \<and> ConstantValue b \<le>s ConstantValue (MinConstant sz) then MinConstant sz
      else if IsConstant b \<and> ConstantValue (MaxConstant sz) \<le>s ConstantValue b then MaxConstant sz
      else b)"

definition IsMinimumOrBelow :: "RangeBoundary \<Rightarrow> RangeSize \<Rightarrow> bool" where
  "IsMinimumOrBelow b sz \<longleftrightarrow>
     IsNegativeInfinity b \<or> (IsConstant b \<and> ConstantValue b \<le>s ConstantValue (MinConstant sz))"
definition IsMaximumOrAbove :: "RangeBoundary \<Rightarrow> RangeSize \<Rightarrow> bool" where
  "IsMaximumOrAbove b sz \<longleftrightarrow>
     IsPositiveInfinity b \<or> (IsConstant b \<and> ConstantValue (MaxConstant sz) \<le>s ConstantValue b)"

definition OverflowedSmi :: "RangeBoundary \<Rightarrow> bool" where
  "OverflowedSmi b \<longleftrightarrow>
     (IsConstant b \<and> \<not> (kSmiMin \<le>s ConstantValue b \<and> ConstantValue b \<le>s kSmiMax)) \<or> IsInfinity b"

definition Add_boundary :: "RangeBoundary \<Rightarrow> RangeBoundary \<Rightarrow> RangeBoundary \<Rightarrow> RangeBoundary" where
  "Add_boundary a b overflow =
     (if IsInfinity a \<or> IsInfinity b then overflow
      else if WillAddOverflow (ConstantValue a) (ConstantValue b) then overflow
      else Constant (ConstantValue a + ConstantValue b))"

definition Sub_boundary :: "RangeBoundary \<Rightarrow> RangeBoundary \<Rightarrow> RangeBoundary \<Rightarrow> RangeBoundary" where
  "Sub_boundary a b overflow =
     (if IsInfinity a \<or> IsInfinity b then overflow
      else if WillSubOverflow (ConstantValue a) (ConstantValue b) then overflow
      else Constant (ConstantValue a - ConstantValue b))"

text \<open>
  The test in \<open>Shl\<close> lets only counts below 64 through, except for the value 0, where it has no limit and the shift by 64 or more is undefined
  in C++; it is 0 here, as the tests of the analysis (\<^verbatim>\<open>range_analysis_test.cc\<close>) expect. \<open>Shr\<close> has no
  test, and \<^const>\<open>None\<close> is the undefined shift.
\<close>

definition Shl_boundary :: "RangeBoundary \<Rightarrow> i64 \<Rightarrow> RangeBoundary \<Rightarrow> RangeBoundary" where
  "Shl_boundary value_boundary shift_count overflow =
     (let limit = 64 - shift_count;
          val = ConstantValue value_boundary
      in if val = 0 \<or> shift_count = 0 \<or> (0 <s limit \<and> IsInt (unat limit) val)
         then Constant (push_bit (unat shift_count) val)
         else overflow)"

definition Shr_boundary :: "RangeBoundary \<Rightarrow> i64 \<Rightarrow> RangeBoundary option" where
  "Shr_boundary value_boundary shift_count =
     (if shift_count <s 64
      then Some (Constant (signed_drop_bit (unat shift_count) (ConstantValue value_boundary)))
      else None)"

text \<open>
  The lower and the upper bound of a boundary, a constant or an infinity. \<open>ConstantMin\<close> and \<open>ConstantMax\<close> of the range of the
  symbol are written out.
\<close>

partial_function (option) LowerBound :: "flow_graph \<Rightarrow> RangeBoundary \<Rightarrow> RangeBoundary option" where
  "LowerBound g b =
     (case b of
        Symbol d offs \<Rightarrow>
          do {
            m \<leftarrow> (case defn_range g d of
                    None \<Rightarrow> Some (MinConstant kRangeBoundarySmi)
                  | Some r \<Rightarrow> do { lb \<leftarrow> LowerBound g (range_min r); Some (Clamp_boundary lb kRangeBoundarySmi) });
            Some (Add_boundary m (Constant offs) NegativeInfinity)
          }
      | Constant c \<Rightarrow> Some b
      | Unknown \<Rightarrow> None
      | _ \<Rightarrow> Some NegativeInfinity)"

partial_function (option) UpperBound :: "flow_graph \<Rightarrow> RangeBoundary \<Rightarrow> RangeBoundary option" where
  "UpperBound g b =
     (case b of
        Symbol d offs \<Rightarrow>
          do {
            m \<leftarrow> (case defn_range g d of
                    None \<Rightarrow> Some (MaxConstant kRangeBoundarySmi)
                  | Some r \<Rightarrow> do { ub \<leftarrow> UpperBound g (range_max r); Some (Clamp_boundary ub kRangeBoundarySmi) });
            Some (Add_boundary m (Constant offs) PositiveInfinity)
          }
      | Constant c \<Rightarrow> Some b
      | Unknown \<Rightarrow> None
      | _ \<Rightarrow> Some PositiveInfinity)"

declare LowerBound.simps [code] UpperBound.simps [code]

text \<open>\<open>SymbolicAdd\<close> and \<open>SymbolicSub\<close> give \<^const>\<open>None\<close> where the sources return false.\<close>

definition SymbolicAdd_symbol :: "flow_graph \<Rightarrow> RangeBoundary \<Rightarrow> RangeBoundary \<Rightarrow> RangeBoundary option" where
  "SymbolicAdd_symbol g a b =
     (case a of
        Symbol d offs \<Rightarrow>
          if WillAddOverflow offs (ConstantValue b) then None
          else let offset = offs + ConstantValue b
               in if \<not> IsValidOffsetForSymbolicRangeBoundary offset then None
                  else Some (FromDefinition g d offset)
      | _ \<Rightarrow> None)"

definition SymbolicAdd :: "flow_graph \<Rightarrow> RangeBoundary \<Rightarrow> RangeBoundary \<Rightarrow> RangeBoundary option" where
  "SymbolicAdd g a b =
     (if IsSymbol a \<and> IsConstant b then SymbolicAdd_symbol g a b
      else if IsSymbol b \<and> IsConstant a then SymbolicAdd_symbol g b a
      else None)"

definition SymbolicSub :: "flow_graph \<Rightarrow> RangeBoundary \<Rightarrow> RangeBoundary \<Rightarrow> RangeBoundary option" where
  "SymbolicSub g a b =
     (case a of
        Symbol d offs \<Rightarrow>
          if IsConstant b then
            if WillSubOverflow offs (ConstantValue b) then None
            else let offset = offs - ConstantValue b
                 in if \<not> IsValidOffsetForSymbolicRangeBoundary offset then None
                    else Some (FromDefinition g d offset)
          else None
      | _ \<Rightarrow> None)"

section \<open>Symbols\<close>

partial_function (option) UnwrapConstraint :: "flow_graph \<Rightarrow> defn \<Rightarrow> defn option" where
  "UnwrapConstraint g d = (case node g d of Constraint d' \<Rightarrow> UnwrapConstraint g d' | _ \<Rightarrow> Some d)"

declare UnwrapConstraint.simps [code]

definition AreEqualDefinitions :: "flow_graph \<Rightarrow> defn \<Rightarrow> defn \<Rightarrow> bool option" where
  "AreEqualDefinitions g a b =
     do {
       a \<leftarrow> UnwrapConstraint g a;
       b \<leftarrow> UnwrapConstraint g b;
       Some (a = b \<or> cse_equal g a b)
     }"

definition DependOnSameSymbol :: "flow_graph \<Rightarrow> RangeBoundary \<Rightarrow> RangeBoundary \<Rightarrow> bool option" where
  "DependOnSameSymbol g a b =
     (case (a, b) of (Symbol da _, Symbol db _) \<Rightarrow> AreEqualDefinitions g da db | _ \<Rightarrow> Some False)"

definition DependsOnSymbol :: "flow_graph \<Rightarrow> RangeBoundary \<Rightarrow> defn \<Rightarrow> bool option" where
  "DependsOnSymbol g a s =
     (case a of Symbol d _ \<Rightarrow> do { d \<leftarrow> UnwrapConstraint g d; Some (d = s) } | _ \<Rightarrow> Some False)"

definition Equals_boundary :: "flow_graph \<Rightarrow> RangeBoundary \<Rightarrow> RangeBoundary \<Rightarrow> bool option" where
  "Equals_boundary g a b =
     (if IsConstant a \<and> IsConstant b then Some (ConstantValue a = ConstantValue b)
      else if IsInfinity a \<and> IsInfinity b then Some (a = b)
      else if IsSymbol a \<and> IsSymbol b then
        if boundary_offset a = boundary_offset b then DependOnSameSymbol g a b else Some False
      else Some (IsUnknown a \<and> IsUnknown b))"

text \<open>
  The body of the loop of \<open>CanonicalizeBoundary\<close> goes from a symbol to the operand it differs from by a constant; it gives
  the new symbol and offset and whether they changed, or \<^const>\<open>None\<close> when the offset overflows.
\<close>

definition CanonicalizeBoundary_body :: "flow_graph \<Rightarrow> defn \<Rightarrow> i64 \<Rightarrow> (defn \<times> i64 \<times> bool) option" where
  "CanonicalizeBoundary_body g d offset =
     (case node g d of
        Constraint d' \<Rightarrow> Some (d', offset, True)
      | BinarySmiOp op l r \<Rightarrow>
          (case op of
             kADD \<Rightarrow>
               (case node g r of
                  ConstantSmi rhs \<Rightarrow>
                    if WillAddOverflow offset rhs then None else Some (l, offset + rhs, True)
                | _ \<Rightarrow>
                    (case node g l of
                       ConstantSmi rhs \<Rightarrow>
                         if WillAddOverflow offset rhs then None else Some (r, offset + rhs, True)
                     | _ \<Rightarrow> Some (d, offset, False)))
           | kSUB \<Rightarrow>
               (case node g r of
                  ConstantSmi rhs \<Rightarrow>
                    if WillSubOverflow offset rhs then None else Some (l, offset - rhs, True)
                | _ \<Rightarrow> Some (d, offset, False))
           | _ \<Rightarrow> Some (d, offset, False))
      | _ \<Rightarrow> Some (d, offset, False))"

partial_function (option) CanonicalizeBoundary_loop ::
    "flow_graph \<Rightarrow> defn \<Rightarrow> i64 \<Rightarrow> (defn \<times> i64) option option" where
  "CanonicalizeBoundary_loop g d offset =
     (case CanonicalizeBoundary_body g d offset of
        None \<Rightarrow> Some None
      | Some (d, offset, changed) \<Rightarrow>
          if changed then CanonicalizeBoundary_loop g d offset else Some (Some (d, offset)))"

declare CanonicalizeBoundary_loop.simps [code]

definition CanonicalizeBoundary :: "flow_graph \<Rightarrow> RangeBoundary \<Rightarrow> RangeBoundary \<Rightarrow> RangeBoundary option" where
  "CanonicalizeBoundary g a overflow =
     (case a of
        Symbol d offs \<Rightarrow>
          do {
            found \<leftarrow> CanonicalizeBoundary_loop g d offs;
            Some (case found of
                    None \<Rightarrow> overflow
                  | Some (d, offset) \<Rightarrow>
                      if \<not> IsValidOffsetForSymbolicRangeBoundary offset then overflow
                      else FromDefinition g d offset)
          }
      | Unknown \<Rightarrow> None
      | _ \<Rightarrow> Some a)"

text \<open>
  One step from a symbol to the boundary of its range. The result is the changed boundary and whether
  there was a step.
\<close>

definition Canonicalize_step ::
    "(Range \<Rightarrow> RangeBoundary) \<Rightarrow> RangeBoundary \<Rightarrow> flow_graph \<Rightarrow> RangeBoundary \<Rightarrow> (RangeBoundary \<times> bool) option" where
  "Canonicalize_step side infinity g a =
     (case a of
        Symbol d offs \<Rightarrow>
          (case defn_range g d of
             None \<Rightarrow> Some (a, False)
           | Some r \<Rightarrow>
               (case side r of
                  Symbol d' offs' \<Rightarrow>
                    if WillAddOverflow offs' offs then Some (infinity, True)
                    else let offset = offs' + offs
                         in if \<not> IsValidOffsetForSymbolicRangeBoundary offset then Some (infinity, True)
                            else do {
                                   c \<leftarrow> CanonicalizeBoundary g (FromDefinition g d' offset) infinity;
                                   Some (c, True)
                                 }
                | _ \<Rightarrow> Some (a, False)))
      | _ \<Rightarrow> Some (a, False))"

definition CanonicalizeMaxBoundary :: "flow_graph \<Rightarrow> RangeBoundary \<Rightarrow> (RangeBoundary \<times> bool) option" where
  "CanonicalizeMaxBoundary = Canonicalize_step range_max PositiveInfinity"
definition CanonicalizeMinBoundary :: "flow_graph \<Rightarrow> RangeBoundary \<Rightarrow> (RangeBoundary \<times> bool) option" where
  "CanonicalizeMinBoundary = Canonicalize_step range_min NegativeInfinity"

text \<open>
  The loop of \<open>CanonicalizeForComparison\<close> and of \<open>IsRedundant\<close>: until both boundaries have the same symbol,
  step the first or, if it has no step, the second; \<^const>\<open>None\<close> inside when neither steps.
\<close>

partial_function (option) Canonicalize_loop ::
    "(RangeBoundary \<Rightarrow> (RangeBoundary \<times> bool) option) \<Rightarrow> (RangeBoundary \<Rightarrow> (RangeBoundary \<times> bool) option) \<Rightarrow>
     flow_graph \<Rightarrow> RangeBoundary \<Rightarrow> RangeBoundary \<Rightarrow> (RangeBoundary \<times> RangeBoundary) option option" where
  "Canonicalize_loop opa opb g a b =
     do {
       same \<leftarrow> DependOnSameSymbol g a b;
       if same then Some (Some (a, b))
       else do {
         (a, changed) \<leftarrow> opa a;
         if changed then Canonicalize_loop opa opb g a b
         else do {
           (b, changed) \<leftarrow> opb b;
           if changed then Canonicalize_loop opa opb g a b else Some None
         }
       }
     }"

declare Canonicalize_loop.simps [code]

definition CanonicalizeForComparison ::
    "flow_graph \<Rightarrow> RangeBoundary \<Rightarrow> RangeBoundary \<Rightarrow> (flow_graph \<Rightarrow> RangeBoundary \<Rightarrow> (RangeBoundary \<times> bool) option) \<Rightarrow>
     (RangeBoundary \<times> RangeBoundary) option option" where
  "CanonicalizeForComparison g a b op =
     (if \<not> IsSymbol a \<or> \<not> IsSymbol b then Some None else Canonicalize_loop (op g) (op g) g a b)"

section \<open>Joins and intersections of boundaries\<close>

text \<open>\<open>LowerBound(size)\<close>, \<open>UpperBound(size)\<close> and \<open>Overflowed\<close>.\<close>

definition LowerBound_size :: "flow_graph \<Rightarrow> RangeBoundary \<Rightarrow> RangeSize \<Rightarrow> i64 option" where
  "LowerBound_size g b sz = do { lb \<leftarrow> LowerBound g b; Some (ConstantValue (Clamp_boundary lb sz)) }"
definition UpperBound_size :: "flow_graph \<Rightarrow> RangeBoundary \<Rightarrow> RangeSize \<Rightarrow> i64 option" where
  "UpperBound_size g b sz = do { ub \<leftarrow> UpperBound g b; Some (ConstantValue (Clamp_boundary ub sz)) }"
definition Overflowed :: "flow_graph \<Rightarrow> RangeBoundary \<Rightarrow> RangeSize \<Rightarrow> bool option" where
  "Overflowed g b sz = do { eq \<leftarrow> Equals_boundary g b (Clamp_boundary b sz); Some (\<not> eq) }"

definition JoinMin :: "flow_graph \<Rightarrow> RangeBoundary \<Rightarrow> RangeBoundary \<Rightarrow> RangeSize \<Rightarrow> RangeBoundary option" where
  "JoinMin g a b sz =
     do {
       eq \<leftarrow> Equals_boundary g a b;
       if eq then Some b
       else do {
         c \<leftarrow> CanonicalizeForComparison g a b CanonicalizeMinBoundary;
         case c of
           Some (a, b) \<Rightarrow> Some (if boundary_offset a \<le>s boundary_offset b then a else b)
         | None \<Rightarrow>
             do {
               inf_a \<leftarrow> LowerBound_size g a sz;
               inf_b \<leftarrow> LowerBound_size g b sz;
               sup_a \<leftarrow> UpperBound_size g a sz;
               sup_b \<leftarrow> UpperBound_size g b sz;
               lower_a \<leftarrow> LowerBound g a;
               lower_b \<leftarrow> LowerBound g b;
               over_a \<leftarrow> Overflowed g lower_a sz;
               over_b \<leftarrow> Overflowed g lower_b sz;
               Some (if sup_a \<le>s inf_b \<and> \<not> over_a then a
                     else if sup_b \<le>s inf_a \<and> \<not> over_b then b
                     else Constant (if inf_a <s inf_b then inf_a else inf_b))
             }
       }
     }"

definition JoinMax :: "flow_graph \<Rightarrow> RangeBoundary \<Rightarrow> RangeBoundary \<Rightarrow> RangeSize \<Rightarrow> RangeBoundary option" where
  "JoinMax g a b sz =
     do {
       eq \<leftarrow> Equals_boundary g a b;
       if eq then Some b
       else do {
         c \<leftarrow> CanonicalizeForComparison g a b CanonicalizeMaxBoundary;
         case c of
           Some (a, b) \<Rightarrow> Some (if boundary_offset b \<le>s boundary_offset a then a else b)
         | None \<Rightarrow>
             do {
               inf_a \<leftarrow> LowerBound_size g a sz;
               inf_b \<leftarrow> LowerBound_size g b sz;
               sup_a \<leftarrow> UpperBound_size g a sz;
               sup_b \<leftarrow> UpperBound_size g b sz;
               upper_a \<leftarrow> UpperBound g a;
               upper_b \<leftarrow> UpperBound g b;
               over_a \<leftarrow> Overflowed g upper_a sz;
               over_b \<leftarrow> Overflowed g upper_b sz;
               Some (if sup_a \<le>s inf_b \<and> \<not> over_b then b
                     else if sup_b \<le>s inf_a \<and> \<not> over_a then a
                     else Constant (if sup_b <s sup_a then sup_a else sup_b))
             }
       }
     }"

definition IntersectionMin :: "flow_graph \<Rightarrow> RangeBoundary \<Rightarrow> RangeBoundary \<Rightarrow> RangeBoundary option" where
  "IntersectionMin g a b =
     do {
       eq \<leftarrow> Equals_boundary g a b;
       if eq then Some a
       else if IsMinimumOrBelow a kRangeBoundarySmi then Some b
       else if IsMinimumOrBelow b kRangeBoundarySmi then Some a
       else do {
         c \<leftarrow> CanonicalizeForComparison g a b CanonicalizeMinBoundary;
         case c of
           Some (a, b) \<Rightarrow> Some (if boundary_offset b \<le>s boundary_offset a then a else b)
         | None \<Rightarrow>
             do {
               inf_a \<leftarrow> LowerBound_size g a kRangeBoundarySmi;
               inf_b \<leftarrow> LowerBound_size g b kRangeBoundarySmi;
               Some (if inf_b \<le>s inf_a then a else b)
             }
       }
     }"

definition IntersectionMax :: "flow_graph \<Rightarrow> RangeBoundary \<Rightarrow> RangeBoundary \<Rightarrow> RangeBoundary option" where
  "IntersectionMax g a b =
     do {
       eq \<leftarrow> Equals_boundary g a b;
       if eq then Some a
       else if IsMaximumOrAbove a kRangeBoundarySmi then Some b
       else if IsMaximumOrAbove b kRangeBoundarySmi then Some a
       else do {
         c \<leftarrow> CanonicalizeForComparison g a b CanonicalizeMaxBoundary;
         case c of
           Some (a, b) \<Rightarrow> Some (if boundary_offset a \<le>s boundary_offset b then a else b)
         | None \<Rightarrow>
             do {
               sup_a \<leftarrow> UpperBound_size g a kRangeBoundarySmi;
               sup_b \<leftarrow> UpperBound_size g b kRangeBoundarySmi;
               Some (if sup_a \<le>s sup_b then a else b)
             }
       }
     }"

section \<open>Ranges\<close>

definition Full :: "RangeSize \<Rightarrow> Range" where
  "Full sz = \<lparr>range_min = MinConstant sz, range_max = MaxConstant sz\<rparr>"

text \<open>The constructor with two boundaries, and \<open>IsUnknown\<close> of a pointer to a range.\<close>

definition mk_Range :: "RangeBoundary \<Rightarrow> RangeBoundary \<Rightarrow> Range" where
  "mk_Range mn mx =
     (if IsInfinity mn \<or> IsInfinity mx then Full kRangeBoundaryInt64
      else \<lparr>range_min = mn, range_max = mx\<rparr>)"

definition set_range_min :: "RangeBoundary \<Rightarrow> Range \<Rightarrow> Range" where
  "set_range_min b r = (if IsInfinity b then Full kRangeBoundaryInt64 else r\<lparr>range_min := b\<rparr>)"
definition set_range_max :: "RangeBoundary \<Rightarrow> Range \<Rightarrow> Range" where
  "set_range_max b r = (if IsInfinity b then Full kRangeBoundaryInt64 else r\<lparr>range_max := b\<rparr>)"

definition Range_IsUnknown :: "Range option \<Rightarrow> bool" where
  "Range_IsUnknown r \<longleftrightarrow> (case r of None \<Rightarrow> True | Some r \<Rightarrow> IsUnknown (range_min r))"

definition Equals_range :: "flow_graph \<Rightarrow> Range \<Rightarrow> Range option \<Rightarrow> bool option" where
  "Equals_range g r other =
     (case other of
        None \<Rightarrow> Some (IsUnknown (range_min r))
      | Some r' \<Rightarrow>
          do {
            eq \<leftarrow> Equals_boundary g (range_min r) (range_min r');
            if eq then Equals_boundary g (range_max r) (range_max r') else Some False
          })"

definition ConstantMin :: "flow_graph \<Rightarrow> Range option \<Rightarrow> RangeSize \<Rightarrow> RangeBoundary option" where
  "ConstantMin g r sz =
     (case r of
        None \<Rightarrow> Some (MinConstant sz)
      | Some r \<Rightarrow> do { lb \<leftarrow> LowerBound g (range_min r); Some (Clamp_boundary lb sz) })"
definition ConstantMax :: "flow_graph \<Rightarrow> Range option \<Rightarrow> RangeSize \<Rightarrow> RangeBoundary option" where
  "ConstantMax g r sz =
     (case r of
        None \<Rightarrow> Some (MaxConstant sz)
      | Some r \<Rightarrow> do { ub \<leftarrow> UpperBound g (range_max r); Some (Clamp_boundary ub sz) })"

definition OnlyLessThanOrEqualTo :: "flow_graph \<Rightarrow> Range \<Rightarrow> i64 \<Rightarrow> bool option" where
  "OnlyLessThanOrEqualTo g r val =
     do { ub \<leftarrow> UpperBound g (range_max r); Some (\<not> IsPositiveInfinity ub \<and> ConstantValue ub \<le>s val) }"
definition OnlyGreaterThanOrEqualTo :: "flow_graph \<Rightarrow> Range \<Rightarrow> i64 \<Rightarrow> bool option" where
  "OnlyGreaterThanOrEqualTo g r val =
     do { lb \<leftarrow> LowerBound g (range_min r); Some (\<not> IsNegativeInfinity lb \<and> val \<le>s ConstantValue lb) }"
definition IsPositive :: "flow_graph \<Rightarrow> Range \<Rightarrow> bool option" where
  "IsPositive g r = OnlyGreaterThanOrEqualTo g r 0"
definition IsWithin :: "flow_graph \<Rightarrow> Range \<Rightarrow> i64 \<Rightarrow> i64 \<Rightarrow> bool option" where
  "IsWithin g r min_int max_int =
     do {
       ge \<leftarrow> OnlyGreaterThanOrEqualTo g r min_int;
       if ge then OnlyLessThanOrEqualTo g r max_int else Some False
     }"

definition Overlaps :: "flow_graph \<Rightarrow> Range \<Rightarrow> i64 \<Rightarrow> i64 \<Rightarrow> bool option" where
  "Overlaps g r min_int max_int =
     do {
       lower \<leftarrow> LowerBound g (range_min r);
       upper \<leftarrow> UpperBound g (range_max r);
       let this_min = (if IsNegativeInfinity lower then kMinInt64 else ConstantValue lower);
           this_max = (if IsPositiveInfinity upper then kMaxInt64 else ConstantValue upper)
       in Some (this_min \<le>s min_int \<and> min_int \<le>s this_max \<or>
                this_min \<le>s max_int \<and> max_int \<le>s this_max \<or>
                min_int <s this_min \<and> this_max <s max_int)
     }"

definition IsUnsatisfiable :: "flow_graph \<Rightarrow> Range \<Rightarrow> bool option" where
  "IsUnsatisfiable g r =
     (if IsPositiveInfinity (range_min r) \<or> IsNegativeInfinity (range_max r) then Some True
      else do {
        mn \<leftarrow> ConstantMin g (Some r) kRangeBoundaryInt64;
        mx \<leftarrow> ConstantMax g (Some r) kRangeBoundaryInt64;
        if ConstantValue mx <s ConstantValue mn then Some True
        else do {
          same \<leftarrow> DependOnSameSymbol g (range_min r) (range_max r);
          Some (same \<and> boundary_offset (range_max r) <s boundary_offset (range_min r))
        }
      })"

definition Intersect :: "flow_graph \<Rightarrow> Range \<Rightarrow> Range \<Rightarrow> Range option" where
  "Intersect g r other =
     do {
       mn \<leftarrow> IntersectionMin g (range_min r) (range_min other);
       mx \<leftarrow> IntersectionMax g (range_max r) (range_max other);
       Some (mk_Range mn mx)
     }"

definition Fits :: "flow_graph \<Rightarrow> Range \<Rightarrow> RangeSize \<Rightarrow> bool option" where
  "Fits g r sz =
     do {
       lb \<leftarrow> LowerBound g (range_min r);
       over_min \<leftarrow> Overflowed g lb sz;
       if over_min then Some False
       else do {
         ub \<leftarrow> UpperBound g (range_max r);
         over_max \<leftarrow> Overflowed g ub sz;
         Some (\<not> over_max)
       }
     }"

definition Clamp_range :: "Range \<Rightarrow> RangeSize \<Rightarrow> Range" where
  "Clamp_range r sz =
     \<lparr>range_min = Clamp_boundary (range_min r) sz, range_max = Clamp_boundary (range_max r) sz\<rparr>"

definition ClampToConstant :: "flow_graph \<Rightarrow> Range \<Rightarrow> RangeSize \<Rightarrow> Range option" where
  "ClampToConstant g r sz =
     do {
       lb \<leftarrow> LowerBound g (range_min r);
       ub \<leftarrow> UpperBound g (range_max r);
       Some \<lparr>range_min = Clamp_boundary lb sz, range_max = Clamp_boundary ub sz\<rparr>
     }"

definition ConstantAbsMax :: "flow_graph \<Rightarrow> Range \<Rightarrow> i64 option" where
  "ConstantAbsMax g r =
     do {
       mn \<leftarrow> ConstantMin g (Some r) kRangeBoundaryInt64;
       mx \<leftarrow> ConstantMax g (Some r) kRangeBoundaryInt64;
       let abs_min = AbsWithSaturation (ConstantValue mn); abs_max = AbsWithSaturation (ConstantValue mx)
       in Some (if abs_max <s abs_min then abs_min else abs_max)
     }"
definition ConstantAbsMin :: "flow_graph \<Rightarrow> Range \<Rightarrow> i64 option" where
  "ConstantAbsMin g r =
     do {
       mn \<leftarrow> ConstantMin g (Some r) kRangeBoundaryInt64;
       mx \<leftarrow> ConstantMax g (Some r) kRangeBoundaryInt64;
       let abs_min = AbsWithSaturation (ConstantValue mn); abs_max = AbsWithSaturation (ConstantValue mx)
       in Some (if abs_min <s abs_max then abs_min else abs_max)
     }"

definition OnlyPositiveOrZero :: "flow_graph \<Rightarrow> Range \<Rightarrow> Range \<Rightarrow> bool option" where
  "OnlyPositiveOrZero g a b =
     do { pa \<leftarrow> OnlyGreaterThanOrEqualTo g a 0; if pa then OnlyGreaterThanOrEqualTo g b 0 else Some False }"
definition OnlyNegativeOrZero :: "flow_graph \<Rightarrow> Range \<Rightarrow> Range \<Rightarrow> bool option" where
  "OnlyNegativeOrZero g a b =
     do { na \<leftarrow> OnlyLessThanOrEqualTo g a 0; if na then OnlyLessThanOrEqualTo g b 0 else Some False }"

section \<open>Arithmetic on ranges\<close>

definition Range_Shl :: "flow_graph \<Rightarrow> Range \<Rightarrow> Range \<Rightarrow> (RangeBoundary \<times> RangeBoundary) option" where
  "Range_Shl g left right =
     do {
       left_max \<leftarrow> ConstantMax g (Some left) kRangeBoundaryInt64;
       left_min \<leftarrow> ConstantMin g (Some left) kRangeBoundaryInt64;
       right_mx \<leftarrow> ConstantMax g (Some right) kRangeBoundaryInt64;
       right_mn \<leftarrow> ConstantMin g (Some right) kRangeBoundaryInt64;
       let right_max = (if 0 <s ConstantValue right_mx then ConstantValue right_mx else 0);
           right_min = (if 0 <s ConstantValue right_mn then ConstantValue right_mn else 0)
       in Some
         (if 0 <s ConstantValue left_min then Shl_boundary left_min right_min PositiveInfinity
          else Shl_boundary left_min right_max NegativeInfinity,
          if 0 <s ConstantValue left_max then Shl_boundary left_max right_max PositiveInfinity
          else Shl_boundary left_max right_min NegativeInfinity)
     }"

definition Range_Shr :: "flow_graph \<Rightarrow> Range \<Rightarrow> Range \<Rightarrow> (RangeBoundary \<times> RangeBoundary) option" where
  "Range_Shr g left right =
     do {
       left_max \<leftarrow> ConstantMax g (Some left) kRangeBoundaryInt64;
       left_min \<leftarrow> ConstantMin g (Some left) kRangeBoundaryInt64;
       right_mx \<leftarrow> ConstantMax g (Some right) kRangeBoundaryInt64;
       right_mn \<leftarrow> ConstantMin g (Some right) kRangeBoundaryInt64;
       let right_max = (if 0 <s ConstantValue right_mx then ConstantValue right_mx else 0);
           right_min = (if 0 <s ConstantValue right_mn then ConstantValue right_mn else 0)
       in do {
         mn \<leftarrow> Shr_boundary left_min (if 0 <s ConstantValue left_min then right_max else right_min);
         mx \<leftarrow> Shr_boundary left_max (if 0 <s ConstantValue left_max then right_min else right_max);
         Some (mn, mx)
       }
     }"

definition BitSize :: "flow_graph \<Rightarrow> Range \<Rightarrow> nat option" where
  "BitSize g r =
     do {
       mn \<leftarrow> ConstantMin g (Some r) kRangeBoundaryInt64;
       mx \<leftarrow> ConstantMax g (Some r) kRangeBoundaryInt64;
       Some (max (BitLength (ConstantValue mn)) (BitLength (ConstantValue mx)))
     }"

definition Range_BitwiseOp :: "flow_graph \<Rightarrow> Range \<Rightarrow> Range \<Rightarrow> (RangeBoundary \<times> RangeBoundary) option" where
  "Range_BitwiseOp g left right =
     do {
       bl \<leftarrow> BitSize g left;
       br \<leftarrow> BitSize g right;
       let bitsize = max bl br
       in do {
         pl \<leftarrow> IsPositive g left;
         pr \<leftarrow> IsPositive g right;
         Some (Constant (if pl \<and> pr then 0 else - push_bit bitsize 1), Constant (push_bit bitsize 1 - 1))
       }
     }"

definition Range_And :: "flow_graph \<Rightarrow> Range \<Rightarrow> Range \<Rightarrow> (RangeBoundary \<times> RangeBoundary) option" where
  "Range_And g left right =
     do {
       right_min \<leftarrow> ConstantMin g (Some right) kRangeBoundaryInt64;
       if 0 \<le>s ConstantValue right_min then
         do { mx \<leftarrow> ConstantMax g (Some right) kRangeBoundaryInt64; Some (Constant 0, mx) }
       else do {
         left_min \<leftarrow> ConstantMin g (Some left) kRangeBoundaryInt64;
         if 0 \<le>s ConstantValue left_min then
           do { mx \<leftarrow> ConstantMax g (Some left) kRangeBoundaryInt64; Some (Constant 0, mx) }
         else Range_BitwiseOp g left right
       }
     }"

definition IsArrayLength :: "flow_graph \<Rightarrow> defn option \<Rightarrow> bool option" where
  "IsArrayLength g d =
     (case d of None \<Rightarrow> Some False
      | Some d \<Rightarrow> do { d \<leftarrow> UnwrapConstraint g d; Some (node g d = ImmutableLengthLoad) })"

definition Range_Add :: "flow_graph \<Rightarrow> Range \<Rightarrow> Range \<Rightarrow> defn option \<Rightarrow> (RangeBoundary \<times> RangeBoundary) option" where
  "Range_Add g left right left_defn =
     do {
       len \<leftarrow> IsArrayLength g left_defn;
       let left_min = (if len then FromDefinition g (the left_defn) 0 else range_min left);
           left_max = (if len then FromDefinition g (the left_defn) 0 else range_max left)
       in do {
         mn \<leftarrow> (case SymbolicAdd g left_min (range_min right) of
                 Some b \<Rightarrow> Some b
               | None \<Rightarrow> do { a \<leftarrow> LowerBound g (range_min left); b \<leftarrow> LowerBound g (range_min right);
                              Some (Add_boundary a b NegativeInfinity) });
         mx \<leftarrow> (case SymbolicAdd g left_max (range_max right) of
                 Some b \<Rightarrow> Some b
               | None \<Rightarrow> do { b \<leftarrow> UpperBound g (range_max right); a \<leftarrow> UpperBound g (range_max left);
                              Some (Add_boundary b a PositiveInfinity) });
         Some (mn, mx)
       }
     }"

definition Range_Sub :: "flow_graph \<Rightarrow> Range \<Rightarrow> Range \<Rightarrow> defn option \<Rightarrow> (RangeBoundary \<times> RangeBoundary) option" where
  "Range_Sub g left right left_defn =
     do {
       len \<leftarrow> IsArrayLength g left_defn;
       let left_min = (if len then FromDefinition g (the left_defn) 0 else range_min left);
           left_max = (if len then FromDefinition g (the left_defn) 0 else range_max left)
       in do {
         mn \<leftarrow> (case SymbolicSub g left_min (range_max right) of
                 Some b \<Rightarrow> Some b
               | None \<Rightarrow> do { a \<leftarrow> LowerBound g (range_min left); b \<leftarrow> UpperBound g (range_max right);
                              Some (Sub_boundary a b NegativeInfinity) });
         mx \<leftarrow> (case SymbolicSub g left_max (range_min right) of
                 Some b \<Rightarrow> Some b
               | None \<Rightarrow> do { a \<leftarrow> UpperBound g (range_max left); b \<leftarrow> LowerBound g (range_min right);
                              Some (Sub_boundary a b PositiveInfinity) });
         Some (mn, mx)
       }
     }"

text \<open>The divisions in \<open>Mul\<close> and \<open>TruncDiv\<close> are of values their guards make positive or zero, by positive ones.\<close>

definition Range_Mul :: "flow_graph \<Rightarrow> Range \<Rightarrow> Range \<Rightarrow> (RangeBoundary \<times> RangeBoundary) option" where
  "Range_Mul g left right =
     do {
       left_max \<leftarrow> ConstantAbsMax g left;
       right_max \<leftarrow> ConstantAbsMax g right;
       pos \<leftarrow> OnlyPositiveOrZero g left right;
       neg \<leftarrow> OnlyNegativeOrZero g left right;
       if left_max \<le>s - kSmiMin \<and> right_max \<le>s - kSmiMin \<and>
          (left_max = 0 \<or> right_max \<le>s word_of_int (sint kMaxInt64 div sint left_max)) then
         let mul_max = left_max * right_max
         in if pos \<or> neg then
              do {
                left_min \<leftarrow> ConstantAbsMin g left;
                right_min \<leftarrow> ConstantAbsMin g right;
                Some (Constant (left_min * right_min), Constant mul_max)
              }
            else Some (Constant (- mul_max), Constant mul_max)
       else if pos \<or> neg then Some (Constant 0, PositiveInfinity)
       else Some (NegativeInfinity, PositiveInfinity)
     }"

definition Range_TruncDiv :: "flow_graph \<Rightarrow> Range \<Rightarrow> Range \<Rightarrow> (RangeBoundary \<times> RangeBoundary) option" where
  "Range_TruncDiv g left right =
     do {
       gl \<leftarrow> OnlyGreaterThanOrEqualTo g left 0;
       gr \<leftarrow> OnlyGreaterThanOrEqualTo g right 1;
       if gl \<and> gr then
         do {
           left_max \<leftarrow> ConstantAbsMax g left;
           left_min \<leftarrow> ConstantAbsMin g left;
           right_max \<leftarrow> ConstantAbsMax g right;
           right_min \<leftarrow> ConstantAbsMin g right;
           Some (Constant (word_of_int (sint left_min div sint right_max)),
                 Constant (word_of_int (sint left_max div sint right_min)))
         }
       else Some (NegativeInfinity, PositiveInfinity)
     }"

definition BinaryOp :: "flow_graph \<Rightarrow> TokenKind \<Rightarrow> Range \<Rightarrow> Range \<Rightarrow> defn option \<Rightarrow> Range option" where
  "BinaryOp g op left right left_defn =
     (let bounds = (case op of
            kADD \<Rightarrow> Range_Add g left right left_defn
          | kSUB \<Rightarrow> Range_Sub g left right left_defn
          | kMUL \<Rightarrow> Range_Mul g left right
          | kTRUNCDIV \<Rightarrow> Range_TruncDiv g left right
          | kSHL \<Rightarrow> Range_Shl g left right
          | kSHR \<Rightarrow> Range_Shr g left right
          | kBIT_AND \<Rightarrow> Range_And g left right
          | kBIT_XOR \<Rightarrow> Range_BitwiseOp g left right
          | kBIT_OR \<Rightarrow> Range_BitwiseOp g left right
          | _ \<Rightarrow> Some (NegativeInfinity, PositiveInfinity))
      in do { (mn, mx) \<leftarrow> bounds; Some (mk_Range mn mx) })"

section \<open>Inferring ranges\<close>

text \<open>
  The range of a definition, given the ranges \<open>left_range\<close>, \<open>right_range\<close> of its inputs. \<open>InferRangeHelper\<close> returns the
  range and, for an operation that does not truncate, whether it can overflow.
\<close>

definition ConstraintSmiRange :: "flow_graph \<Rightarrow> TokenKind \<Rightarrow> defn \<Rightarrow> Range option" where
  "ConstraintSmiRange g op boundary =
     (case op of
        kEQ \<Rightarrow> Some (mk_Range (FromDefinition g boundary 0) (FromDefinition g boundary 0))
      | kNE \<Rightarrow> Some (Full kRangeBoundarySmi)
      | kLT \<Rightarrow> Some (mk_Range (MinConstant kRangeBoundarySmi) (FromDefinition g boundary (- 1)))
      | kGT \<Rightarrow> Some (mk_Range (FromDefinition g boundary 1) (MaxConstant kRangeBoundarySmi))
      | kLTE \<Rightarrow> Some (mk_Range (MinConstant kRangeBoundarySmi) (FromDefinition g boundary 0))
      | kGTE \<Rightarrow> Some (mk_Range (FromDefinition g boundary 0) (MaxConstant kRangeBoundarySmi))
      | _ \<Rightarrow> None)"

definition Constraint_InferRange :: "flow_graph \<Rightarrow> Range option \<Rightarrow> Range \<Rightarrow> Range option option" where
  "Constraint_InferRange g value_range constraint =
     (if Range_IsUnknown value_range then Some None
      else do {
        result \<leftarrow> Intersect g (the value_range) constraint;
        unsat \<leftarrow> IsUnsatisfiable g result;
        Some (if unsat then None else Some result)
      })"

definition InferRangeHelper ::
    "flow_graph \<Rightarrow> TokenKind \<Rightarrow> RangeSize \<Rightarrow> Range option \<Rightarrow> Range option \<Rightarrow> defn option \<Rightarrow> (Range \<times> bool) option option" where
  "InferRangeHelper g op range_size left_range right_range left_defn =
     (if Range_IsUnknown left_range \<or> Range_IsUnknown right_range then Some None
      else do {
        r \<leftarrow> BinaryOp g op (the left_range) (the right_range) left_defn;
        fits \<leftarrow> Fits g r range_size;
        Some (Some (Clamp_range r range_size, \<not> fits))
      })"

definition Join :: "flow_graph \<Rightarrow> Range \<Rightarrow> defn \<Rightarrow> Range option \<Rightarrow> RangeSize \<Rightarrow> Range option" where
  "Join g r d defn_rng sz =
     (case defn_rng of
        None \<Rightarrow> Some r
      | Some dr \<Rightarrow>
          if IsUnknown (range_min dr) then Some r
          else if IsUnknown (range_min r) then Some dr
          else do {
            unwrapped \<leftarrow> UnwrapConstraint g d;
            dep_min \<leftarrow> DependsOnSymbol g (range_min r) unwrapped;
            dep_max \<leftarrow> DependsOnSymbol g (range_max r) unwrapped;
            let other = (if dep_min \<or> dep_max then mk_Range (FromDefinition g d 0) (FromDefinition g d 0) else dr)
            in do {
              inf_range \<leftarrow> LowerBound_size g (range_min r) sz;
              inf_other \<leftarrow> LowerBound_size g (range_min other) sz;
              sup_range \<leftarrow> UpperBound_size g (range_max r) sz;
              sup_other \<leftarrow> UpperBound_size g (range_max other) sz;
              if sup_range \<le>s inf_other then Some (set_range_max (range_max other) r)
              else if sup_other \<le>s inf_range then Some (set_range_min (range_min other) r)
              else do {
                mn \<leftarrow> JoinMin g (range_min r) (range_min other) sz;
                mx \<leftarrow> JoinMax g (range_max r) (range_max other) sz;
                Some (mk_Range mn mx)
              }
            }
          })"

definition WidenMin :: "flow_graph \<Rightarrow> Range \<Rightarrow> Range \<Rightarrow> RangeSize \<Rightarrow> RangeBoundary option" where
  "WidenMin g r new_range sz =
     (let constant =
            do {
              mn \<leftarrow> ConstantMin g (Some r) sz;
              new_mn \<leftarrow> ConstantMin g (Some new_range) sz;
              Some (if ConstantValue mn \<le>s ConstantValue new_mn then mn else MinConstant sz)
            }
      in if IsSymbol (range_min r) then
           do {
             lb \<leftarrow> LowerBound g (range_min r);
             over \<leftarrow> Overflowed g lb sz;
             if over then Some (MinConstant sz)
             else do {
               same \<leftarrow> DependOnSameSymbol g (range_min r) (range_min new_range);
               if same then
                 Some (if boundary_offset (range_min r) \<le>s boundary_offset (range_min new_range)
                       then range_min r else MinConstant sz)
               else do {
                 up \<leftarrow> UpperBound_size g (range_min r) sz;
                 low \<leftarrow> LowerBound_size g (range_min new_range) sz;
                 if up \<le>s low then Some (range_min r) else constant
               }
             }
           }
         else constant)"

definition WidenMax :: "flow_graph \<Rightarrow> Range \<Rightarrow> Range \<Rightarrow> RangeSize \<Rightarrow> RangeBoundary option" where
  "WidenMax g r new_range sz =
     (let constant =
            do {
              mx \<leftarrow> ConstantMax g (Some r) sz;
              new_mx \<leftarrow> ConstantMax g (Some new_range) sz;
              Some (if ConstantValue new_mx \<le>s ConstantValue mx then mx else MaxConstant sz)
            }
      in if IsSymbol (range_max r) then
           do {
             ub \<leftarrow> UpperBound g (range_max r);
             over \<leftarrow> Overflowed g ub sz;
             if over then Some (MaxConstant sz)
             else do {
               same \<leftarrow> DependOnSameSymbol g (range_max r) (range_max new_range);
               if same then
                 Some (if boundary_offset (range_max new_range) \<le>s boundary_offset (range_max r)
                       then range_max r else MaxConstant sz)
               else do {
                 low \<leftarrow> LowerBound_size g (range_max r) sz;
                 up \<leftarrow> UpperBound_size g (range_max new_range) sz;
                 if up \<le>s low then Some (range_max r) else constant
               }
             }
           }
         else constant)"

definition NarrowMin :: "flow_graph \<Rightarrow> Range \<Rightarrow> Range \<Rightarrow> RangeSize \<Rightarrow> RangeBoundary option" where
  "NarrowMin g r new_range sz =
     do {
       mn \<leftarrow> ConstantMin g (Some r) sz;
       new_mn \<leftarrow> ConstantMin g (Some new_range) sz;
       Some (if ConstantValue new_mn <s ConstantValue mn then range_min r
             else if IsMinimumOrBelow (range_min r) sz then range_min new_range else range_min r)
     }"

definition NarrowMax :: "flow_graph \<Rightarrow> Range \<Rightarrow> Range \<Rightarrow> RangeSize \<Rightarrow> RangeBoundary option" where
  "NarrowMax g r new_range sz =
     do {
       mx \<leftarrow> ConstantMax g (Some r) sz;
       new_mx \<leftarrow> ConstantMax g (Some new_range) sz;
       Some (if ConstantValue mx <s ConstantValue new_mx then range_max r
             else if IsMaximumOrAbove (range_max r) sz then range_max new_range else range_max r)
     }"

text \<open>
  One step of the iteration over the definitions: the new range of a definition from its old one and the range just inferred, and
  whether it changed. \<open>phi_size\<close> is the size of a phi, \<^const>\<open>None\<close> for another definition.
\<close>

datatype JoinOperator = NONE | WIDEN | NARROW

definition RangeAnalysis_InferRange ::
    "flow_graph \<Rightarrow> JoinOperator \<Rightarrow> RangeSize option \<Rightarrow> Range option \<Rightarrow> Range option \<Rightarrow> (Range option \<times> bool) option" where
  "RangeAnalysis_InferRange g op phi_size old new_range =
     (if Range_IsUnknown new_range then Some (old, False)
      else do {
        r \<leftarrow> (case phi_size of
                Some sz \<Rightarrow>
                  if Range_IsUnknown old then Some (the new_range)
                  else if op = WIDEN then
                    do {
                      mn \<leftarrow> WidenMin g (the old) (the new_range) sz;
                      mx \<leftarrow> WidenMax g (the old) (the new_range) sz;
                      Some (mk_Range mn mx)
                    }
                  else if op = NARROW then
                    do {
                      mn \<leftarrow> NarrowMin g (the old) (the new_range) sz;
                      mx \<leftarrow> NarrowMax g (the old) (the new_range) sz;
                      Some (mk_Range mn mx)
                    }
                  else Some (the new_range)
              | None \<Rightarrow> Some (the new_range));
        eq \<leftarrow> Equals_range g r old;
        Some (if eq then (old, False) else (Some r, True))
      })"

section \<open>Redundant bounds checks\<close>

text \<open>
  \<open>CheckArrayBoundInstr::IsRedundant\<close> for the definition of the index and the boundary of the length. An index that is a
  Smi constant without a range gets one, so the graph is part of the result.
\<close>

definition IsRedundant_range :: "flow_graph \<Rightarrow> defn \<Rightarrow> Range \<Rightarrow> RangeBoundary \<Rightarrow> bool option" where
  "IsRedundant_range g index index_range len =
     do {
       mn \<leftarrow> ConstantMin g (Some index_range) kRangeBoundarySmi;
       if ConstantValue mn <s 0 then Some False
       else let mx = FromDefinition g index 0
         in do {
           max_upper \<leftarrow> UpperBound g mx;
           length_lower \<leftarrow> LowerBound g len;
           if OverflowedSmi max_upper \<or> OverflowedSmi length_lower then Some False
           else if ConstantValue max_upper <s ConstantValue length_lower then Some True
           else do {
             canonical_length \<leftarrow> CanonicalizeBoundary g len PositiveInfinity;
             if OverflowedSmi canonical_length then Some False
             else do {
               found \<leftarrow> Canonicalize_loop (CanonicalizeMaxBoundary g) (CanonicalizeMinBoundary g) g mx canonical_length;
               Some (case found of
                       None \<Rightarrow> False
                     | Some (mx, canonical_length) \<Rightarrow> boundary_offset mx <s boundary_offset canonical_length)
             }
           }
         }
     }"

definition IsRedundant :: "flow_graph \<Rightarrow> defn \<Rightarrow> RangeBoundary \<Rightarrow> (bool \<times> flow_graph) option" where
  "IsRedundant g index len =
     (case defn_range g index of
        Some r \<Rightarrow> do { res \<leftarrow> IsRedundant_range g index r len; Some (res, g) }
      | None \<Rightarrow>
          (case node g index of
             ConstantSmi c \<Rightarrow>
               let r = mk_Range (Constant c) (Constant c);
                   g = g\<lparr>defn_range := (defn_range g)(index := Some r)\<rparr>
               in do { res \<leftarrow> IsRedundant_range g index r len; Some (res, g) }
           | _ \<Rightarrow> Some (False, g)))"

end
