(* ===== verification/Range_Sound.thy ===== *)
theory Range_Sound
  imports Range_Analysis
begin

text \<open>
  What boundaries and ranges mean, the constant bounds of a boundary and of a range, and the soundness of addition and
  subtraction of ranges with symbolic boundaries.
\<close>

section \<open>What boundaries and ranges mean\<close>

text \<open>
  \<open>env\<close> gives the values of the definitions that have one: a definition on a path that is not taken, or that is not reached yet, has none.
  \<open>above\<close> and \<open>below\<close> say that a value is on the right side of a lower and an upper boundary; a symbolic boundary needs a symbol with a
  value. A graph is \<open>consistent\<close> with \<open>env\<close> when every definition with a value is a Smi in its range, a constraint has the value of its
  input, Smi additions and subtractions do not overflow, and definitions that common subexpression elimination identifies do not
  have two values.
\<close>

type_synonym environment = "defn \<Rightarrow> int option"

definition smi :: "int \<Rightarrow> bool" where "smi v \<longleftrightarrow> - (2 ^ 62) \<le> v \<and> v < 2 ^ 62"
definition int64 :: "int \<Rightarrow> bool" where "int64 v \<longleftrightarrow> - (2 ^ 63) \<le> v \<and> v < 2 ^ 63"

fun above :: "environment \<Rightarrow> RangeBoundary \<Rightarrow> int \<Rightarrow> bool" where
  "above env (Constant c) v \<longleftrightarrow> sint c \<le> v"
| "above env (Symbol d offs) v \<longleftrightarrow> (case env d of Some x \<Rightarrow> x + sint offs \<le> v | None \<Rightarrow> False)"
| "above env NegativeInfinity v \<longleftrightarrow> True"
| "above env _ v \<longleftrightarrow> False"

fun below :: "environment \<Rightarrow> RangeBoundary \<Rightarrow> int \<Rightarrow> bool" where
  "below env (Constant c) v \<longleftrightarrow> v \<le> sint c"
| "below env (Symbol d offs) v \<longleftrightarrow> (case env d of Some x \<Rightarrow> v \<le> x + sint offs | None \<Rightarrow> False)"
| "below env PositiveInfinity v \<longleftrightarrow> True"
| "below env _ v \<longleftrightarrow> False"

definition contains :: "environment \<Rightarrow> Range \<Rightarrow> int \<Rightarrow> bool" where
  "contains env r v \<longleftrightarrow> above env (range_min r) v \<and> below env (range_max r) v"

fun node_ok :: "environment \<Rightarrow> Definition \<Rightarrow> int \<Rightarrow> bool" where
  "node_ok env (ConstantSmi c) v \<longleftrightarrow> v = sint c"
| "node_ok env (Constraint d) v \<longleftrightarrow> env d = Some v"
| "node_ok env (BinarySmiOp op l r) v \<longleftrightarrow>
     (case (env l, env r) of
        (Some x, Some y) \<Rightarrow> (op = kADD \<longrightarrow> v = x + y) \<and> (op = kSUB \<longrightarrow> v = x - y)
      | _ \<Rightarrow> False)"
| "node_ok env _ v \<longleftrightarrow> True"

definition consistent :: "flow_graph \<Rightarrow> environment \<Rightarrow> bool" where
  "consistent g env \<longleftrightarrow>
     (\<forall>d v. env d = Some v \<longrightarrow> smi v \<and> node_ok env (node g d) v \<and>
          (\<forall>r. defn_range g d = Some r \<longrightarrow> contains env r v) \<and>
          (\<forall>d' w. cse_equal g d d' \<and> env d' = Some w \<longrightarrow> v = w))"

section \<open>Words and integers\<close>

lemma sint_bounds: "int64 (sint (w :: i64))"
  using sint_range64 [of w] by (simp add: int64_def)

lemma sint_word_of_int64: "int64 v \<Longrightarrow> sint (word_of_int v :: i64) = v"
  by (simp add: int64_def sint_of_int64)

lemma sint_add_exact: "int64 (sint a + sint b) \<Longrightarrow> sint (a + b :: i64) = sint a + sint b"
  by (simp add: sint_add64 signed_take_bit_id int64_def)

lemma sint_sub_exact: "int64 (sint a - sint b) \<Longrightarrow> sint (a - b :: i64) = sint a - sint b"
  by (simp add: sint_sub64 signed_take_bit_id int64_def)

lemma sint_mult_exact: "int64 (sint a * sint b) \<Longrightarrow> sint (a * b :: i64) = sint a * sint b"
proof -
  assume "int64 (sint a * sint b)"
  moreover have "word_of_int (sint a * sint b) = a * b" by (simp add: wi_hom_syms)
  ultimately show ?thesis using sint_word_of_int64 by metis
qed

lemma smi_constants: "sint kSmiMin = - (2 ^ 62)" "sint kSmiMax = 2 ^ 62 - 1" "sint kMinInt64 = - (2 ^ 63)" "sint kMaxInt64 = 2 ^ 63 - 1"
  by (simp_all add: kSmiMin_def kSmiMax_def kMinInt64_def kMaxInt64_def sint_word_min sint_word_max)

lemmas signed_compare = word_sle_eq word_sless_alt

lemma no_overflow:
  "\<not> WillAddOverflow a b \<Longrightarrow> sint (a + b) = sint a + sint b"
  "\<not> WillSubOverflow a b \<Longrightarrow> sint (a - b) = sint a - sint b"
  by (simp_all add: WillAddOverflow_iff WillSubOverflow_iff sint_add_exact sint_sub_exact int64_def)

lemma valid_offset: "IsValidOffsetForSymbolicRangeBoundary offs \<longleftrightarrow> - (2 ^ 62) \<le> sint offs \<and> sint offs \<le> 2 ^ 62"
proof -
  have "sint (kMaxInt64 - kSmiMax) = 2 ^ 62" "sint (kMinInt64 - kSmiMin) = - (2 ^ 62)"
    by (simp_all add: sint_sub_exact smi_constants int64_def)
  then show ?thesis by (auto simp: IsValidOffsetForSymbolicRangeBoundary_def signed_compare)
qed

section \<open>Bounds of boundaries\<close>

definition size_min :: "RangeSize \<Rightarrow> int" where
  "size_min sz = (case sz of kRangeBoundarySmi \<Rightarrow> - (2 ^ 62) | kRangeBoundaryInt32 \<Rightarrow> - (2 ^ 31) | kRangeBoundaryInt64 \<Rightarrow> - (2 ^ 63))"
definition size_max :: "RangeSize \<Rightarrow> int" where
  "size_max sz = (case sz of kRangeBoundarySmi \<Rightarrow> 2 ^ 62 - 1 | kRangeBoundaryInt32 \<Rightarrow> 2 ^ 31 - 1 | kRangeBoundaryInt64 \<Rightarrow> 2 ^ 63 - 1)"

definition of_size :: "RangeSize \<Rightarrow> int \<Rightarrow> bool" where
  "of_size sz v \<longleftrightarrow> size_min sz \<le> v \<and> v \<le> size_max sz"

lemma of_size_simps: "of_size kRangeBoundarySmi v \<longleftrightarrow> smi v" "of_size kRangeBoundaryInt64 v \<longleftrightarrow> int64 v"
  by (auto simp: of_size_def size_min_def size_max_def smi_def int64_def)

lemma sint_size_constants: "\<exists>c. MinConstant sz = Constant c \<and> sint c = size_min sz" "\<exists>c. MaxConstant sz = Constant c \<and> sint c = size_max sz"
  by (cases sz; simp add: MinConstant_def MaxConstant_def size_min_def size_max_def smi_constants)+

definition lower_value :: "RangeBoundary \<Rightarrow> bool" where
  "lower_value b \<longleftrightarrow> b = NegativeInfinity \<or> IsConstant b"
definition upper_value :: "RangeBoundary \<Rightarrow> bool" where
  "upper_value b \<longleftrightarrow> b = PositiveInfinity \<or> IsConstant b"

lemma IsConstantE: "IsConstant b \<Longrightarrow> (\<And>c. b = Constant c \<Longrightarrow> P) \<Longrightarrow> P" by (cases b) auto

lemma Clamp_value:
  "lower_value b \<or> upper_value b \<Longrightarrow> IsConstant (Clamp_boundary b sz)"
  by (cases sz; cases b) (auto simp: Clamp_boundary_def lower_value_def upper_value_def IsNegativeInfinity_def IsPositiveInfinity_def MinConstant_def MaxConstant_def)

lemma Clamp_above:
  assumes "above env b v" "size_min sz \<le> v"
  shows "above env (Clamp_boundary b sz) v"
proof -
  obtain c d where "MinConstant sz = Constant c" "sint c = size_min sz" "MaxConstant sz = Constant d" "sint d = size_max sz"
    using sint_size_constants [of sz] by blast
  then show ?thesis using assms
    by (cases b) (auto simp: Clamp_boundary_def IsNegativeInfinity_def IsPositiveInfinity_def signed_compare)
qed

lemma Clamp_below:
  assumes "below env b v" "v \<le> size_max sz"
  shows "below env (Clamp_boundary b sz) v"
proof -
  obtain c d where "MinConstant sz = Constant c" "sint c = size_min sz" "MaxConstant sz = Constant d" "sint d = size_max sz"
    using sint_size_constants [of sz] by blast
  then show ?thesis using assms
    by (cases b) (auto simp: Clamp_boundary_def IsNegativeInfinity_def IsPositiveInfinity_def signed_compare)
qed

lemma Add_above:
  assumes "lower_value a" "lower_value b" "above env a x" "above env b y"
  shows "above env (Add_boundary a b NegativeInfinity) (x + y) \<and> lower_value (Add_boundary a b NegativeInfinity)"
  using assms by (cases a; cases b) (auto simp: Add_boundary_def lower_value_def IsInfinity_def IsNegativeInfinity_def IsPositiveInfinity_def no_overflow)

lemma Add_below:
  assumes "upper_value a" "upper_value b" "below env a x" "below env b y"
  shows "below env (Add_boundary a b PositiveInfinity) (x + y) \<and> upper_value (Add_boundary a b PositiveInfinity)"
  using assms by (cases a; cases b) (auto simp: Add_boundary_def upper_value_def IsInfinity_def IsNegativeInfinity_def IsPositiveInfinity_def no_overflow)

lemma Sub_above:
  assumes "lower_value a" "upper_value b" "above env a x" "below env b y"
  shows "above env (Sub_boundary a b NegativeInfinity) (x - y) \<and> lower_value (Sub_boundary a b NegativeInfinity)"
  using assms by (cases a; cases b) (auto simp: Sub_boundary_def lower_value_def upper_value_def IsInfinity_def IsNegativeInfinity_def IsPositiveInfinity_def no_overflow)

lemma Sub_below:
  assumes "upper_value a" "lower_value b" "below env a x" "above env b y"
  shows "below env (Sub_boundary a b PositiveInfinity) (x - y) \<and> upper_value (Sub_boundary a b PositiveInfinity)"
  using assms by (cases a; cases b) (auto simp: Sub_boundary_def lower_value_def upper_value_def IsInfinity_def IsNegativeInfinity_def IsPositiveInfinity_def no_overflow)

lemma Add_value: "Add_boundary a b NegativeInfinity = NegativeInfinity \<or> IsConstant (Add_boundary a b NegativeInfinity)"
    "Add_boundary a b PositiveInfinity = PositiveInfinity \<or> IsConstant (Add_boundary a b PositiveInfinity)"
  by (auto simp: Add_boundary_def)

lemma consistentD:
  assumes "consistent g env" "env d = Some x"
  shows "smi x" "node_ok env (node g d) x" "defn_range g d = Some r \<Longrightarrow> contains env r x"
    "cse_equal g d d' \<Longrightarrow> env d' = Some y \<Longrightarrow> x = y"
  using assms by (auto simp: consistent_def)

lemma LowerBound_sound':
  assumes "LowerBound g b = Some lb"
  shows "consistent g env \<longrightarrow> lower_value lb \<and> (\<forall>v. above env b v \<longrightarrow> above env lb v)"
proof (rule LowerBound.raw_induct [OF _ assms], intro impI)
  fix LB g b lb
  assume IH: "\<And>g b lb. LB g b = Some lb \<Longrightarrow> consistent g env \<longrightarrow> lower_value lb \<and> (\<forall>v. above env b v \<longrightarrow> above env lb v)"
    and body: "(case b of
        Symbol d offs \<Rightarrow>
          do {
            m \<leftarrow> (case defn_range g d of
                    None \<Rightarrow> Some (MinConstant kRangeBoundarySmi)
                  | Some r \<Rightarrow> do { lb \<leftarrow> LB g (range_min r); Some (Clamp_boundary lb kRangeBoundarySmi) });
            Some (Add_boundary m (Constant offs) NegativeInfinity)
          }
      | Constant c \<Rightarrow> Some b
      | Unknown \<Rightarrow> None
      | _ \<Rightarrow> Some NegativeInfinity) = Some lb"
    and c: "consistent g env"
  show "lower_value lb \<and> (\<forall>v. above env b v \<longrightarrow> above env lb v)"
  proof (cases b)
    case (Symbol d offs)
    have val: "lower_value lb"
      using body Symbol Add_value(1) by (auto simp: lower_value_def split: bind_splits option.splits)
    show ?thesis
    proof (intro conjI allI impI)
      fix v assume a: "above env b v"
      then obtain x where x: "env d = Some x" using Symbol by (auto split: option.splits)
      obtain m where m: "lb = Add_boundary m (Constant offs) NegativeInfinity" "IsConstant m" "above env m x"
      proof (cases "defn_range g d")
        case None
        then show ?thesis using body Symbol that [of "MinConstant kRangeBoundarySmi"] sint_size_constants(1) [of kRangeBoundarySmi]
            consistentD(1) [OF c x] by (auto simp: size_min_def smi_def)
      next
        case (Some r)
        then obtain l where l: "LB g (range_min r) = Some l" "lb = Add_boundary (Clamp_boundary l kRangeBoundarySmi) (Constant offs) NegativeInfinity"
          using body Symbol by (auto split: bind_splits)
        have "above env l x" "lower_value l"
          using IH [OF l(1)] c consistentD(3) [OF c x Some] by (auto simp: contains_def)
        then show ?thesis
          using that [OF l(2)] Clamp_value [of l] Clamp_above [of env l x kRangeBoundarySmi] consistentD(1) [OF c x] by (auto simp: size_min_def smi_def)
      qed
      have "lower_value m" "lower_value (Constant offs)" using m by (auto simp: lower_value_def)
      then have "above env lb (x + sint offs)" unfolding m(1) using m Add_above [of m "Constant offs" env x "sint offs"] by simp
      then show "above env lb v" using a x val unfolding Symbol by (cases lb) (auto simp: lower_value_def)
    qed (rule val)
  qed (use body in \<open>auto simp: lower_value_def\<close>)
qed

lemma UpperBound_sound':
  assumes "UpperBound g b = Some ub"
  shows "consistent g env \<longrightarrow> upper_value ub \<and> (\<forall>v. below env b v \<longrightarrow> below env ub v)"
proof (rule UpperBound.raw_induct [OF _ assms], intro impI)
  fix UB g b ub
  assume IH: "\<And>g b ub. UB g b = Some ub \<Longrightarrow> consistent g env \<longrightarrow> upper_value ub \<and> (\<forall>v. below env b v \<longrightarrow> below env ub v)"
    and body: "(case b of
        Symbol d offs \<Rightarrow>
          do {
            m \<leftarrow> (case defn_range g d of
                    None \<Rightarrow> Some (MaxConstant kRangeBoundarySmi)
                  | Some r \<Rightarrow> do { ub \<leftarrow> UB g (range_max r); Some (Clamp_boundary ub kRangeBoundarySmi) });
            Some (Add_boundary m (Constant offs) PositiveInfinity)
          }
      | Constant c \<Rightarrow> Some b
      | Unknown \<Rightarrow> None
      | _ \<Rightarrow> Some PositiveInfinity) = Some ub"
    and c: "consistent g env"
  show "upper_value ub \<and> (\<forall>v. below env b v \<longrightarrow> below env ub v)"
  proof (cases b)
    case (Symbol d offs)
    have val: "upper_value ub"
      using body Symbol Add_value(2) by (auto simp: upper_value_def split: bind_splits option.splits)
    show ?thesis
    proof (intro conjI allI impI)
      fix v assume a: "below env b v"
      then obtain x where x: "env d = Some x" using Symbol by (auto split: option.splits)
      obtain m where m: "ub = Add_boundary m (Constant offs) PositiveInfinity" "IsConstant m" "below env m x"
      proof (cases "defn_range g d")
        case None
        then show ?thesis using body Symbol that [of "MaxConstant kRangeBoundarySmi"] sint_size_constants(2) [of kRangeBoundarySmi]
            consistentD(1) [OF c x] by (auto simp: size_max_def smi_def)
      next
        case (Some r)
        then obtain l where l: "UB g (range_max r) = Some l" "ub = Add_boundary (Clamp_boundary l kRangeBoundarySmi) (Constant offs) PositiveInfinity"
          using body Symbol by (auto split: bind_splits)
        have "below env l x" "upper_value l"
          using IH [OF l(1)] c consistentD(3) [OF c x Some] by (auto simp: contains_def)
        then show ?thesis
          using that [OF l(2)] Clamp_value [of l] Clamp_below [of env l x kRangeBoundarySmi] consistentD(1) [OF c x] by (auto simp: size_max_def smi_def)
      qed
      have "upper_value m" "upper_value (Constant offs)" using m by (auto simp: upper_value_def)
      then have "below env ub (x + sint offs)" unfolding m(1) using m Add_below [of m "Constant offs" env x "sint offs"] by simp
      then show "below env ub v" using a x val unfolding Symbol by (cases ub) (auto simp: upper_value_def)
    qed (rule val)
  qed (use body in \<open>auto simp: upper_value_def\<close>)
qed

lemma LowerBound_sound:
  assumes "consistent g env" "LowerBound g b = Some lb"
  shows "lower_value lb" "above env b v \<Longrightarrow> above env lb v"
  using LowerBound_sound' [OF assms(2), of env] assms(1) by blast+

lemma UpperBound_sound:
  assumes "consistent g env" "UpperBound g b = Some ub"
  shows "upper_value ub" "below env b v \<Longrightarrow> below env ub v"
  using UpperBound_sound' [OF assms(2), of env] assms(1) by blast+

text \<open>A constant lower and upper bound of a range, for a value of the range.\<close>

lemma ConstantMin_sound:
  assumes "consistent g env" "ConstantMin g (Some r) sz = Some mn" "contains env r v" "of_size sz v"
  shows "IsConstant mn" "sint (ConstantValue mn) \<le> v"
proof -
  obtain lb where lb: "LowerBound g (range_min r) = Some lb" "mn = Clamp_boundary lb sz"
    using assms(2) by (auto simp: ConstantMin_def split: bind_splits)
  then show c: "IsConstant mn" using LowerBound_sound(1) [OF assms(1) lb(1)] Clamp_value by auto
  have "above env mn v" unfolding lb(2) using LowerBound_sound(2) [OF assms(1) lb(1)] assms(3,4)
    by (intro Clamp_above) (auto simp: contains_def of_size_def)
  with c show "sint (ConstantValue mn) \<le> v" by (auto elim: IsConstantE)
qed

lemma ConstantMax_sound:
  assumes "consistent g env" "ConstantMax g (Some r) sz = Some mx" "contains env r v" "of_size sz v"
  shows "IsConstant mx" "v \<le> sint (ConstantValue mx)"
proof -
  obtain ub where ub: "UpperBound g (range_max r) = Some ub" "mx = Clamp_boundary ub sz"
    using assms(2) by (auto simp: ConstantMax_def split: bind_splits)
  then show c: "IsConstant mx" using UpperBound_sound(1) [OF assms(1) ub(1)] Clamp_value by auto
  have "below env mx v" unfolding ub(2) using UpperBound_sound(2) [OF assms(1) ub(1)] assms(3,4)
    by (intro Clamp_below) (auto simp: contains_def of_size_def)
  with c show "v \<le> sint (ConstantValue mx)" by (auto elim: IsConstantE)
qed

section \<open>Arithmetic on ranges\<close>

text \<open>The operations of Dart on 64-bit integers; \<^const>\<open>None\<close> is an exception.\<close>

definition int64_op :: "TokenKind \<Rightarrow> i64 \<Rightarrow> i64 \<Rightarrow> i64 option" where
  "int64_op op x y =
     (case op of
        kADD \<Rightarrow> Some (x + y)
      | kSUB \<Rightarrow> Some (x - y)
      | kMUL \<Rightarrow> Some (x * y)
      | kTRUNCDIV \<Rightarrow> if y = 0 then None else Some (word_of_int (sgn (sint x) * sgn (sint y) * (\<bar>sint x\<bar> div \<bar>sint y\<bar>)))
      | kMOD \<Rightarrow> if y = 0 then None else Some (word_of_int (sint x mod \<bar>sint y\<bar>))
      | kSHL \<Rightarrow> if y <s 0 then None else Some (if 63 <s y then 0 else push_bit (unat y) x)
      | kSHR \<Rightarrow> if y <s 0 then None else Some (signed_drop_bit (if 63 <s y then 63 else unat y) x)
      | kBIT_AND \<Rightarrow> Some (x AND y)
      | kBIT_OR \<Rightarrow> Some (x OR y)
      | kBIT_XOR \<Rightarrow> Some (x XOR y)
      | _ \<Rightarrow> None)"

text \<open>The result of the operations that can overflow, as an integer.\<close>

definition exact_op :: "TokenKind \<Rightarrow> int \<Rightarrow> int \<Rightarrow> int option" where
  "exact_op op x y =
     (case op of
        kADD \<Rightarrow> Some (x + y)
      | kSUB \<Rightarrow> Some (x - y)
      | kMUL \<Rightarrow> Some (x * y)
      | kTRUNCDIV \<Rightarrow> Some (sgn x * sgn y * (\<bar>x\<bar> div \<bar>y\<bar>))
      | kSHL \<Rightarrow> Some (x * 2 ^ nat y)
      | _ \<Rightarrow> None)"

lemma contains_Full: "contains env (Full kRangeBoundaryInt64) (sint (z :: i64))"
  using sint_range64 [of z] by (simp add: contains_def Full_def MinConstant_def MaxConstant_def smi_constants)

text \<open>The boundaries of a result: both hold, unless one is infinite.\<close>

definition bounds_ok :: "environment \<Rightarrow> RangeBoundary \<times> RangeBoundary \<Rightarrow> int \<Rightarrow> bool" where
  "bounds_ok env b v \<longleftrightarrow> IsInfinity (fst b) \<or> IsInfinity (snd b) \<or> above env (fst b) v \<and> below env (snd b) v"

text \<open>And the result \<open>z\<close> of 64 bits is then the integer \<open>v\<close>.\<close>

definition bounds_exact :: "environment \<Rightarrow> RangeBoundary \<times> RangeBoundary \<Rightarrow> int \<Rightarrow> i64 \<Rightarrow> bool" where
  "bounds_exact env b v z \<longleftrightarrow> bounds_ok env b (sint z) \<and> (IsInfinity (fst b) \<or> IsInfinity (snd b) \<or> sint z = v)"

lemma mk_Range_contains: "bounds_ok env (mn, mx) (sint z) \<Longrightarrow> contains env (mk_Range mn mx) (sint (z :: i64))"
  unfolding mk_Range_def using contains_Full by (auto simp: bounds_ok_def contains_def)

text \<open>A boundary that bounds 64-bit values only: constants, and symbols with a valid offset.\<close>

fun fits64 :: "environment \<Rightarrow> RangeBoundary \<Rightarrow> bool" where
  "fits64 env (Symbol d offs) \<longleftrightarrow> (case env d of Some x \<Rightarrow> int64 (x + sint offs) | None \<Rightarrow> True)"
| "fits64 env b \<longleftrightarrow> True"

lemma fits64_int64:
  assumes "fits64 env mn" "fits64 env mx" "above env mn v" "below env mx v" "\<not> IsInfinity mn" "\<not> IsInfinity mx"
  shows "int64 v"
proof -
  have "- (2 ^ 63) \<le> v"
    using assms(1,3,5) sint_range64 [of "ConstantValue mn"] by (cases mn) (auto simp: int64_def IsInfinity_def IsNegativeInfinity_def split: option.splits)
  moreover have "v < 2 ^ 63"
    using assms(2,4,6) sint_range64 [of "ConstantValue mx"] by (cases mx) (auto simp: int64_def IsInfinity_def IsPositiveInfinity_def split: option.splits)
  ultimately show ?thesis by (simp add: int64_def)
qed

lemma FromDefinition_exact:
  assumes c: "consistent g env" and d: "env d = Some x" and v: "- (2 ^ 62) \<le> sint offs" "sint offs \<le> 2 ^ 62"
  shows "above env (FromDefinition g d offs) v \<longleftrightarrow> x + sint offs \<le> v"
    "below env (FromDefinition g d offs) v \<longleftrightarrow> v \<le> x + sint offs"
proof -
  have s: "smi x" using consistentD(1) [OF c d] .
  have "sint (k + offs) = x + sint offs" if "node g d = ConstantSmi k" for k
    using consistentD(2) [OF c d] that s v by (subst sint_add_exact) (auto simp: int64_def smi_def)
  then show "above env (FromDefinition g d offs) v \<longleftrightarrow> x + sint offs \<le> v"
    "below env (FromDefinition g d offs) v \<longleftrightarrow> v \<le> x + sint offs"
    using d by (auto simp: FromDefinition_def split: Definition.splits)
qed

lemma FromDefinition_fits:
  assumes c: "consistent g env" and v: "- (2 ^ 62) \<le> sint offs" "sint offs \<le> 2 ^ 62"
  shows "fits64 env (FromDefinition g d offs)"
  using consistentD(1) [OF c, of d] v by (auto simp: FromDefinition_def int64_def smi_def split: Definition.splits option.splits)

lemma FromDefinition_finite: "\<not> IsInfinity (FromDefinition g d offs)"
  by (auto simp: FromDefinition_def IsInfinity_def IsNegativeInfinity_def IsPositiveInfinity_def split: Definition.splits)

lemma SymbolicAdd_sound:
  assumes c: "consistent g env" and s: "SymbolicAdd g a b = Some r"
  shows "above env a x \<Longrightarrow> above env b y \<Longrightarrow> above env r (x + y)"
    "below env a x \<Longrightarrow> below env b y \<Longrightarrow> below env r (x + y)" "fits64 env r"
proof -
  have k: "SymbolicAdd_symbol g (Symbol d offs) (Constant k) = Some r \<Longrightarrow>
      \<not> WillAddOverflow offs k \<and> - (2 ^ 62) \<le> sint (offs + k) \<and> sint (offs + k) \<le> 2 ^ 62 \<and> r = FromDefinition g d (offs + k)" for d offs k
    by (auto simp: SymbolicAdd_symbol_def Let_def valid_offset split: if_splits)
  obtain d offs k where e: "(a = Symbol d offs \<and> b = Constant k) \<or> (b = Symbol d offs \<and> a = Constant k)"
    "SymbolicAdd_symbol g (Symbol d offs) (Constant k) = Some r"
    using s by (cases a; cases b) (auto simp: SymbolicAdd_def)
  note k = k [OF e(2)]
  then have "sint (offs + k) = sint offs + sint k" by (simp add: no_overflow)
  then show "above env a x \<Longrightarrow> above env b y \<Longrightarrow> above env r (x + y)"
    "below env a x \<Longrightarrow> below env b y \<Longrightarrow> below env r (x + y)" "fits64 env r"
    using e(1) k FromDefinition_exact [OF c, of d _ "offs + k"] FromDefinition_fits [OF c, of "offs + k" d] by (auto split: option.splits)
qed

lemma SymbolicSub_sound:
  assumes c: "consistent g env" and s: "SymbolicSub g a b = Some r"
  shows "above env a x \<Longrightarrow> below env b y \<Longrightarrow> above env r (x - y)"
    "below env a x \<Longrightarrow> above env b y \<Longrightarrow> below env r (x - y)" "fits64 env r"
proof -
  obtain d offs k where e: "a = Symbol d offs" "b = Constant k" "\<not> WillSubOverflow offs k"
      "- (2 ^ 62) \<le> sint (offs - k)" "sint (offs - k) \<le> 2 ^ 62" "r = FromDefinition g d (offs - k)"
    using s by (cases a; cases b) (auto simp: SymbolicSub_def Let_def valid_offset split: if_splits)
  moreover from e have "sint (offs - k) = sint offs - sint k" by (simp add: no_overflow)
  ultimately show "above env a x \<Longrightarrow> below env b y \<Longrightarrow> above env r (x - y)"
    "below env a x \<Longrightarrow> above env b y \<Longrightarrow> below env r (x - y)" "fits64 env r"
    using FromDefinition_exact [OF c, of d _ "offs - k"] FromDefinition_fits [OF c, of "offs - k" d] by (auto split: option.splits)
qed

lemma lower_value_fits: "lower_value b \<or> upper_value b \<Longrightarrow> fits64 env b"
  by (cases b) (auto simp: lower_value_def upper_value_def)

lemma bounds_exactI:
  assumes "fits64 env mn" "fits64 env mx" "above env mn v" "below env mx v" and "int64 v \<Longrightarrow> sint z = v"
  shows "bounds_exact env (mn, mx) v z"
proof (cases "IsInfinity mn \<or> IsInfinity mx")
  case False
  then show ?thesis using fits64_int64 [OF assms(1-4)] assms(3-5) by (auto simp: bounds_exact_def bounds_ok_def)
qed (auto simp: bounds_exact_def bounds_ok_def)

lemma Range_Add_sound:
  fixes x y :: i64
  assumes c: "consistent g env" and l: "contains env l (sint x)" and r: "contains env r (sint y)"
    and d: "IsArrayLength g left_defn = Some True \<longrightarrow> env (the left_defn) = Some (sint x)"
    and e: "Range_Add g l r left_defn = Some b"
  shows "bounds_exact env b (sint x + sint y) (x + y)"
proof -
  obtain len mn mx where len: "IsArrayLength g left_defn = Some len" and b: "b = (mn, mx)"
    and mn: "(case SymbolicAdd g (if len then FromDefinition g (the left_defn) 0 else range_min l) (range_min r) of
                 Some b \<Rightarrow> Some b
               | None \<Rightarrow> do { a \<leftarrow> LowerBound g (range_min l); b \<leftarrow> LowerBound g (range_min r);
                              Some (Add_boundary a b NegativeInfinity) }) = Some mn"
    and mx: "(case SymbolicAdd g (if len then FromDefinition g (the left_defn) 0 else range_max l) (range_max r) of
                 Some b \<Rightarrow> Some b
               | None \<Rightarrow> do { b \<leftarrow> UpperBound g (range_max r); a \<leftarrow> UpperBound g (range_max l);
                              Some (Add_boundary b a PositiveInfinity) }) = Some mx"
    using e unfolding Range_Add_def Let_def by (auto simp: Option.bind_eq_Some_conv)
  have s: "above env (if len then FromDefinition g (the left_defn) 0 else range_min l) (sint x)"
    "below env (if len then FromDefinition g (the left_defn) 0 else range_max l) (sint x)"
    using l d len FromDefinition_exact(1,2) [OF c, of "the left_defn" "sint x" 0] by (auto simp: contains_def)
  have "fits64 env mn \<and> above env mn (sint x + sint y)"
  proof (cases "SymbolicAdd g (if len then FromDefinition g (the left_defn) 0 else range_min l) (range_min r)")
    case (Some b)
    then show ?thesis using mn SymbolicAdd_sound [OF c Some] s r by (simp add: contains_def)
  next
    case None
    then obtain a b where "LowerBound g (range_min l) = Some a" "LowerBound g (range_min r) = Some b" "mn = Add_boundary a b NegativeInfinity"
      using mn by (auto simp: Option.bind_eq_Some_conv)
    then show ?thesis
      using Add_above [of a b env "sint x" "sint y"] LowerBound_sound [OF c] l r lower_value_fits by (auto simp: contains_def)
  qed
  moreover have "fits64 env mx \<and> below env mx (sint x + sint y)"
  proof (cases "SymbolicAdd g (if len then FromDefinition g (the left_defn) 0 else range_max l) (range_max r)")
    case (Some b)
    then show ?thesis using mx SymbolicAdd_sound [OF c Some] s r by (simp add: contains_def)
  next
    case None
    then obtain a b where "UpperBound g (range_max l) = Some a" "UpperBound g (range_max r) = Some b" "mx = Add_boundary b a PositiveInfinity"
      using mx by (auto simp: Option.bind_eq_Some_conv)
    then show ?thesis
      using Add_below [of b a env "sint y" "sint x"] UpperBound_sound [OF c] l r lower_value_fits by (auto simp: contains_def add.commute)
  qed
  ultimately show ?thesis unfolding b by (intro bounds_exactI) (auto simp: sint_add_exact)
qed

lemma Range_Sub_sound:
  fixes x y :: i64
  assumes c: "consistent g env" and l: "contains env l (sint x)" and r: "contains env r (sint y)"
    and d: "IsArrayLength g left_defn = Some True \<longrightarrow> env (the left_defn) = Some (sint x)"
    and e: "Range_Sub g l r left_defn = Some b"
  shows "bounds_exact env b (sint x - sint y) (x - y)"
proof -
  obtain len mn mx where len: "IsArrayLength g left_defn = Some len" and b: "b = (mn, mx)"
    and mn: "(case SymbolicSub g (if len then FromDefinition g (the left_defn) 0 else range_min l) (range_max r) of
                 Some b \<Rightarrow> Some b
               | None \<Rightarrow> do { a \<leftarrow> LowerBound g (range_min l); b \<leftarrow> UpperBound g (range_max r);
                              Some (Sub_boundary a b NegativeInfinity) }) = Some mn"
    and mx: "(case SymbolicSub g (if len then FromDefinition g (the left_defn) 0 else range_max l) (range_min r) of
                 Some b \<Rightarrow> Some b
               | None \<Rightarrow> do { a \<leftarrow> UpperBound g (range_max l); b \<leftarrow> LowerBound g (range_min r);
                              Some (Sub_boundary a b PositiveInfinity) }) = Some mx"
    using e unfolding Range_Sub_def Let_def by (auto simp: Option.bind_eq_Some_conv)
  have s: "above env (if len then FromDefinition g (the left_defn) 0 else range_min l) (sint x)"
    "below env (if len then FromDefinition g (the left_defn) 0 else range_max l) (sint x)"
    using l d len FromDefinition_exact(1,2) [OF c, of "the left_defn" "sint x" 0] by (auto simp: contains_def)
  have "fits64 env mn \<and> above env mn (sint x - sint y)"
  proof (cases "SymbolicSub g (if len then FromDefinition g (the left_defn) 0 else range_min l) (range_max r)")
    case (Some b)
    then show ?thesis using mn SymbolicSub_sound [OF c Some] s r by (simp add: contains_def)
  next
    case None
    then obtain a b where "LowerBound g (range_min l) = Some a" "UpperBound g (range_max r) = Some b" "mn = Sub_boundary a b NegativeInfinity"
      using mn by (auto simp: Option.bind_eq_Some_conv)
    then show ?thesis
      using Sub_above [of a b env "sint x" "sint y"] LowerBound_sound [OF c] UpperBound_sound [OF c] l r lower_value_fits
      by (auto simp: contains_def)
  qed
  moreover have "fits64 env mx \<and> below env mx (sint x - sint y)"
  proof (cases "SymbolicSub g (if len then FromDefinition g (the left_defn) 0 else range_max l) (range_min r)")
    case (Some b)
    then show ?thesis using mx SymbolicSub_sound [OF c Some] s r by (simp add: contains_def)
  next
    case None
    then obtain a b where "UpperBound g (range_max l) = Some a" "LowerBound g (range_min r) = Some b" "mx = Sub_boundary a b PositiveInfinity"
      using mx by (auto simp: Option.bind_eq_Some_conv)
    then show ?thesis
      using Sub_below [of a b env "sint x" "sint y"] LowerBound_sound [OF c] UpperBound_sound [OF c] l r lower_value_fits
      by (auto simp: contains_def)
  qed
  ultimately show ?thesis unfolding b by (intro bounds_exactI) (auto simp: sint_sub_exact)
qed

text \<open>The constants the other operations compute with.\<close>

lemma constant_bounds:
  fixes x :: i64
  assumes "consistent g env" "contains env r (sint x)"
  shows "ConstantMin g (Some r) kRangeBoundaryInt64 = Some mn \<Longrightarrow> IsConstant mn \<and> sint (ConstantValue mn) \<le> sint x"
    "ConstantMax g (Some r) kRangeBoundaryInt64 = Some mx \<Longrightarrow> IsConstant mx \<and> sint x \<le> sint (ConstantValue mx)"
  using ConstantMin_sound [OF assms(1) _ assms(2), of kRangeBoundaryInt64] ConstantMax_sound [OF assms(1) _ assms(2), of kRangeBoundaryInt64]
    sint_bounds [of x] by (auto simp: of_size_simps)

lemma Only_sound:
  fixes x :: i64
  assumes "consistent g env" "contains env r (sint x)"
  shows "OnlyGreaterThanOrEqualTo g r k = Some True \<Longrightarrow> sint k \<le> sint x"
    "OnlyLessThanOrEqualTo g r k = Some True \<Longrightarrow> sint x \<le> sint k"
proof -
  show "sint k \<le> sint x" if o: "OnlyGreaterThanOrEqualTo g r k = Some True"
  proof -
    obtain lb where "LowerBound g (range_min r) = Some lb" "\<not> IsNegativeInfinity lb" "k \<le>s ConstantValue lb"
      using o by (auto simp: OnlyGreaterThanOrEqualTo_def Option.bind_eq_Some_conv)
    then show ?thesis using LowerBound_sound [OF assms(1), of "range_min r" lb] assms(2)
      by (cases lb) (fastforce simp: contains_def lower_value_def IsNegativeInfinity_def signed_compare)+
  qed
  show "sint x \<le> sint k" if o: "OnlyLessThanOrEqualTo g r k = Some True"
  proof -
    obtain ub where "UpperBound g (range_max r) = Some ub" "\<not> IsPositiveInfinity ub" "ConstantValue ub \<le>s k"
      using o by (auto simp: OnlyLessThanOrEqualTo_def Option.bind_eq_Some_conv)
    then show ?thesis using UpperBound_sound [OF assms(1), of "range_max r" ub] assms(2)
      by (cases ub) (fastforce simp: contains_def upper_value_def IsPositiveInfinity_def signed_compare)+
  qed
qed

lemma div_pow_mono:
  fixes v :: int
  assumes "m \<le> n"
  shows "0 \<le> v \<Longrightarrow> v div 2 ^ n \<le> v div 2 ^ m" "v \<le> 0 \<Longrightarrow> v div 2 ^ m \<le> v div 2 ^ n"
proof -
  have p: "(2 :: int) ^ m \<le> 2 ^ n" using assms by simp
  show "v div 2 ^ n \<le> v div 2 ^ m" if "0 \<le> v" using that p by (intro zdiv_mono2) simp_all
  show "v div 2 ^ m \<le> v div 2 ^ n" if "v \<le> 0"
    using that p by (cases "v = 0") (simp, intro zdiv_mono2_neg, simp_all)
qed

section \<open>An example\<close>

text \<open>
  A graph with an array length 0, an index 1 between 0 and the length minus 1, and the two constraints 2 and 3 of the index after a
  comparison with 5. In the values that agree with it the index is 3, so constraint 3 is not reached.
\<close>

definition example_graph :: flow_graph where
  "example_graph = \<lparr>node = (\<lambda>d. if d = 0 then ImmutableLengthLoad else if d = 2 \<or> d = 3 then Constraint 1 else OtherDefinition),
     defn_range = (\<lambda>d. if d = 0 then Some (mk_Range (Constant 0) (Constant kSmiMax))
                       else if d = 1 then Some (mk_Range (Constant 0) (Symbol 0 (- 1)))
                       else if d = 2 then Some (mk_Range (Constant 0) (Constant 4))
                       else if d = 3 then Some (mk_Range (Constant 5) (Symbol 0 (- 1))) else None),
     cse_equal = (\<lambda>_ _. False)\<rparr>"
definition example_env :: environment where
  "example_env d = (if d = 0 then Some 10 else if d = 1 \<or> d = 2 then Some 3 else None)"

lemma example_consistent: "consistent example_graph example_env"
  by (simp add: consistent_def example_graph_def example_env_def smi_def mk_Range_def contains_def IsInfinity_def IsNegativeInfinity_def
      IsPositiveInfinity_def smi_constants)

end
