(* ===== verification/Range_Arith.thy ===== *)
theory Range_Arith
  imports Range_Sound
begin

text \<open>
  The soundness of the other operations on ranges (shifts, bitwise operations, multiplication and truncating division), and of
  \<open>BinaryOp\<close>, which chooses among them.
\<close>

section \<open>Shifts\<close>

lemma sint_shr: "sint (signed_drop_bit n (x :: i64)) = sint x div 2 ^ n"
  by (simp add: sint_signed_drop_bit_eq drop_bit_eq_div)

text \<open>The shift count of a range, with negative counts replaced by 0.\<close>

lemma shift_count:
  fixes y :: i64
  assumes "consistent g env" "contains env r (sint y)" "\<not> y <s 0"
    and "ConstantMin g (Some r) kRangeBoundaryInt64 = Some mn" "ConstantMax g (Some r) kRangeBoundaryInt64 = Some mx"
  defines "lo \<equiv> if 0 <s ConstantValue mn then ConstantValue mn else 0" and "hi \<equiv> if 0 <s ConstantValue mx then ConstantValue mx else 0"
  shows "0 \<le> sint lo" "0 \<le> sint hi" "sint lo \<le> sint y" "sint y \<le> sint hi"
  using constant_bounds [OF assms(1,2)] assms(3-5) unfolding lo_def hi_def by (auto simp: signed_compare)

lemma unat_sint: "0 \<le> sint (k :: i64) \<Longrightarrow> int (unat k) = sint k"
  using sint_top64 [of k] u64_range [of k] by (auto split: if_splits)

lemma unat_sint_mono: "0 \<le> sint (k :: i64) \<Longrightarrow> sint k \<le> sint (m :: i64) \<Longrightarrow> unat k \<le> unat m"
  using unat_sint [of k] unat_sint [of m] by linarith

lemma unat_sint_le: "0 \<le> sint (k :: i64) \<Longrightarrow> unat k \<le> n \<longleftrightarrow> sint k \<le> int n"
  using unat_sint [of k] by linarith

lemma Shr_boundary_value:
  assumes "Shr_boundary (Constant v) k = Some b" "0 \<le> sint k"
  shows "unat k \<le> 63" "\<exists>w. b = Constant w \<and> sint w = sint v div 2 ^ unat k"
  using assms unat_sint_le [of k 63] by (auto simp: Shr_boundary_def signed_compare sint_shr split: if_splits)

lemma Range_Shr_sound:
  fixes x y :: i64
  assumes c: "consistent g env" and l: "contains env l (sint x)" and r: "contains env r (sint y)"
    and e: "Range_Shr g l r = Some b" and y: "\<not> y <s 0"
  shows "bounds_ok env b (sint (signed_drop_bit (if 63 <s y then 63 else unat y) x))"
proof -
  obtain lx ln rx rn mn mx where k: "ConstantMax g (Some l) kRangeBoundaryInt64 = Some lx" "ConstantMin g (Some l) kRangeBoundaryInt64 = Some ln"
      "ConstantMax g (Some r) kRangeBoundaryInt64 = Some rx" "ConstantMin g (Some r) kRangeBoundaryInt64 = Some rn"
    and mn: "Shr_boundary ln (if 0 <s ConstantValue ln then (if 0 <s ConstantValue rx then ConstantValue rx else 0) else (if 0 <s ConstantValue rn then ConstantValue rn else 0)) = Some mn"
    and mx: "Shr_boundary lx (if 0 <s ConstantValue lx then (if 0 <s ConstantValue rn then ConstantValue rn else 0) else (if 0 <s ConstantValue rx then ConstantValue rx else 0)) = Some mx"
    and b: "b = (mn, mx)"
    using e unfolding Range_Shr_def Let_def by (auto simp: Option.bind_eq_Some_conv)
  define lo hi where "lo = (if 0 <s ConstantValue rn then ConstantValue rn else 0)" and "hi = (if 0 <s ConstantValue rx then ConstantValue rx else 0)"
  note cnt = shift_count [OF c r y k(4,3), folded lo_def hi_def]
  obtain L U where lu: "ln = Constant L" "lx = Constant U" "sint L \<le> sint x" "sint x \<le> sint U"
    using constant_bounds(1) [OF c l k(2)] constant_bounds(2) [OF c l k(1)] by (auto elim!: IsConstantE)
  define s where "s = (if 63 <s y then 63 else unat y)"
  have y0: "0 \<le> sint y" using cnt by linarith
  have s: "unat lo \<le> s" if "unat lo \<le> 63"
    using that unat_sint_mono [OF cnt(1,3)] by (auto simp: s_def)
  have s': "s \<le> unat hi" if "unat hi \<le> 63"
    using that unat_sint_mono [OF y0 cnt(4)] unat_sint_le [OF y0, of 63] by (auto simp: s_def signed_compare)
  have d: "sint L div 2 ^ s \<le> sint x div 2 ^ s" "sint x div 2 ^ s \<le> sint U div 2 ^ s" using lu by (simp_all add: zdiv_mono1)
  have "above env mn (sint x div 2 ^ s)"
  proof (cases "0 <s L")
    case True
    then show ?thesis using Shr_boundary_value [of L hi mn] mn cnt(2) lu(1) d(1) div_pow_mono(1) [OF s', of "sint L"]
      by (auto simp: hi_def signed_compare)
  next
    case False
    then show ?thesis using Shr_boundary_value [of L lo mn] mn cnt(1) lu(1) d(1) div_pow_mono(2) [OF s, of "sint L"]
      by (auto simp: lo_def signed_compare)
  qed
  moreover have "below env mx (sint x div 2 ^ s)"
  proof (cases "0 <s U")
    case True
    then show ?thesis using Shr_boundary_value [of U lo mx] mx cnt(1) lu(2) d(2) div_pow_mono(1) [OF s, of "sint U"]
      by (auto simp: lo_def signed_compare)
  next
    case False
    then show ?thesis using Shr_boundary_value [of U hi mx] mx cnt(2) lu(2) d(2) div_pow_mono(2) [OF s', of "sint U"]
      by (auto simp: hi_def signed_compare)
  qed
  ultimately show ?thesis unfolding b sint_shr s_def [symmetric] by (simp add: bounds_ok_def)
qed

lemma IsInt_iff:
  assumes "0 < n" "n < 64"
  shows "IsInt n (v :: i64) \<longleftrightarrow> - (2 ^ (n - 1)) \<le> sint v \<and> sint v < 2 ^ (n - 1)"
proof -
  have p: "(2 :: int) ^ (n - 1) < 2 ^ 63" using assms by (intro power_strict_increasing) auto
  have "push_bit (n - 1) (1 :: i64) = word_of_int (2 ^ (n - 1))" by (simp add: push_bit_eq_mult)
  then have "sint (push_bit (n - 1) (1 :: i64)) = 2 ^ (n - 1)" "sint (- push_bit (n - 1) (1 :: i64)) = - (2 ^ (n - 1))"
    using p sint_word_of_int64 [of "2 ^ (n - 1)"] sint_word_of_int64 [of "- (2 ^ (n - 1))"]
    by (simp_all add: int64_def flip: wi_hom_neg) (smt (verit) zero_less_power)+
  then show ?thesis by (simp add: IsInt_def Let_def signed_compare)
qed

lemma sint_push_bit_exact: "int64 (sint x * 2 ^ n) \<Longrightarrow> sint (push_bit n (x :: i64)) = sint x * 2 ^ n"
proof -
  assume "int64 (sint x * 2 ^ n)"
  moreover have "push_bit n x = word_of_int (sint x * 2 ^ n)" by (simp add: push_bit_eq_mult wi_hom_syms)
  ultimately show ?thesis using sint_word_of_int64 by metis
qed

lemma Shl_boundary_value:
  assumes "\<not> IsInfinity (Shl_boundary (Constant v) k ovf)" "0 \<le> sint k" "IsInfinity ovf"
  shows "v = 0 \<or> unat k \<le> 63" "\<exists>w. Shl_boundary (Constant v) k ovf = Constant w \<and> sint w = sint v * 2 ^ unat k"
proof -
  have s: "sint (64 - k) = 64 - sint k" using assms(2) sint_range64 [of k] by (subst sint_sub_exact) (auto simp: int64_def)
  have c: "v = 0 \<or> k = 0 \<or> (0 <s 64 - k \<and> IsInt (unat (64 - k)) v)" "Shl_boundary (Constant v) k ovf = Constant (push_bit (unat k) v)"
    using assms by (auto simp: Shl_boundary_def Let_def split: if_splits)
  then show k: "v = 0 \<or> unat k \<le> 63" using s assms(2) unat_sint_le [of k 63] by (auto simp: signed_compare)
  have "int64 (sint v * 2 ^ unat k)"
  proof (cases "v = 0 \<or> k = 0")
    case True
    then show ?thesis using sint_bounds [of v] by (auto simp: int64_def)
  next
    case False
    then have k: "unat k \<le> 63" using k by simp
    have "int (unat (64 - k)) = 64 - int (unat k)" using unat_sint [of "64 - k"] unat_sint [of k] unat_sint_le [of k 63] k assms(2) s by simp
    then have u: "unat (64 - k) = 64 - unat k" using k by linarith
    have "0 < unat k" using False by (simp add: unat_gt_0)
    moreover have "IsInt (64 - unat k) v" using c(1) False u by simp
    ultimately have "- (2 ^ (63 - unat k)) \<le> sint v" "sint v < 2 ^ (63 - unat k)" using IsInt_iff [of "64 - unat k" v] k by simp_all
    then have "- (2 ^ (63 - unat k)) * 2 ^ unat k \<le> sint v * 2 ^ unat k" "sint v * 2 ^ unat k < 2 ^ (63 - unat k) * 2 ^ unat k"
      by (intro mult_right_mono mult_strict_right_mono; simp)+
    moreover have "(2 :: int) ^ (63 - unat k) * 2 ^ unat k = 2 ^ 63" using k by (simp flip: power_add)
    ultimately show ?thesis by (simp add: int64_def)
  qed
  then show "\<exists>w. Shl_boundary (Constant v) k ovf = Constant w \<and> sint w = sint v * 2 ^ unat k" using c(2) by (simp add: sint_push_bit_exact)
qed

lemma mult_pow_mono:
  fixes v :: int
  assumes "m \<le> n"
  shows "0 \<le> v \<Longrightarrow> v * 2 ^ m \<le> v * 2 ^ n" "v \<le> 0 \<Longrightarrow> v * 2 ^ n \<le> v * 2 ^ m"
  using assms by (auto intro: mult_left_mono mult_left_mono_neg)

lemma Range_Shl_sound:
  fixes x y :: i64
  assumes c: "consistent g env" and l: "contains env l (sint x)" and r: "contains env r (sint y)"
    and e: "Range_Shl g l r = Some b" and y: "\<not> y <s 0"
  shows "bounds_exact env b (sint x * 2 ^ unat y) (if 63 <s y then 0 else push_bit (unat y) x)"
proof -
  obtain lx ln rx rn mn mx where k: "ConstantMax g (Some l) kRangeBoundaryInt64 = Some lx" "ConstantMin g (Some l) kRangeBoundaryInt64 = Some ln"
      "ConstantMax g (Some r) kRangeBoundaryInt64 = Some rx" "ConstantMin g (Some r) kRangeBoundaryInt64 = Some rn"
    and mn: "mn = (if 0 <s ConstantValue ln then Shl_boundary ln (if 0 <s ConstantValue rn then ConstantValue rn else 0) PositiveInfinity
      else Shl_boundary ln (if 0 <s ConstantValue rx then ConstantValue rx else 0) NegativeInfinity)"
    and mx: "mx = (if 0 <s ConstantValue lx then Shl_boundary lx (if 0 <s ConstantValue rx then ConstantValue rx else 0) PositiveInfinity
      else Shl_boundary lx (if 0 <s ConstantValue rn then ConstantValue rn else 0) NegativeInfinity)"
    and b: "b = (mn, mx)"
    using e unfolding Range_Shl_def Let_def by (auto simp: Option.bind_eq_Some_conv)
  define lo hi where "lo = (if 0 <s ConstantValue rn then ConstantValue rn else 0)" and "hi = (if 0 <s ConstantValue rx then ConstantValue rx else 0)"
  note cnt = shift_count [OF c r y k(4,3), folded lo_def hi_def]
  obtain L U where lu: "ln = Constant L" "lx = Constant U" "sint L \<le> sint x" "sint x \<le> sint U"
    using constant_bounds(1) [OF c l k(2)] constant_bounds(2) [OF c l k(1)] by (auto elim!: IsConstantE)
  have y0: "0 \<le> sint y" using cnt by linarith
  note u = unat_sint_mono [OF cnt(1,3)] unat_sint_mono [OF y0 cnt(4)]
  have inf: "IsInfinity PositiveInfinity" "IsInfinity NegativeInfinity" by (simp_all add: IsInfinity_def IsNegativeInfinity_def IsPositiveInfinity_def)
  have d: "sint L * 2 ^ unat y \<le> sint x * 2 ^ unat y" "sint x * 2 ^ unat y \<le> sint U * 2 ^ unat y" using lu by (simp_all add: mult_right_mono)
  have a: "0 <s L \<Longrightarrow> sint L * 2 ^ unat lo \<le> sint x * 2 ^ unat y" "\<not> 0 <s L \<Longrightarrow> sint L * 2 ^ unat hi \<le> sint x * 2 ^ unat y"
    "0 <s U \<Longrightarrow> sint x * 2 ^ unat y \<le> sint U * 2 ^ unat hi" "\<not> 0 <s U \<Longrightarrow> sint x * 2 ^ unat y \<le> sint U * 2 ^ unat lo"
    using order_trans [OF mult_pow_mono(1) [OF u(1)] d(1)] order_trans [OF mult_pow_mono(2) [OF u(2)] d(1)]
      order_trans [OF d(2) mult_pow_mono(1) [OF u(2)]] order_trans [OF d(2) mult_pow_mono(2) [OF u(1)]]
    by (simp_all add: signed_compare)
  show ?thesis
  proof (cases "IsInfinity mn \<or> IsInfinity mx")
    case False
    have l': "above env mn (sint x * 2 ^ unat y) \<and> fits64 env mn \<and> (\<not> 0 <s L \<longrightarrow> L = 0 \<or> unat hi \<le> 63)"
      using Shl_boundary_value [of L lo PositiveInfinity] Shl_boundary_value [of L hi NegativeInfinity] mn [folded lo_def hi_def] cnt lu(1) inf False a(1,2)
      by (cases "0 <s L") auto
    have u': "below env mx (sint x * 2 ^ unat y) \<and> fits64 env mx \<and> (0 <s U \<longrightarrow> unat hi \<le> 63)"
      using Shl_boundary_value [of U hi PositiveInfinity] Shl_boundary_value [of U lo NegativeInfinity] mx [folded lo_def hi_def] cnt lu(2) inf False a(3,4)
      by (cases "0 <s U") auto
    have "sint x = 0 \<or> unat hi \<le> 63" using l' u' lu by (auto simp: signed_compare)
    then have "x = 0 \<or> \<not> 63 <s y" using u(2) unat_sint_le [OF y0, of 63] signed_word_eqI [of x 0] by (auto simp: signed_compare)
    then show ?thesis unfolding b using l' u' sint_push_bit_exact [of x "unat y"]
      by (intro bounds_exactI) auto
  qed (auto simp: b bounds_exact_def bounds_ok_def)
qed

section \<open>Bitwise operations\<close>

lemma BitLength_bounds:
  "- (2 ^ BitLength v) \<le> sint v" "sint v < 2 ^ BitLength v" "BitLength v \<le> 63"
proof -
  define w where "w = v XOR signed_drop_bit 63 v"
  have neg: "bit v 63 \<longleftrightarrow> sint v < 0" using sint_top64 [of v] u64_range [of v] by (auto simp: top_bit64)
  then have w: "sint w = (if sint v < 0 then - sint v - 1 else sint v)"
    by (simp add: w_def signed_drop_bit_63 sint_not64)
  have "sint w < 2 ^ BitLength v \<and> BitLength v \<le> 63"
  proof (cases "w = 0")
    case False
    define h where "h = HighestBit w"
    have "0 \<le> sint w" using w by auto
    moreover have "sint w \<noteq> 0" using False by (metis signed_0 signed_word_eqI)
    ultimately have p: "0 < sint w" by linarith
    then have "unat w div 2 ^ h = 1" using HighestBit_div [OF False] by (simp add: h_def signed_compare)
    then have "2 ^ h \<le> unat w" "unat w < 2 ^ (h + 1)"
      using div_greater_zero_iff [of "unat w" "2 ^ h"] div_less_iff_less_mult [of "2 ^ h" "unat w" 2] by simp_all
    then have b: "2 ^ h \<le> sint w" "sint w < 2 ^ (h + 1)"
      using unat_sint [of w] p by (metis less_le of_nat_le_iff of_nat_less_iff of_nat_numeral of_nat_power)+
    then have "(2 :: int) ^ h < 2 ^ 63" using sint_range64 [of w] by linarith
    then have "h < 63" by (rule power_less_imp_less_exp [rotated]) simp
    moreover have "BitLength v = h + 1" using False by (simp add: BitLength_def w_def h_def)
    ultimately show ?thesis using b by simp
  qed (simp add: BitLength_def w_def [symmetric])
  then show "- (2 ^ BitLength v) \<le> sint v" "sint v < 2 ^ BitLength v" "BitLength v \<le> 63"
    unfolding w by (auto split: if_splits)
qed

text \<open>Bitwise operations stay within the number of bits of their operands.\<close>

definition within_bits :: "nat \<Rightarrow> int \<Rightarrow> bool" where
  "within_bits n v \<longleftrightarrow> - (2 ^ n) \<le> v \<and> v < 2 ^ n"

lemma within_bits_iff: "within_bits n v \<longleftrightarrow> signed_take_bit n v = v"
  by (simp add: within_bits_def signed_take_bit_int_eq_self_iff)

lemma within_bits_ops:
  assumes "within_bits n a" "within_bits n b"
  shows "within_bits n (a AND b)" "within_bits n (a OR b)" "within_bits n (a XOR b)"
proof -
  have "signed_take_bit n (a AND b) = signed_take_bit n a AND signed_take_bit n b"
    "signed_take_bit n (a OR b) = signed_take_bit n a OR signed_take_bit n b"
    "signed_take_bit n (a XOR b) = signed_take_bit n a XOR signed_take_bit n b"
    by (rule bit_eqI, simp add: bit_simps)+
  then show "within_bits n (a AND b)" "within_bits n (a OR b)" "within_bits n (a XOR b)"
    using assms by (simp_all add: within_bits_iff)
qed

lemma within_bits_mono: "within_bits m v \<Longrightarrow> m \<le> n \<Longrightarrow> within_bits n v"
proof -
  assume "within_bits m v" "m \<le> n"
  moreover from this(2) have "(2 :: int) ^ m \<le> 2 ^ n" by (rule power_increasing) simp
  ultimately show ?thesis unfolding within_bits_def by linarith
qed

lemma sint_ops: "sint (x AND y :: i64) = sint x AND sint y" "sint (x OR y :: i64) = sint x OR sint y" "sint (x XOR y :: i64) = sint x XOR sint y"
  by (simp_all add: signed_and_eq signed_or_eq signed_xor_eq)

lemma BitSize_sound:
  fixes x :: i64
  assumes "consistent g env" "contains env r (sint x)" "BitSize g r = Some n"
  shows "within_bits n (sint x)" "n \<le> 63"
proof -
  obtain mn mx where k: "ConstantMin g (Some r) kRangeBoundaryInt64 = Some mn" "ConstantMax g (Some r) kRangeBoundaryInt64 = Some mx"
    and n: "n = max (BitLength (ConstantValue mn)) (BitLength (ConstantValue mx))"
    using assms(3) by (auto simp: BitSize_def Option.bind_eq_Some_conv)
  have "within_bits n (sint (ConstantValue mn))" "within_bits n (sint (ConstantValue mx))"
    using BitLength_bounds [of "ConstantValue mn"] BitLength_bounds [of "ConstantValue mx"]
      within_bits_mono [of "BitLength (ConstantValue mn)" _ n] within_bits_mono [of "BitLength (ConstantValue mx)" _ n]
    by (simp_all add: n) (simp_all add: within_bits_def)
  then show "within_bits n (sint x)"
    using constant_bounds(1) [OF assms(1,2) k(1)] constant_bounds(2) [OF assms(1,2) k(2)] by (auto simp: within_bits_def)
  show "n \<le> 63" using BitLength_bounds(3) by (simp add: n)
qed

lemma sint_pow_bounds:
  assumes "n \<le> 63"
  shows "sint (- (2 ^ n) :: i64) = - (2 ^ n)" "sint (2 ^ n - 1 :: i64) = 2 ^ n - 1"
proof -
  have p: "(2 :: int) ^ n \<le> 2 ^ 63" using assms by (rule power_increasing) simp
  have q: "(0 :: int) < 2 ^ n" by simp
  have "int64 (- (2 ^ n))" "int64 (2 ^ n - 1)" unfolding int64_def using p q by linarith+
  from this [THEN sint_word_of_int64] show "sint (- (2 ^ n) :: i64) = - (2 ^ n)" "sint (2 ^ n - 1 :: i64) = 2 ^ n - 1"
    by (simp_all only: wi_hom_neg [symmetric] wi_hom_sub [symmetric] word_of_int_1 word_of_int_2p)
qed

lemma Range_BitwiseOp_sound:
  fixes x y z :: i64
  assumes c: "consistent g env" and l: "contains env l (sint x)" and r: "contains env r (sint y)"
    and e: "Range_BitwiseOp g l r = Some b" and z: "z = x AND y \<or> z = x OR y \<or> z = x XOR y"
  shows "bounds_ok env b (sint z)"
proof -
  obtain bl br pl pr where k: "BitSize g l = Some bl" "BitSize g r = Some br" "IsPositive g l = Some pl" "IsPositive g r = Some pr"
    and b: "b = (Constant (if pl \<and> pr then 0 else - push_bit (max bl br) 1), Constant (push_bit (max bl br) 1 - 1))"
    using e by (auto simp: Range_BitwiseOp_def Let_def Option.bind_eq_Some_conv)
  have "within_bits (max bl br) (sint x)" "within_bits (max bl br) (sint y)" and n: "max bl br \<le> 63"
    using BitSize_sound [OF c l k(1)] BitSize_sound [OF c r k(2)] by (auto intro: within_bits_mono)
  then have "within_bits (max bl br) (sint z)" using z within_bits_ops by (auto simp: sint_ops)
  moreover have "0 \<le> sint z" if "pl" "pr"
  proof -
    have "0 \<le> sint x" "0 \<le> sint y" using that k Only_sound(1) [OF c l, of 0] Only_sound(1) [OF c r, of 0] by (auto simp: IsPositive_def)
    then show ?thesis using z by (auto simp: sint_ops)
  qed
  ultimately show ?thesis unfolding b bounds_ok_def within_bits_def by (auto simp: sint_pow_bounds [OF n])
qed

lemma Range_And_sound:
  fixes x y :: i64
  assumes c: "consistent g env" and l: "contains env l (sint x)" and r: "contains env r (sint y)"
    and e: "Range_And g l r = Some b"
  shows "bounds_ok env b (sint (x AND y))"
proof -
  obtain rn where rn: "ConstantMin g (Some r) kRangeBoundaryInt64 = Some rn" using e by (auto simp: Range_And_def Option.bind_eq_Some_conv)
  note bn = constant_bounds(1) [OF c r rn]
  show ?thesis
  proof (cases "0 \<le>s ConstantValue rn")
    case True
    then obtain mx where mx: "ConstantMax g (Some r) kRangeBoundaryInt64 = Some mx" "b = (Constant 0, mx)"
      using e rn by (auto simp: Range_And_def Option.bind_eq_Some_conv)
    have "0 \<le> sint y" using True bn by (simp add: signed_compare)
    then have "0 \<le> sint x AND sint y" "sint x AND sint y \<le> sint y" by (simp_all add: AND_upper2)
    then show ?thesis using constant_bounds(2) [OF c r mx(1)] by (auto simp: mx(2) bounds_ok_def sint_ops elim!: IsConstantE)
  next
    case False
    then obtain ln where ln: "ConstantMin g (Some l) kRangeBoundaryInt64 = Some ln"
      using e rn by (auto simp: Range_And_def Option.bind_eq_Some_conv)
    note bl = constant_bounds(1) [OF c l ln]
    show ?thesis
    proof (cases "0 \<le>s ConstantValue ln")
      case True
      then obtain mx where mx: "ConstantMax g (Some l) kRangeBoundaryInt64 = Some mx" "b = (Constant 0, mx)"
        using e rn False ln by (auto simp: Range_And_def Option.bind_eq_Some_conv)
      have "0 \<le> sint x" using True bl by (simp add: signed_compare)
      then have "0 \<le> sint x AND sint y" "sint x AND sint y \<le> sint x" by (simp_all add: AND_upper1)
      then show ?thesis using constant_bounds(2) [OF c l mx(1)] by (auto simp: mx(2) bounds_ok_def sint_ops elim!: IsConstantE)
    next
      case n: False
      then have "Range_BitwiseOp g l r = Some b" using e rn False ln by (auto simp: Range_And_def)
      then show ?thesis using Range_BitwiseOp_sound [OF c l r] by blast
    qed
  qed
qed

section \<open>Multiplication, division and the choice of the operation\<close>

lemma sint_inject: "sint (a :: i64) = sint b \<Longrightarrow> a = b"
  by (rule signed_word_eqI)

lemma AbsWithSaturation_sint: "sint (AbsWithSaturation v) = min \<bar>sint v\<bar> (2 ^ 63 - 1)" for v :: i64
proof -
  have "v \<noteq> word_min \<Longrightarrow> sint v \<noteq> - (2 ^ 63)" using sint_word_min sint_inject by metis
  moreover have "sint (- v) = - sint v" if "sint v \<noteq> - (2 ^ 63)"
    using sint_sub_exact [of 0 v] sint_range64 [of v] that by (simp add: int64_def)
  ultimately show ?thesis
    using sint_range64 [of v] sint_word_min sint_word_max by (auto simp: AbsWithSaturation_def signed_compare)
qed

lemma sint_choice: "sint (if b <s a then a else b) = max (sint a) (sint b)" "sint (if a <s b then a else b) = min (sint a) (sint b)" for a b :: i64
  by (simp_all add: signed_compare)

lemma abs_choice:
  fixes x m n k :: int
  assumes "m \<le> x" "x \<le> n" "0 \<le> k"
  shows "\<bar>x\<bar> \<le> max (min \<bar>m\<bar> k) (min \<bar>n\<bar> k) \<or> max (min \<bar>m\<bar> k) (min \<bar>n\<bar> k) = k"
    "0 \<le> m \<or> n \<le> 0 \<Longrightarrow> min (min \<bar>m\<bar> k) (min \<bar>n\<bar> k) \<le> \<bar>x\<bar>"
    "1 \<le> m \<Longrightarrow> 1 \<le> k \<Longrightarrow> 1 \<le> min (min \<bar>m\<bar> k) (min \<bar>n\<bar> k)"
    "0 \<le> min (min \<bar>m\<bar> k) (min \<bar>n\<bar> k)" "0 \<le> max (min \<bar>m\<bar> k) (min \<bar>n\<bar> k)"
  using assms by linarith+

lemma Clamp_Int64: "Clamp_boundary (Constant w) kRangeBoundaryInt64 = Constant w"
proof -
  have "sint w \<le> - (2 ^ 63) \<Longrightarrow> kMinInt64 = w" "2 ^ 63 - 1 \<le> sint w \<Longrightarrow> kMaxInt64 = w"
    using sint_range64 [of w] smi_constants(3,4) by (auto intro!: sint_inject)
  then show ?thesis
    by (auto simp: Clamp_boundary_def IsNegativeInfinity_def IsPositiveInfinity_def MinConstant_def MaxConstant_def signed_compare smi_constants)
qed

lemma Only_constants:
  assumes "consistent g env"
  shows "ConstantMin g (Some r) kRangeBoundaryInt64 = Some mn \<Longrightarrow> OnlyGreaterThanOrEqualTo g r k = Some True \<Longrightarrow> sint k \<le> sint (ConstantValue mn)"
    "ConstantMax g (Some r) kRangeBoundaryInt64 = Some mx \<Longrightarrow> OnlyLessThanOrEqualTo g r k = Some True \<Longrightarrow> sint (ConstantValue mx) \<le> sint k"
  using LowerBound_sound(1) [OF assms, of "range_min r"] UpperBound_sound(1) [OF assms, of "range_max r"]
  by (auto simp: ConstantMin_def ConstantMax_def OnlyGreaterThanOrEqualTo_def OnlyLessThanOrEqualTo_def Option.bind_eq_Some_conv lower_value_def upper_value_def
      IsNegativeInfinity_def IsPositiveInfinity_def Clamp_Int64 signed_compare elim!: IsConstantE)

text \<open>The absolute bounds of a range: the larger one bounds every value unless it is saturated, the smaller one bounds from below
  where the range has one sign.\<close>

lemma ConstantAbsMax_sound:
  fixes x :: i64
  assumes c: "consistent g env" and r: "contains env r (sint x)" and A: "ConstantAbsMax g r = Some A"
  shows "0 \<le> sint A" "\<bar>sint x\<bar> \<le> sint A \<or> sint A = 2 ^ 63 - 1"
proof -
  obtain mn mx where m: "ConstantMin g (Some r) kRangeBoundaryInt64 = Some mn" "ConstantMax g (Some r) kRangeBoundaryInt64 = Some mx"
    and A: "A = (if AbsWithSaturation (ConstantValue mx) <s AbsWithSaturation (ConstantValue mn) then AbsWithSaturation (ConstantValue mn) else AbsWithSaturation (ConstantValue mx))"
    using A by (auto simp: ConstantAbsMax_def Let_def Option.bind_eq_Some_conv)
  have "sint (ConstantValue mn) \<le> sint x" "sint x \<le> sint (ConstantValue mx)" using constant_bounds [OF c r] m by blast+
  from abs_choice(1,5) [OF this, of "2 ^ 63 - 1"] show "0 \<le> sint A" "\<bar>sint x\<bar> \<le> sint A \<or> sint A = 2 ^ 63 - 1"
    unfolding A sint_choice AbsWithSaturation_sint by simp_all
qed

lemma ConstantAbsMin_sound:
  fixes x :: i64
  assumes c: "consistent g env" and r: "contains env r (sint x)" and a: "ConstantAbsMin g r = Some a"
  shows "0 \<le> sint a"
    "OnlyGreaterThanOrEqualTo g r 0 = Some True \<or> OnlyLessThanOrEqualTo g r 0 = Some True \<Longrightarrow> sint a \<le> \<bar>sint x\<bar>"
    "OnlyGreaterThanOrEqualTo g r 1 = Some True \<Longrightarrow> 1 \<le> sint a \<and> sint a \<le> \<bar>sint x\<bar>"
proof -
  obtain mn mx where m: "ConstantMin g (Some r) kRangeBoundaryInt64 = Some mn" "ConstantMax g (Some r) kRangeBoundaryInt64 = Some mx"
    and a: "a = (if AbsWithSaturation (ConstantValue mn) <s AbsWithSaturation (ConstantValue mx) then AbsWithSaturation (ConstantValue mn) else AbsWithSaturation (ConstantValue mx))"
    using a by (auto simp: ConstantAbsMin_def Let_def Option.bind_eq_Some_conv)
  have "sint (ConstantValue mn) \<le> sint x" "sint x \<le> sint (ConstantValue mx)" using constant_bounds [OF c r] m by blast+
  note b = abs_choice(2-4) [OF this, of "2 ^ 63 - 1"]
  have e: "sint a = min (min \<bar>sint (ConstantValue mn)\<bar> (2 ^ 63 - 1)) (min \<bar>sint (ConstantValue mx)\<bar> (2 ^ 63 - 1))"
    unfolding a sint_choice AbsWithSaturation_sint ..
  note k = Only_constants(1) [OF c m(1)] Only_constants(2) [OF c m(2)]
  show "0 \<le> sint a" unfolding e using b(3) by simp
  show "sint a \<le> \<bar>sint x\<bar>" if "OnlyGreaterThanOrEqualTo g r 0 = Some True \<or> OnlyLessThanOrEqualTo g r 0 = Some True"
    unfolding e using that k [of 0] by (intro b(1)) auto
  show "1 \<le> sint a \<and> sint a \<le> \<bar>sint x\<bar>" if "OnlyGreaterThanOrEqualTo g r 1 = Some True"
  proof -
    have "1 \<le> sint (ConstantValue mn)" using that k(1) [of 1] by simp
    then show ?thesis unfolding e using b(1,2) by simp
  qed
qed

lemma int64_div: "0 \<le> v \<Longrightarrow> v < 2 ^ 63 \<Longrightarrow> 1 \<le> w \<Longrightarrow> int64 (v div w)"
  using pos_imp_zdiv_nonneg_iff [of w v] zdiv_mono2 [of v 1 w] by (auto simp: int64_def)

lemma mult_abs_bounds:
  fixes x y A B :: int
  assumes "\<bar>x\<bar> \<le> A" "\<bar>y\<bar> \<le> B"
  shows "\<bar>x * y\<bar> \<le> A * B"
  using assms by (simp add: abs_mult mult_mono')

lemma Range_Mul_sound:
  fixes x y :: i64
  assumes c: "consistent g env" and l: "contains env l (sint x)" and r: "contains env r (sint y)"
    and e: "Range_Mul g l r = Some b"
  shows "bounds_exact env b (sint x * sint y) (x * y)"
proof -
  obtain A B pos neg where k: "ConstantAbsMax g l = Some A" "ConstantAbsMax g r = Some B"
      "OnlyPositiveOrZero g l r = Some pos" "OnlyNegativeOrZero g l r = Some neg"
    using e by (auto simp: Range_Mul_def Option.bind_eq_Some_conv)
  let ?small = "A \<le>s - kSmiMin \<and> B \<le>s - kSmiMin \<and> (A = 0 \<or> B \<le>s word_of_int (sint kMaxInt64 div sint A))"
  show ?thesis
  proof (cases ?small)
    case False
    then show ?thesis using e k by (auto simp: Range_Mul_def bounds_exact_def bounds_ok_def IsInfinity_def IsPositiveInfinity_def split: if_splits)
  next
    case True
    have m: "sint (- kSmiMin) = 2 ^ 62" by (simp add: kSmiMin_def)
    have AB: "0 \<le> sint A" "0 \<le> sint B" "\<bar>sint x\<bar> \<le> sint A" "\<bar>sint y\<bar> \<le> sint B"
      using ConstantAbsMax_sound [OF c l k(1)] ConstantAbsMax_sound [OF c r k(2)] True m by (auto simp: signed_compare)
    have "sint A * sint B \<le> 2 ^ 63 - 1"
    proof (cases "A = 0")
      case False
      then have "0 < sint A" using AB(1) sint_inject [of A 0] by fastforce
      moreover have "sint (word_of_int (sint kMaxInt64 div sint A) :: i64) = sint kMaxInt64 div sint A"
        using \<open>0 < sint A\<close> by (intro sint_word_of_int64 int64_div) (simp_all add: smi_constants)
      ultimately have "sint B \<le> sint kMaxInt64 div sint A" using True False by (simp add: signed_compare)
      then have "sint A * sint B \<le> sint A * (sint kMaxInt64 div sint A)" using AB(1) by (intro mult_left_mono)
      also have "\<dots> \<le> sint kMaxInt64" using \<open>0 < sint A\<close> by (smt (verit) mult.commute pos_mod_sign div_mult_mod_eq)
      finally show ?thesis by (simp add: smi_constants)
    qed simp
    then have AB63: "sint A * sint B < 2 ^ 63" "0 \<le> sint A * sint B" using AB by simp_all
    have xy: "\<bar>sint x * sint y\<bar> \<le> sint A * sint B" using mult_abs_bounds AB(3,4) .
    have ex: "sint (A * B) = sint A * sint B" "sint (x * y) = sint x * sint y" "sint (- (A * B)) = - (sint A * sint B)"
    proof -
      show 1: "sint (A * B) = sint A * sint B" "sint (x * y) = sint x * sint y"
        using AB63 xy by (auto intro!: sint_mult_exact simp: int64_def)
      show "sint (- (A * B)) = - (sint A * sint B)" using sint_sub_exact [of 0 "A * B"] 1 AB63 by (simp add: int64_def)
    qed
    show ?thesis
    proof (cases "pos \<or> neg")
      case same: True
      then obtain a a' where a: "ConstantAbsMin g l = Some a" "ConstantAbsMin g r = Some a'" "b = (Constant (a * a'), Constant (A * B))"
        using e k True by (auto simp: Range_Mul_def Let_def Option.bind_eq_Some_conv)
      have s: "OnlyGreaterThanOrEqualTo g l 0 = Some True \<and> OnlyGreaterThanOrEqualTo g r 0 = Some True \<or>
          OnlyLessThanOrEqualTo g l 0 = Some True \<and> OnlyLessThanOrEqualTo g r 0 = Some True"
        using same k(3,4) by (auto simp: OnlyPositiveOrZero_def OnlyNegativeOrZero_def Option.bind_eq_Some_conv split: if_splits)
      then have "0 \<le> sint x * sint y"
        using Only_sound [OF c l, of 0] Only_sound [OF c r, of 0] by (auto intro: mult_nonneg_nonneg mult_nonpos_nonpos)
      then have p: "sint x * sint y = \<bar>sint x\<bar> * \<bar>sint y\<bar>" by (simp flip: abs_mult)
      have n: "0 \<le> sint a" "0 \<le> sint a'" "sint a \<le> \<bar>sint x\<bar>" "sint a' \<le> \<bar>sint y\<bar>"
        using ConstantAbsMin_sound [OF c l a(1)] ConstantAbsMin_sound [OF c r a(2)] s by blast+
      then have aa: "sint a * sint a' \<le> \<bar>sint x\<bar> * \<bar>sint y\<bar>" "0 \<le> sint a * sint a'" by (auto intro: mult_mono)
      then have "sint (a * a') = sint a * sint a'" using xy AB63 p by (intro sint_mult_exact) (auto simp: int64_def)
      then show ?thesis using aa p xy by (simp add: a(3) bounds_exact_def bounds_ok_def ex)
    next
      case mixed: False
      then have "b = (Constant (- (A * B)), Constant (A * B))" using e k True by (auto simp: Range_Mul_def Let_def)
      then show ?thesis using xy by (auto simp: bounds_exact_def bounds_ok_def ex)
    qed
  qed
qed

lemma Range_TruncDiv_sound:
  fixes x y :: i64
  assumes c: "consistent g env" and l: "contains env l (sint x)" and r: "contains env r (sint y)"
    and e: "Range_TruncDiv g l r = Some b"
  shows "bounds_exact env b (sgn (sint x) * sgn (sint y) * (\<bar>sint x\<bar> div \<bar>sint y\<bar>)) (word_of_int (sgn (sint x) * sgn (sint y) * (\<bar>sint x\<bar> div \<bar>sint y\<bar>)))"
proof -
  obtain gl gr where k: "OnlyGreaterThanOrEqualTo g l 0 = Some gl" "OnlyGreaterThanOrEqualTo g r 1 = Some gr"
    using e by (auto simp: Range_TruncDiv_def Option.bind_eq_Some_conv)
  show ?thesis
  proof (cases "gl \<and> gr")
    case True
    then obtain A a B a' where m: "ConstantAbsMax g l = Some A" "ConstantAbsMin g l = Some a" "ConstantAbsMax g r = Some B" "ConstantAbsMin g r = Some a'"
      and b: "b = (Constant (word_of_int (sint a div sint B)), Constant (word_of_int (sint A div sint a')))"
      using e k by (auto simp: Range_TruncDiv_def Option.bind_eq_Some_conv)
    have xy: "0 \<le> sint x" "1 \<le> sint y" using Only_sound(1) [OF c l, of 0] Only_sound(1) [OF c r, of 1] k True by auto
    have n: "sint x \<le> sint A" "sint y \<le> sint B" "0 \<le> sint a" "sint a \<le> sint x" "1 \<le> sint a'" "sint a' \<le> sint y"
      using ConstantAbsMax_sound [OF c l m(1)] ConstantAbsMin_sound [OF c l m(2)] ConstantAbsMax_sound [OF c r m(3)] ConstantAbsMin_sound [OF c r m(4)]
        k True xy sint_range64 [of x] sint_range64 [of y] by auto
    have q: "sgn (sint x) * sgn (sint y) * (\<bar>sint x\<bar> div \<bar>sint y\<bar>) = sint x div sint y"
      using xy by (cases "sint x = 0") (auto simp: sgn_if)
    have "sint a div sint B \<le> sint x div sint B" "sint x div sint B \<le> sint x div sint y"
      "sint x div sint y \<le> sint A div sint y" "sint A div sint y \<le> sint A div sint a'"
      using n xy by (auto intro: zdiv_mono1 zdiv_mono2)
    then show ?thesis
      unfolding b q bounds_exact_def bounds_ok_def using n xy int64_div [of "sint a" "sint B"] int64_div [of "sint x" "sint y"] int64_div [of "sint A" "sint a'"]
        sint_range64 [of a] sint_range64 [of x] sint_range64 [of A] by (simp add: sint_word_of_int64)
  next
    case False
    then have "b = (NegativeInfinity, PositiveInfinity)" using e k by (auto simp: Range_TruncDiv_def)
    then show ?thesis by (simp add: bounds_exact_def bounds_ok_def IsInfinity_def IsPositiveInfinity_def)
  qed
qed

lemma bounds_ok_infinite: "bounds_ok env (NegativeInfinity, PositiveInfinity) v"
  by (simp add: bounds_ok_def IsInfinity_def IsPositiveInfinity_def)

lemma nat_sint: "\<not> y <s 0 \<Longrightarrow> nat (sint y) = unat (y :: i64)"
proof -
  assume "\<not> y <s 0"
  then have "int (unat y) = sint y" by (intro unat_sint) (simp add: signed_compare)
  then show ?thesis by (metis nat_int)
qed

lemma BinaryOp_contains:
  assumes "consistent g env" "contains env l (sint x)" "contains env r (sint y)"
    and "IsArrayLength g left_defn = Some True \<longrightarrow> env (the left_defn) = Some (sint x)"
    and "BinaryOp g op l r left_defn = Some res" "int64_op op x y = Some z"
  shows "contains env res (sint z)" "res = Full kRangeBoundaryInt64 \<or> (\<forall>v. exact_op op (sint x) (sint y) = Some v \<longrightarrow> sint z = v)"
proof -
  obtain mn mx where b: "res = mk_Range mn mx" and k: "(case op of
            kADD \<Rightarrow> Range_Add g l r left_defn
          | kSUB \<Rightarrow> Range_Sub g l r left_defn
          | kMUL \<Rightarrow> Range_Mul g l r
          | kTRUNCDIV \<Rightarrow> Range_TruncDiv g l r
          | kSHL \<Rightarrow> Range_Shl g l r
          | kSHR \<Rightarrow> Range_Shr g l r
          | kBIT_AND \<Rightarrow> Range_And g l r
          | kBIT_XOR \<Rightarrow> Range_BitwiseOp g l r
          | kBIT_OR \<Rightarrow> Range_BitwiseOp g l r
          | _ \<Rightarrow> Some (NegativeInfinity, PositiveInfinity)) = Some (mn, mx)"
    using assms(5) by (auto simp: BinaryOp_def Let_def Option.bind_eq_Some_conv)
  note c = assms(1-3)
  have "bounds_ok env (mn, mx) (sint z) \<and> (\<forall>v. exact_op op (sint x) (sint y) = Some v \<longrightarrow> bounds_exact env (mn, mx) v z)"
  proof (cases op)
    case kADD
    then show ?thesis using k assms(4,6) Range_Add_sound [OF c, of left_defn "(mn, mx)"] by (simp add: int64_op_def exact_op_def bounds_exact_def)
  next
    case kSUB
    then show ?thesis using k assms(4,6) Range_Sub_sound [OF c, of left_defn "(mn, mx)"] by (simp add: int64_op_def exact_op_def bounds_exact_def)
  next
    case kMUL
    then show ?thesis using k assms(6) Range_Mul_sound [OF c, of "(mn, mx)"] by (simp add: int64_op_def exact_op_def bounds_exact_def)
  next
    case kTRUNCDIV
    then have "z = word_of_int (sgn (sint x) * sgn (sint y) * (\<bar>sint x\<bar> div \<bar>sint y\<bar>))"
      using assms(6) by (simp add: int64_op_def split: if_splits)
    then show ?thesis using kTRUNCDIV k Range_TruncDiv_sound [OF c, of "(mn, mx)"] by (simp add: bounds_exact_def exact_op_def)
  next
    case kSHL
    then show ?thesis using k assms(6) Range_Shl_sound [OF c, of "(mn, mx)"] by (auto simp: int64_op_def exact_op_def bounds_exact_def nat_sint split: if_splits)
  next
    case kSHR
    then show ?thesis using k assms(6) Range_Shr_sound [OF c, of "(mn, mx)"] by (simp add: int64_op_def exact_op_def split: if_splits)
  next
    case kBIT_AND
    then show ?thesis using k assms(6) Range_And_sound [OF c, of "(mn, mx)"] by (simp add: int64_op_def exact_op_def bounds_exact_def)
  next
    case kBIT_OR
    then show ?thesis using k assms(6) Range_BitwiseOp_sound [OF c, of "(mn, mx)" z] by (simp add: int64_op_def exact_op_def bounds_exact_def)
  next
    case kBIT_XOR
    then show ?thesis using k assms(6) Range_BitwiseOp_sound [OF c, of "(mn, mx)" z] by (simp add: int64_op_def exact_op_def bounds_exact_def)
  qed (use k assms(6) in \<open>auto simp: int64_op_def exact_op_def bounds_ok_infinite\<close>)
  then show "contains env res (sint z)" "res = Full kRangeBoundaryInt64 \<or> (\<forall>v. exact_op op (sint x) (sint y) = Some v \<longrightarrow> sint z = v)"
    unfolding b using mk_Range_contains [of env mn mx z] by (auto simp: bounds_exact_def mk_Range_def)
qed

text \<open>C6. The range computed for a binary operation is right: whenever the operands are in their ranges, the 64-bit result, wrapped as
  Dart's integers wrap, is in the range \<open>BinaryOp\<close> gives, for addition, subtraction, multiplication, division,
  shifts and bitwise operations, with constant and symbolic boundaries.\<close>

theorem BinaryOp_sound:
  assumes "consistent g env" "contains env l (sint x)" "contains env r (sint y)"
    and "IsArrayLength g left_defn = Some True \<longrightarrow> env (the left_defn) = Some (sint x)"
    and "BinaryOp g op l r left_defn = Some res" "int64_op op x y = Some z"
  shows "contains env res (sint z)"
  using assms by (rule BinaryOp_contains(1))

theorem BinaryOp_sound_witness:
  "BinaryOp example_graph kADD (the (defn_range example_graph 0)) (mk_Range (Constant 1) (Constant 2)) (Some 0) = Some (mk_Range (Symbol 0 1) (Symbol 0 2)) \<and>
   contains example_env (mk_Range (Symbol 0 1) (Symbol 0 2)) (sint (10 + 2 :: i64))"
proof -
  have b: "BinaryOp example_graph kADD (the (defn_range example_graph 0)) (mk_Range (Constant 1) (Constant 2)) (Some 0) = Some (mk_Range (Symbol 0 1) (Symbol 0 2))"
    by code_simp
  have "contains example_env (the (defn_range example_graph 0)) (sint (10 :: i64))" "contains example_env (mk_Range (Constant 1) (Constant 2)) (sint (2 :: i64))"
    "IsArrayLength example_graph (Some 0) = Some True \<longrightarrow> example_env (the (Some 0)) = Some (sint (10 :: i64))" by code_simp+
  from BinaryOp_sound [OF example_consistent this b, of "10 + 2"] b show ?thesis by (simp add: int64_op_def)
qed

end
