(* ===== verification/Range_Check.thy ===== *)
theory Range_Check
  imports Range_Arith
begin

text \<open>
  Canonical boundaries, the soundness of removing bounds checks, of constraints and of joins, and what the join and the right shift of ranges
  do not cover.
\<close>

section \<open>Symbols and canonical boundaries\<close>

lemma UnwrapConstraint_value':
  assumes "UnwrapConstraint g d = Some u"
  shows "consistent g env \<and> env d = Some x \<longrightarrow> env u = Some x"
proof (rule UnwrapConstraint.raw_induct [OF _ assms], intro impI)
  fix U g d u
  assume IH: "\<And>g d u. U g d = Some u \<Longrightarrow> consistent g env \<and> env d = Some x \<longrightarrow> env u = Some x"
    and body: "(case node g d of Constraint d' \<Rightarrow> U g d' | _ \<Rightarrow> Some d) = Some u" and c: "consistent g env \<and> env d = Some x"
  show "env u = Some x"
    using body IH [of g _ u] consistentD(2) [of g env d x] c by (auto split: Definition.splits)
qed

text \<open>Two symbolic boundaries have one symbol: the symbols have the same value if both have one.\<close>

definition same_symbol :: "environment \<Rightarrow> RangeBoundary \<Rightarrow> RangeBoundary \<Rightarrow> bool" where
  "same_symbol env a b \<longleftrightarrow> (\<exists>da oa db ob. a = Symbol da oa \<and> b = Symbol db ob \<and> (\<forall>x y. env da = Some x \<and> env db = Some y \<longrightarrow> x = y))"

lemma same_symbol_order:
  assumes "same_symbol env a b"
  shows "above env a x \<Longrightarrow> below env b y \<Longrightarrow> y - x \<le> sint (boundary_offset b) - sint (boundary_offset a)"
    "below env a x \<Longrightarrow> above env b y \<Longrightarrow> sint (boundary_offset b) - sint (boundary_offset a) \<le> y - x"
    "above env a x \<Longrightarrow> above env b y \<Longrightarrow> sint (boundary_offset a) \<le> sint (boundary_offset b) \<Longrightarrow> above env a y"
    "above env a x \<Longrightarrow> above env b y \<Longrightarrow> sint (boundary_offset b) \<le> sint (boundary_offset a) \<Longrightarrow> above env b x"
    "below env a x \<Longrightarrow> below env b y \<Longrightarrow> sint (boundary_offset b) \<le> sint (boundary_offset a) \<Longrightarrow> below env a y"
    "below env a x \<Longrightarrow> below env b y \<Longrightarrow> sint (boundary_offset a) \<le> sint (boundary_offset b) \<Longrightarrow> below env b x"
  using assms by (auto simp: same_symbol_def split: option.splits; fastforce)+

lemma DependOnSameSymbol_value:
  assumes "consistent g env" "DependOnSameSymbol g a b = Some True"
  shows "same_symbol env a b"
proof -
  obtain da oa db ob ua ub where s: "a = Symbol da oa" "b = Symbol db ob" "UnwrapConstraint g da = Some ua" "UnwrapConstraint g db = Some ub" "ua = ub \<or> cse_equal g ua ub"
    using assms(2) by (cases a; cases b) (auto simp: DependOnSameSymbol_def AreEqualDefinitions_def Option.bind_eq_Some_conv)
  have "x = y" if "env da = Some x" "env db = Some y" for x y
    using UnwrapConstraint_value' [OF s(3), of env x] UnwrapConstraint_value' [OF s(4), of env y] consistentD(4) [OF assms(1), of ua x ub y] s(5) that assms(1)
    by auto
  then show ?thesis using s by (auto simp: same_symbol_def)
qed

lemma CanonicalizeBoundary_body_value:
  assumes c: "consistent g env" and d: "env d = Some x" and e: "CanonicalizeBoundary_body g d offs = Some (d', offs', ch)"
  shows "\<exists>x'. env d' = Some x' \<and> x' + sint offs' = x + sint offs"
proof -
  have k: "node g m = ConstantSmi w \<Longrightarrow> env m = Some z \<Longrightarrow> z = sint w" for m w z using consistentD(2) [OF c, of m z] by auto
  have v: "node g d = Constraint m \<Longrightarrow> env m = Some x" "node g d = BinarySmiOp op l r \<Longrightarrow> \<exists>y z. env l = Some y \<and> env r = Some z \<and>
      (op = kADD \<longrightarrow> x = y + z) \<and> (op = kSUB \<longrightarrow> x = y - z)" for m l r op
    using consistentD(2) [OF c d] by (auto split: option.splits)
  show ?thesis
  proof (cases "node g d")
    case (BinarySmiOp op l r)
    from v(2) [OF this] obtain y z where "env l = Some y" "env r = Some z" "op = kADD \<longrightarrow> x = y + z" "op = kSUB \<longrightarrow> x = y - z" by blast
    then show ?thesis using e BinarySmiOp d k [of r _ z] k [of l _ y]
      by (auto simp: CanonicalizeBoundary_body_def no_overflow split: Definition.splits TokenKind.splits if_splits)
  qed (use e d v(1) in \<open>auto simp: CanonicalizeBoundary_body_def\<close>)
qed

lemma CanonicalizeBoundary_loop_value':
  assumes "CanonicalizeBoundary_loop g d offs = Some res"
  shows "\<forall>x d' offs'. consistent g env \<and> env d = Some x \<and> res = Some (d', offs') \<longrightarrow> (\<exists>x'. env d' = Some x' \<and> x' + sint offs' = x + sint offs)"
proof (rule CanonicalizeBoundary_loop.raw_induct [OF _ assms], intro impI allI)
  fix C g d offset res x d' offs'
  assume IH: "\<And>g d offs res. C g d offs = Some res \<Longrightarrow>
      \<forall>x d' offs'. consistent g env \<and> env d = Some x \<and> res = Some (d', offs') \<longrightarrow> (\<exists>x'. env d' = Some x' \<and> x' + sint offs' = x + sint offs)"
    and body: "(case CanonicalizeBoundary_body g d offset of
        None \<Rightarrow> Some None
      | Some (d, offset, changed) \<Rightarrow> if changed then C g d offset else Some (Some (d, offset))) = Some res"
    and h: "consistent g env \<and> env d = Some x \<and> res = Some (d', offs')"
  obtain d1 o1 ch where b: "CanonicalizeBoundary_body g d offset = Some (d1, o1, ch)"
    using body h by (cases "CanonicalizeBoundary_body g d offset") auto
  obtain x1 where x1: "env d1 = Some x1" "x1 + sint o1 = x + sint offset" using CanonicalizeBoundary_body_value [OF _ _ b] h by blast
  show "\<exists>x'. env d' = Some x' \<and> x' + sint offs' = x + sint offset"
    using body b h x1 IH [of g d1 o1 res] by (cases ch) auto
qed

text \<open>A canonical boundary has the value of the original, unless the computation of its offset overflows.\<close>

lemma CanonicalizeBoundary_exact:
  assumes c: "consistent g env" and e: "CanonicalizeBoundary g a overflow = Some b"
  shows "b = overflow \<or> (\<forall>v. (above env a v \<longrightarrow> above env b v) \<and> (below env a v \<longrightarrow> below env b v))"
proof (cases a)
  case (Symbol d offs)
  obtain found where f: "CanonicalizeBoundary_loop g d offs = Some found"
    and b: "b = (case found of None \<Rightarrow> overflow
                  | Some (d, offset) \<Rightarrow> if \<not> IsValidOffsetForSymbolicRangeBoundary offset then overflow else FromDefinition g d offset)"
    using e Symbol by (auto simp: CanonicalizeBoundary_def Option.bind_eq_Some_conv)
  show ?thesis
  proof (cases "b = overflow \<or> env d = None")
    case False
    then obtain x d' offs' where x: "env d = Some x" and p: "found = Some (d', offs')" using b by (cases found) auto
    obtain x' where x': "env d' = Some x'" "x' + sint offs' = x + sint offs" using CanonicalizeBoundary_loop_value' [OF f, of env] c x p by blast
    then show ?thesis using b p x FromDefinition_exact(1,2) [OF c x'(1), of offs'] Symbol by (auto simp: valid_offset)
  qed (use Symbol in auto)
qed (use e in \<open>auto simp: CanonicalizeBoundary_def\<close>)

lemma CanonicalizeMaxBoundary_sound:
  assumes c: "consistent g env" and e: "CanonicalizeMaxBoundary g a = Some (b, ch)" and v: "below env a v"
  shows "below env b v"
proof (cases "ch")
  case True
  then obtain d offs r d' offs' where s: "a = Symbol d offs" "defn_range g d = Some r" "range_max r = Symbol d' offs'"
    using e by (auto simp: CanonicalizeMaxBoundary_def Canonicalize_step_def split: RangeBoundary.splits option.splits)
  obtain x where x: "env d = Some x" using v s(1) by (auto split: option.splits)
  obtain y where y: "env d' = Some y" "x \<le> y + sint offs'" using consistentD(3) [OF c x s(2)] s(3) by (auto simp: contains_def split: option.splits)
  then have v': "v \<le> y + sint offs' + sint offs" using v s(1) x by simp
  show ?thesis
  proof (cases "WillAddOverflow offs' offs \<or> \<not> IsValidOffsetForSymbolicRangeBoundary (offs' + offs)")
    case True
    then show ?thesis using e s by (auto simp: CanonicalizeMaxBoundary_def Canonicalize_step_def Let_def split: if_splits)
  next
    case False
    then have "CanonicalizeBoundary g (FromDefinition g d' (offs' + offs)) PositiveInfinity = Some b"
      using e s by (auto simp: CanonicalizeMaxBoundary_def Canonicalize_step_def Option.bind_eq_Some_conv)
    moreover have "below env (FromDefinition g d' (offs' + offs)) v"
      using False v' no_overflow(1) [of offs' offs] by (subst FromDefinition_exact(2) [OF c y(1)]) (auto simp: valid_offset)
    ultimately show ?thesis using CanonicalizeBoundary_exact [OF c] by fastforce
  qed
qed (use e v in \<open>auto simp: CanonicalizeMaxBoundary_def Canonicalize_step_def Let_def Option.bind_eq_Some_conv split: RangeBoundary.splits option.splits if_splits\<close>)

lemma CanonicalizeMinBoundary_sound:
  assumes c: "consistent g env" and e: "CanonicalizeMinBoundary g a = Some (b, ch)" and v: "above env a v"
  shows "above env b v"
proof (cases "ch")
  case True
  then obtain d offs r d' offs' where s: "a = Symbol d offs" "defn_range g d = Some r" "range_min r = Symbol d' offs'"
    using e by (auto simp: CanonicalizeMinBoundary_def Canonicalize_step_def split: RangeBoundary.splits option.splits)
  obtain x where x: "env d = Some x" using v s(1) by (auto split: option.splits)
  obtain y where y: "env d' = Some y" "y + sint offs' \<le> x" using consistentD(3) [OF c x s(2)] s(3) by (auto simp: contains_def split: option.splits)
  then have v': "y + sint offs' + sint offs \<le> v" using v s(1) x by simp
  show ?thesis
  proof (cases "WillAddOverflow offs' offs \<or> \<not> IsValidOffsetForSymbolicRangeBoundary (offs' + offs)")
    case True
    then show ?thesis using e s by (auto simp: CanonicalizeMinBoundary_def Canonicalize_step_def Let_def split: if_splits)
  next
    case False
    then have "CanonicalizeBoundary g (FromDefinition g d' (offs' + offs)) NegativeInfinity = Some b"
      using e s by (auto simp: CanonicalizeMinBoundary_def Canonicalize_step_def Option.bind_eq_Some_conv)
    moreover have "above env (FromDefinition g d' (offs' + offs)) v"
      using False v' no_overflow(1) [of offs' offs] by (subst FromDefinition_exact(1) [OF c y(1)]) (auto simp: valid_offset)
    ultimately show ?thesis using CanonicalizeBoundary_exact [OF c] by fastforce
  qed
qed (use e v in \<open>auto simp: CanonicalizeMinBoundary_def Canonicalize_step_def Let_def Option.bind_eq_Some_conv split: RangeBoundary.splits option.splits if_splits\<close>)

text \<open>What the steps keep of each boundary holds after the loop, and then both have one symbol.\<close>

definition keeps :: "(RangeBoundary \<Rightarrow> bool) \<Rightarrow> (RangeBoundary \<Rightarrow> (RangeBoundary \<times> bool) option) \<Rightarrow> bool" where
  "keeps P step \<longleftrightarrow> (\<forall>b b' ch. P b \<longrightarrow> step b = Some (b', ch) \<longrightarrow> P b')"

lemma keepsD: "keeps P step \<Longrightarrow> P b \<Longrightarrow> step b = Some (b', ch) \<Longrightarrow> P b'" by (auto simp: keeps_def)

lemma Canonicalize_loop_inv':
  assumes "Canonicalize_loop opa opb g a b = Some res"
  shows "keeps P opa \<and> keeps Q opb \<and> P a \<and> Q b \<and> res = Some (a', b') \<longrightarrow> P a' \<and> Q b' \<and> DependOnSameSymbol g a' b' = Some True"
proof (rule Canonicalize_loop.raw_induct [OF _ assms], intro impI)
  fix L opa opb g a b res
  assume IH: "\<And>opa opb g a b res. L opa opb g a b = Some res \<Longrightarrow>
      keeps P opa \<and> keeps Q opb \<and> P a \<and> Q b \<and> res = Some (a', b') \<longrightarrow> P a' \<and> Q b' \<and> DependOnSameSymbol g a' b' = Some True"
    and body: "do {
       same \<leftarrow> DependOnSameSymbol g a b;
       if same then Some (Some (a, b))
       else do {
         (a, changed) \<leftarrow> opa a;
         if changed then L opa opb g a b
         else do {
           (b, changed) \<leftarrow> opb b;
           if changed then L opa opb g a b else Some None
         }
       }
     } = Some res"
    and h: "keeps P opa \<and> keeps Q opb \<and> P a \<and> Q b \<and> res = Some (a', b')"
  obtain same where same: "DependOnSameSymbol g a b = Some same" using body by (auto simp: Option.bind_eq_Some_conv)
  show "P a' \<and> Q b' \<and> DependOnSameSymbol g a' b' = Some True"
  proof (cases same)
    case True
    then show ?thesis using body same h by simp
  next
    case False
    then obtain a1 ch where a: "opa a = Some (a1, ch)" using body same by (auto simp: Option.bind_eq_Some_conv)
    then have P: "P a1" using h keepsD [of P opa a] by blast
    show ?thesis
    proof (cases ch)
      case True
      then have "L opa opb g a1 b = Some res" using body same False a by simp
      then show ?thesis using IH h P by blast
    next
      case nch: False
      then obtain b1 where b: "opb b = Some (b1, True)" "L opa opb g a1 b1 = Some res"
        using body same False a h by (auto simp: Option.bind_eq_Some_conv split: if_splits)
      moreover from b have "Q b1" using h keepsD [of Q opb b] by blast
      ultimately show ?thesis using IH h P by blast
    qed
  qed
qed

lemma Canonicalize_loop_inv:
  assumes "Canonicalize_loop opa opb g a b = Some (Some (a', b'))" "consistent g env" "keeps P opa" "keeps Q opb" "P a" "Q b"
  shows "P a'" "Q b'" "same_symbol env a' b'"
proof -
  note i = Canonicalize_loop_inv' [OF assms(1), of P Q a' b']
  show "P a'" "Q b'" using i assms(3-6) by blast+
  show "same_symbol env a' b'"
    using i assms(3-6) by (intro DependOnSameSymbol_value [OF assms(2)]) blast
qed

text \<open>
  What a comparison of two lower or two upper boundaries relies on: a relation of a boundary to a value that the steps to another symbol
  keep.
\<close>

locale boundary_side =
  fixes rel :: "environment \<Rightarrow> RangeBoundary \<Rightarrow> int \<Rightarrow> bool"
    and step :: "flow_graph \<Rightarrow> RangeBoundary \<Rightarrow> (RangeBoundary \<times> bool) option"
  assumes step_keeps: "consistent g env \<Longrightarrow> step g a = Some (b, ch) \<Longrightarrow> rel env a v \<Longrightarrow> rel env b v"
begin

lemma keeps_rel: "consistent g env \<Longrightarrow> keeps (\<lambda>b. rel env b v) (step g)"
  using step_keeps by (auto simp: keeps_def)

lemma comparison:
  assumes c: "consistent g env" and e: "CanonicalizeForComparison g a b step = Some (Some (a', b'))"
  shows "rel env a v \<Longrightarrow> rel env b w \<Longrightarrow> rel env a' v \<and> rel env b' w"
    "same_symbol env a' b'"
proof -
  have l: "Canonicalize_loop (step g) (step g) g a b = Some (Some (a', b'))"
    using e by (auto simp: CanonicalizeForComparison_def split: if_splits)
  show "rel env a v \<Longrightarrow> rel env b w \<Longrightarrow> rel env a' v \<and> rel env b' w"
    using Canonicalize_loop_inv(1,2) [OF l c keeps_rel [OF c] keeps_rel [OF c]] by blast
  show "same_symbol env a' b'"
    using Canonicalize_loop_inv(3) [OF l c, of "\<lambda>_. True" "\<lambda>_. True"] by (simp add: keeps_def)
qed

end

interpretation lower: boundary_side above CanonicalizeMinBoundary
  by unfold_locales (rule CanonicalizeMinBoundary_sound)

interpretation upper: boundary_side below CanonicalizeMaxBoundary
  by unfold_locales (rule CanonicalizeMaxBoundary_sound)

section \<open>Redundant bounds checks\<close>

lemma IsRedundant_range_sound:
  assumes c: "consistent g env" and i: "env index = Some i" and r: "contains env r i" and n: "above env len n"
    and e: "IsRedundant_range g index r len = Some True"
  shows "0 \<le> i \<and> i < n"
proof -
  obtain mn ub lb where mn: "ConstantMin g (Some r) kRangeBoundarySmi = Some mn" "0 \<le> sint (ConstantValue mn)"
    and ub: "UpperBound g (FromDefinition g index 0) = Some ub" "\<not> OverflowedSmi ub" and lb: "LowerBound g len = Some lb" "\<not> OverflowedSmi lb"
    using e by (auto simp: IsRedundant_range_def Let_def Option.bind_eq_Some_conv signed_compare split: if_splits)
  have "0 \<le> i"
    using ConstantMin_sound(2) [OF c mn(1) r] consistentD(1) [OF c i] mn(2) by (simp add: of_size_simps)
  moreover have "i < n"
  proof (cases "ConstantValue ub <s ConstantValue lb")
    case True
    have "below env (FromDefinition g index 0) i" using FromDefinition_exact(2) [OF c i, of 0] by simp
    then have "below env ub i" "above env lb n" using UpperBound_sound(2) [OF c ub(1)] LowerBound_sound(2) [OF c lb(1)] n by auto
    then show ?thesis using UpperBound_sound(1) [OF c ub(1)] LowerBound_sound(1) [OF c lb(1)] ub(2) lb(2) True
      by (auto simp: lower_value_def upper_value_def OverflowedSmi_def IsInfinity_def IsPositiveInfinity_def IsNegativeInfinity_def signed_compare elim!: IsConstantE)
  next
    case False
    then obtain cl mx' cl' where cl: "CanonicalizeBoundary g len PositiveInfinity = Some cl" "\<not> OverflowedSmi cl"
      and loop: "Canonicalize_loop (CanonicalizeMaxBoundary g) (CanonicalizeMinBoundary g) g (FromDefinition g index 0) cl = Some (Some (mx', cl'))"
      and off: "sint (boundary_offset mx') < sint (boundary_offset cl')"
      using e mn ub lb by (auto simp: IsRedundant_range_def Let_def Option.bind_eq_Some_conv signed_compare split: if_splits option.splits)
    have "above env cl n" using CanonicalizeBoundary_exact [OF c cl(1)] n cl(2) by (auto simp: OverflowedSmi_def IsInfinity_def IsPositiveInfinity_def)
    moreover have "below env (FromDefinition g index 0) i" using FromDefinition_exact(2) [OF c i, of 0] by simp
    ultimately have "same_symbol env mx' cl'" "below env mx' i" "above env cl' n"
      using Canonicalize_loop_inv [OF loop c upper.keeps_rel [OF c] lower.keeps_rel [OF c]] by blast+
    then show ?thesis using off same_symbol_order(2) [of env mx' cl' i n] by simp
  qed
  ultimately show ?thesis ..
qed

text \<open>C5. Removing a bounds check is safe: when \<open>IsRedundant\<close> says so, then with any values of the definitions that agree with the
  graph and its ranges, and where the index has a value, it is not negative and is below the length the boundary stands for. Definitions on
  paths that are not taken need no value. The range that a constant index gets on the way also agrees.\<close>

theorem IsRedundant_sound:
  assumes "consistent g env" "env index = Some i" "above env len n" "IsRedundant g index len = Some (True, g')"
  shows "0 \<le> i \<and> i < n \<and> consistent g' env"
proof (cases "defn_range g index")
  case (Some r)
  then have "IsRedundant_range g index r len = Some True" "g' = g" using assms(4) by (auto simp: IsRedundant_def Option.bind_eq_Some_conv)
  then show ?thesis using IsRedundant_range_sound [OF assms(1,2) consistentD(3) [OF assms(1,2) Some] assms(3)] assms(1) by blast
next
  case None
  then obtain k where k: "node g index = ConstantSmi k" using assms(4) by (auto simp: IsRedundant_def split: Definition.splits)
  define r where "r = mk_Range (Constant k) (Constant k)"
  have r: "contains env r i" using consistentD(2) [OF assms(1,2)] k
    by (simp add: r_def mk_Range_def contains_def IsInfinity_def IsNegativeInfinity_def IsPositiveInfinity_def)
  have "g' = g\<lparr>defn_range := (defn_range g)(index := Some r)\<rparr>" "IsRedundant_range g' index r len = Some True"
    using assms(4) k None by (auto simp: IsRedundant_def Option.bind_eq_Some_conv r_def Let_def)
  moreover from this have "consistent g' env" using assms(1,2) r by (auto simp: consistent_def)
  ultimately show ?thesis using IsRedundant_range_sound [of g' env index i r len n] r assms(2,3) by blast
qed

lemma example_loop:
  "Canonicalize_loop (CanonicalizeMaxBoundary example_graph) (CanonicalizeMinBoundary example_graph) example_graph (Symbol 1 0) (Symbol 0 0) =
     Some (Some (Symbol 0 (- 1), Symbol 0 0))"
proof -
  have "DependOnSameSymbol example_graph (Symbol 1 0) (Symbol 0 0) = Some False" "DependOnSameSymbol example_graph (Symbol 0 (- 1)) (Symbol 0 0) = Some True"
    "CanonicalizeMaxBoundary example_graph (Symbol 1 0) = Some (Symbol 0 (- 1), True)"
    by code_simp+
  then show ?thesis by (subst Canonicalize_loop.simps, simp, subst Canonicalize_loop.simps, simp)
qed

lemma example_redundant: "IsRedundant example_graph 1 (FromDefinition example_graph 0 0) = Some (True, example_graph)"
proof -
  have r: "defn_range example_graph 1 = Some (mk_Range (Constant 0) (Symbol 0 (- 1)))" by (simp add: example_graph_def)
  have f: "FromDefinition example_graph 1 0 = Symbol 1 0" "FromDefinition example_graph 0 0 = Symbol 0 0"
    by (simp_all add: FromDefinition_def example_graph_def)
  have b: "ConstantMin example_graph (Some (mk_Range (Constant 0) (Symbol 0 (- 1)))) kRangeBoundarySmi = Some (Constant 0)"
    "UpperBound example_graph (Symbol 1 0) = Some (Constant (kSmiMax - 1))" "LowerBound example_graph (Symbol 0 0) = Some (Constant 0)"
    "CanonicalizeBoundary example_graph (Symbol 0 0) PositiveInfinity = Some (Symbol 0 0)"
    by code_simp+
  have o: "\<not> OverflowedSmi (Constant (kSmiMax - 1))" "\<not> OverflowedSmi (Constant 0)" "\<not> OverflowedSmi (Symbol 0 0)" "\<not> kSmiMax - 1 <s 0" "- 1 <s (0 :: i64)"
    by code_simp+
  show ?thesis using r f b o example_loop by (simp add: IsRedundant_def IsRedundant_range_def)
qed

theorem IsRedundant_sound_witness:
  "IsRedundant example_graph 1 (FromDefinition example_graph 0 0) = Some (True, example_graph) \<and> example_env 1 = Some 3 \<and> (0 :: int) \<le> 3 \<and> (3 :: int) < 10"
proof -
  have i: "example_env 1 = Some 3" and n: "above example_env (FromDefinition example_graph 0 0) 10" by code_simp+
  from IsRedundant_sound [OF example_consistent i n example_redundant] i example_redundant show ?thesis by blast
qed

section \<open>Constraints\<close>

definition compares :: "TokenKind \<Rightarrow> int \<Rightarrow> int \<Rightarrow> bool" where
  "compares op x y \<longleftrightarrow>
     (case op of kEQ \<Rightarrow> x = y | kNE \<Rightarrow> x \<noteq> y | kLT \<Rightarrow> x < y | kGT \<Rightarrow> x > y | kLTE \<Rightarrow> x \<le> y | kGTE \<Rightarrow> x \<ge> y | _ \<Rightarrow> False)"

lemma not_infinite: "\<not> IsInfinity (Constant w)" "\<not> IsInfinity (MinConstant sz)" "\<not> IsInfinity (MaxConstant sz)"
  by (simp_all add: IsInfinity_def IsNegativeInfinity_def IsPositiveInfinity_def MinConstant_def MaxConstant_def)

lemma smi_size: "smi v \<Longrightarrow> above env (MinConstant kRangeBoundarySmi) v \<and> below env (MaxConstant kRangeBoundarySmi) v"
  by (simp add: MinConstant_def MaxConstant_def smi_def smi_constants)

lemma ConstraintSmiRange_sound:
  assumes c: "consistent g env" and e: "ConstraintSmiRange g op b = Some r" and b: "env b = Some w" and v: "compares op v w" "smi v"
  shows "contains env r v"
proof -
  have i: "\<not> IsInfinity (FromDefinition g b 0)" "\<not> IsInfinity (FromDefinition g b 1)" "\<not> IsInfinity (FromDefinition g b (- 1))"
    by (simp_all add: FromDefinition_finite)
  note f = FromDefinition_exact(1,2) [OF c b, of 0] FromDefinition_exact(1,2) [OF c b, of 1] FromDefinition_exact(1,2) [OF c b, of "- 1"]
  show ?thesis
    using e v smi_size [OF v(2), of env] i f
    by (cases op) (auto simp: ConstraintSmiRange_def compares_def contains_def mk_Range_def not_infinite Full_def)
qed

lemma IntersectionMin_sound:
  assumes c: "consistent g env" and a: "above env a v" and b: "above env b v" and e: "IntersectionMin g a b = Some m"
  shows "above env m v"
proof (cases "m = a \<or> m = b")
  case False
  then obtain d where d: "CanonicalizeForComparison g a b CanonicalizeMinBoundary = Some d"
    using e by (auto simp: IntersectionMin_def Option.bind_eq_Some_conv split: if_splits)
  show ?thesis
  proof (cases d)
    case None
    then have "m = a \<or> m = b" using e d by (auto simp: IntersectionMin_def Option.bind_eq_Some_conv split: if_splits)
    then show ?thesis using False by blast
  next
    case (Some p)
    then obtain a' b' where p: "d = Some (a', b')" by (cases p) auto
    then have "m = a' \<or> m = b'" using e d False by (auto simp: IntersectionMin_def Option.bind_eq_Some_conv split: if_splits)
    then show ?thesis using lower.comparison(1) [OF c d [unfolded p] a b] by blast
  qed
qed (use a b in auto)

lemma IntersectionMax_sound:
  assumes c: "consistent g env" and a: "below env a v" and b: "below env b v" and e: "IntersectionMax g a b = Some m"
  shows "below env m v"
proof (cases "m = a \<or> m = b")
  case False
  then obtain d where d: "CanonicalizeForComparison g a b CanonicalizeMaxBoundary = Some d"
    using e by (auto simp: IntersectionMax_def Option.bind_eq_Some_conv split: if_splits)
  show ?thesis
  proof (cases d)
    case None
    then have "m = a \<or> m = b" using e d by (auto simp: IntersectionMax_def Option.bind_eq_Some_conv split: if_splits)
    then show ?thesis using False by blast
  next
    case (Some p)
    then obtain a' b' where p: "d = Some (a', b')" by (cases p) auto
    then have "m = a' \<or> m = b'" using e d False by (auto simp: IntersectionMax_def Option.bind_eq_Some_conv split: if_splits)
    then show ?thesis using upper.comparison(1) [OF c d [unfolded p] a b] by blast
  qed
qed (use a b in auto)

lemma mk_Range_int64:
  assumes "above env mn v" "below env mx v" "int64 v"
  shows "contains env (mk_Range mn mx) v"
  using mk_Range_contains [of env mn mx "word_of_int v"] assms by (simp add: sint_word_of_int64 bounds_ok_def)

lemma Intersect_sound:
  assumes c: "consistent g env" and v: "contains env r v" "contains env r' v" "int64 v" and e: "Intersect g r r' = Some res"
  shows "contains env res v"
proof -
  obtain mn mx where m: "IntersectionMin g (range_min r) (range_min r') = Some mn" "IntersectionMax g (range_max r) (range_max r') = Some mx" "res = mk_Range mn mx"
    using e by (auto simp: Intersect_def Option.bind_eq_Some_conv)
  have "above env mn v" "below env mx v"
    using IntersectionMin_sound [OF c _ _ m(1)] IntersectionMax_sound [OF c _ _ m(2)] v by (simp_all add: contains_def)
  then show ?thesis unfolding m(3) using v(3) by (rule mk_Range_int64)
qed

lemma IsUnsatisfiable_sound:
  assumes c: "consistent g env" and v: "contains env r v" "int64 v" and e: "IsUnsatisfiable g r = Some u"
  shows "\<not> u"
proof -
  have i: "\<not> IsPositiveInfinity (range_min r)" "\<not> IsNegativeInfinity (range_max r)"
    using v by (auto simp: contains_def IsPositiveInfinity_def IsNegativeInfinity_def)
  then obtain mn mx where m: "ConstantMin g (Some r) kRangeBoundaryInt64 = Some mn" "ConstantMax g (Some r) kRangeBoundaryInt64 = Some mx"
    using e by (auto simp: IsUnsatisfiable_def Option.bind_eq_Some_conv)
  have "sint (ConstantValue mn) \<le> sint (ConstantValue mx)"
    using ConstantMin_sound(2) [OF c m(1) v(1)] ConstantMax_sound(2) [OF c m(2) v(1)] v(2) by (simp add: of_size_simps)
  then obtain same where s: "DependOnSameSymbol g (range_min r) (range_max r) = Some same"
    and u: "u = (same \<and> sint (boundary_offset (range_max r)) < sint (boundary_offset (range_min r)))"
    using e i m by (auto simp: IsUnsatisfiable_def Option.bind_eq_Some_conv signed_compare)
  show ?thesis
    using u DependOnSameSymbol_value [OF c, of "range_min r" "range_max r"] same_symbol_order(1) [of env "range_min r" "range_max r" v v] s v
    by (cases same) (auto simp: contains_def)
qed

text \<open>C31. What a comparison adds to the range of a value is right: a Smi that is in its range and for which the
  comparison with the boundary holds is in the range inferred for the constraint, whether the boundary is constant or symbolic,
  and the constraint is then never found unsatisfiable.\<close>

theorem Constraint_InferRange_sound:
  assumes "consistent g env" "contains env r v" "smi v" "env boundary = Some b" "compares op v b"
    and "ConstraintSmiRange g op boundary = Some con" "Constraint_InferRange g (Some r) con = Some res"
  shows "\<exists>r'. res = Some r' \<and> contains env r' v"
proof -
  have v: "int64 v" using assms(3) by (simp add: smi_def int64_def)
  have "\<not> IsUnknown (range_min r)" using assms(2) by (cases "range_min r") (auto simp: contains_def)
  then obtain r' u where r': "Intersect g r con = Some r'" "IsUnsatisfiable g r' = Some u" "res = (if u then None else Some r')"
    using assms(7) by (auto simp: Constraint_InferRange_def Range_IsUnknown_def Option.bind_eq_Some_conv)
  have "contains env r' v" using Intersect_sound [OF assms(1,2) ConstraintSmiRange_sound [OF assms(1,6,4,5,3)] v r'(1)] .
  then show ?thesis using r'(3) IsUnsatisfiable_sound [OF assms(1) _ v r'(2)] by auto
qed

theorem Constraint_InferRange_sound_witness:
  "\<exists>r'. Constraint_InferRange example_graph (Some (mk_Range (Constant 0) (Constant kSmiMax))) (the (ConstraintSmiRange example_graph kLT 0)) = Some (Some r')
      \<and> contains example_env r' 3 \<and> range_max r' = Symbol 0 (- 1)"
proof -
  define con where "con = the (ConstraintSmiRange example_graph kLT 0)"
  define r where "r = mk_Range (Constant 0) (Constant kSmiMax)"
  have con: "ConstraintSmiRange example_graph kLT 0 = Some con" by (simp add: con_def ConstraintSmiRange_def)
  have e: "Constraint_InferRange example_graph (Some r) con = Some (Some (mk_Range (Constant 0) (Symbol 0 (- 1))))"
    unfolding con_def r_def by code_simp
  have "contains example_env r 3" "smi 3" "example_env 0 = Some 10" "compares kLT 3 10" unfolding r_def by code_simp+
  from Constraint_InferRange_sound [OF example_consistent this con e] e show ?thesis
    unfolding con_def r_def by (auto simp: mk_Range_def IsInfinity_def IsNegativeInfinity_def IsPositiveInfinity_def)
qed

section \<open>Joins\<close>

text \<open>The value of a boundary that is not infinite, and that it is between the constant bounds.\<close>

lemma size_bounds:
  assumes c: "consistent g env" and v: "of_size sz v"
  shows "above env b v \<Longrightarrow> LowerBound_size g b sz = Some lo \<Longrightarrow> sint lo \<le> v"
    "below env b v \<Longrightarrow> UpperBound_size g b sz = Some hi \<Longrightarrow> v \<le> sint hi"
proof -
  show "sint lo \<le> v" if a: "above env b v" and e: "LowerBound_size g b sz = Some lo"
  proof -
    obtain lb where lb: "LowerBound g b = Some lb" "lo = ConstantValue (Clamp_boundary lb sz)"
      using e by (auto simp: LowerBound_size_def Option.bind_eq_Some_conv)
    have "above env (Clamp_boundary lb sz) v" using LowerBound_sound(2) [OF c lb(1) a] v by (intro Clamp_above) (simp_all add: of_size_def)
    then show ?thesis using Clamp_value [of lb sz] LowerBound_sound(1) [OF c lb(1)] lb(2) by (auto elim: IsConstantE)
  qed
  show "v \<le> sint hi" if a: "below env b v" and e: "UpperBound_size g b sz = Some hi"
  proof -
    obtain ub where ub: "UpperBound g b = Some ub" "hi = ConstantValue (Clamp_boundary ub sz)"
      using e by (auto simp: UpperBound_size_def Option.bind_eq_Some_conv)
    have "below env (Clamp_boundary ub sz) v" using UpperBound_sound(2) [OF c ub(1) a] v by (intro Clamp_below) (simp_all add: of_size_def)
    then show ?thesis using Clamp_value [of ub sz] UpperBound_sound(1) [OF c ub(1)] ub(2) by (auto elim: IsConstantE)
  qed
qed

lemma size_int64: "of_size sz v \<Longrightarrow> int64 v"
  by (cases sz) (auto simp: of_size_def size_min_def size_max_def int64_def)

text \<open>A lower boundary is never above the upper bound of its own value when it bounds some value of the size.\<close>

lemma boundary_sup:
  assumes c: "consistent g env" and w: "above env a w" "of_size sz w" and e: "UpperBound_size g a sz = Some hi" and v: "sint hi \<le> v"
  shows "above env a v"
proof (cases a)
  case (Constant k)
  then have "hi = ConstantValue (Clamp_boundary a sz)" using e by (simp add: UpperBound_size_def UpperBound.simps)
  then show ?thesis using w v Constant sint_size_constants [of sz]
    by (auto simp: Clamp_boundary_def IsNegativeInfinity_def IsPositiveInfinity_def signed_compare of_size_def split: if_splits)
next
  case (Symbol d offs)
  obtain ub where ub: "UpperBound g a = Some ub" "hi = ConstantValue (Clamp_boundary ub sz)"
    using e by (auto simp: UpperBound_size_def Option.bind_eq_Some_conv)
  obtain x where x: "env d = Some x" using w Symbol by (auto split: option.splits)
  have "below env ub (x + sint offs)" using UpperBound_sound(2) [OF c ub(1)] Symbol x by simp
  moreover have "x + sint offs \<le> size_max sz" using w Symbol x by (simp add: of_size_def)
  ultimately have "below env (Clamp_boundary ub sz) (x + sint offs)" by (rule Clamp_below)
  then have "x + sint offs \<le> sint hi" using Clamp_value [of ub sz] UpperBound_sound(1) [OF c ub(1)] ub(2) by (auto elim: IsConstantE)
  then show ?thesis using v Symbol x by simp
qed (use w in auto)

lemma boundary_inf:
  assumes c: "consistent g env" and w: "below env a w" "of_size sz w" and e: "LowerBound_size g a sz = Some lo" and v: "v \<le> sint lo"
  shows "below env a v"
proof (cases a)
  case (Constant k)
  then have "lo = ConstantValue (Clamp_boundary a sz)" using e by (simp add: LowerBound_size_def LowerBound.simps)
  then show ?thesis using w v Constant sint_size_constants [of sz]
    by (auto simp: Clamp_boundary_def IsNegativeInfinity_def IsPositiveInfinity_def signed_compare of_size_def split: if_splits)
next
  case (Symbol d offs)
  obtain lb where lb: "LowerBound g a = Some lb" "lo = ConstantValue (Clamp_boundary lb sz)"
    using e by (auto simp: LowerBound_size_def Option.bind_eq_Some_conv)
  obtain x where x: "env d = Some x" using w Symbol by (auto split: option.splits)
  have "above env lb (x + sint offs)" using LowerBound_sound(2) [OF c lb(1)] Symbol x by simp
  moreover have "size_min sz \<le> x + sint offs" using w Symbol x by (simp add: of_size_def)
  ultimately have "above env (Clamp_boundary lb sz) (x + sint offs)" by (rule Clamp_above)
  then have "sint lo \<le> x + sint offs" using Clamp_value [of lb sz] LowerBound_sound(1) [OF c lb(1)] lb(2) by (auto elim: IsConstantE)
  then show ?thesis using v Symbol x by simp
qed (use w in auto)

lemma Equals_boundary_value:
  assumes c: "consistent g env" and e: "Equals_boundary g a b = Some True"
  shows "above env a x \<Longrightarrow> above env b y \<Longrightarrow> above env b x" "below env a x \<Longrightarrow> below env b y \<Longrightarrow> below env b x"
proof -
  have "a = b \<or> (same_symbol env a b \<and> boundary_offset a = boundary_offset b)"
    using e DependOnSameSymbol_value [OF c, of a b]
    by (cases a; cases b) (auto simp: Equals_boundary_def IsInfinity_def IsNegativeInfinity_def IsPositiveInfinity_def split: if_splits)
  then show "above env a x \<Longrightarrow> above env b y \<Longrightarrow> above env b x" "below env a x \<Longrightarrow> below env b y \<Longrightarrow> below env b x"
    using same_symbol_order(4,6) [of env a b x y] by auto
qed

lemma JoinMin_sound:
  assumes c: "consistent g env" and a: "above env a x" "of_size sz x" and b: "above env b y" "of_size sz y" and e: "JoinMin g a b sz = Some m"
  shows "above env m x \<and> above env m y"
proof -
  obtain eq where eq: "Equals_boundary g a b = Some eq" using e by (auto simp: JoinMin_def Option.bind_eq_Some_conv)
  show ?thesis
  proof (cases eq)
    case True
    then show ?thesis using e eq a b Equals_boundary_value(1) [OF c, of a b x y] by (simp add: JoinMin_def)
  next
    case False
    then obtain d where d: "CanonicalizeForComparison g a b CanonicalizeMinBoundary = Some d"
      using e eq by (auto simp: JoinMin_def Option.bind_eq_Some_conv)
    show ?thesis
    proof (cases d)
      case (Some p)
      then obtain a' b' where p: "d = Some (a', b')" by (cases p) auto
      then have m: "m = (if boundary_offset a' \<le>s boundary_offset b' then a' else b')" using e d eq False by (simp add: JoinMin_def)
      have r: "above env a' x" "above env b' y" using lower.comparison(1) [OF c d [unfolded p]] a(1) b(1) by blast+
      show ?thesis using same_symbol_order(3,4) [OF lower.comparison(2) [OF c d [unfolded p]] r] r unfolding m by (auto simp: signed_compare)
    next
      case None
      then obtain la lb ha hb oa ob where k: "LowerBound_size g a sz = Some la" "LowerBound_size g b sz = Some lb" "UpperBound_size g a sz = Some ha" "UpperBound_size g b sz = Some hb"
        and m: "m = (if ha \<le>s lb \<and> \<not> oa then a else if hb \<le>s la \<and> \<not> ob then b else Constant (if la <s lb then la else lb))"
        using e d eq False by (auto simp: JoinMin_def Option.bind_eq_Some_conv)
      note l = size_bounds(1) [OF c a(2) a(1) k(1)] size_bounds(1) [OF c b(2) b(1) k(2)]
      show ?thesis unfolding m using l a(1) b(1) boundary_sup [OF c a k(3), of y] boundary_sup [OF c b k(4), of x] by (auto simp: signed_compare)
    qed
  qed
qed

lemma JoinMax_sound:
  assumes c: "consistent g env" and a: "below env a x" "of_size sz x" and b: "below env b y" "of_size sz y" and e: "JoinMax g a b sz = Some m"
  shows "below env m x \<and> below env m y"
proof -
  obtain eq where eq: "Equals_boundary g a b = Some eq" using e by (auto simp: JoinMax_def Option.bind_eq_Some_conv)
  show ?thesis
  proof (cases eq)
    case True
    then show ?thesis using e eq a b Equals_boundary_value(2) [OF c, of a b x y] by (simp add: JoinMax_def)
  next
    case False
    then obtain d where d: "CanonicalizeForComparison g a b CanonicalizeMaxBoundary = Some d"
      using e eq by (auto simp: JoinMax_def Option.bind_eq_Some_conv)
    show ?thesis
    proof (cases d)
      case (Some p)
      then obtain a' b' where p: "d = Some (a', b')" by (cases p) auto
      then have m: "m = (if boundary_offset b' \<le>s boundary_offset a' then a' else b')" using e d eq False by (simp add: JoinMax_def)
      have r: "below env a' x" "below env b' y" using upper.comparison(1) [OF c d [unfolded p]] a(1) b(1) by blast+
      show ?thesis using same_symbol_order(5,6) [OF upper.comparison(2) [OF c d [unfolded p]] r] r unfolding m by (auto simp: signed_compare)
    next
      case None
      then obtain la lb ha hb oa ob where k: "LowerBound_size g a sz = Some la" "LowerBound_size g b sz = Some lb" "UpperBound_size g a sz = Some ha" "UpperBound_size g b sz = Some hb"
        and m: "m = (if ha \<le>s lb \<and> \<not> ob then b else if hb \<le>s la \<and> \<not> oa then a else Constant (if hb <s ha then ha else hb))"
        using e d eq False by (auto simp: JoinMax_def Option.bind_eq_Some_conv)
      note l = size_bounds(2) [OF c a(2) a(1) k(3)] size_bounds(2) [OF c b(2) b(1) k(4)]
      show ?thesis unfolding m using l a(1) b(1) boundary_inf [OF c b k(2), of x] boundary_inf [OF c a k(1), of y] by (auto simp: signed_compare)
    qed
  qed
qed

lemma bound_mono: "above env b x \<Longrightarrow> x \<le> y \<Longrightarrow> above env b y" "below env b y \<Longrightarrow> x \<le> y \<Longrightarrow> below env b x"
  by (cases b; auto split: option.splits)+

lemma Full_contains: "int64 v \<Longrightarrow> contains env (Full kRangeBoundaryInt64) v"
  using contains_Full [of env "word_of_int v"] by (simp add: sint_word_of_int64)

lemma set_range_contains:
  assumes "int64 v"
  shows "above env (range_min r) v \<Longrightarrow> below env b v \<Longrightarrow> contains env (set_range_max b r) v"
    "below env (range_max r) v \<Longrightarrow> above env b v \<Longrightarrow> contains env (set_range_min b r) v"
  using Full_contains [OF assms] by (auto simp: set_range_max_def set_range_min_def contains_def)

text \<open>C32. The join of a range with the range of a definition, which is how the range of a phi is made from its inputs, contains
  a value of the one and the value of the other, if both ranges have their values at the same time. It then makes no difference whether
  the boundaries are compared as symbols, replaced by the definition itself, or compared by their constant bounds.\<close>

theorem Join_sound:
  assumes "consistent g env" "contains env r v" "of_size sz v" "env d = Some w" "contains env dr w" "of_size sz w"
    and "Join g r d (Some dr) sz = Some res"
  shows "contains env res v \<and> contains env res w"
proof -
  note c = assms(1)
  have u: "\<not> IsUnknown (range_min dr)" "\<not> IsUnknown (range_min r)"
    using assms(2,5) by (cases "range_min dr"; cases "range_min r"; auto simp: contains_def)+
  obtain unw dm dx where dep: "UnwrapConstraint g d = Some unw" "DependsOnSymbol g (range_min r) unw = Some dm" "DependsOnSymbol g (range_max r) unw = Some dx"
    using assms(7) u by (auto simp: Join_def Option.bind_eq_Some_conv)
  define other where "other = (if dm \<or> dx then mk_Range (FromDefinition g d 0) (FromDefinition g d 0) else dr)"
  note j = assms(7) [unfolded Join_def option.case, simplified u dep if_False bind.bind_lunit Let_def, folded other_def]
  obtain ir io sr so where k: "LowerBound_size g (range_min r) sz = Some ir" "LowerBound_size g (range_min other) sz = Some io"
      "UpperBound_size g (range_max r) sz = Some sr" "UpperBound_size g (range_max other) sz = Some so"
    and res: "(if sr \<le>s io then Some (set_range_max (range_max other) r)
         else if so \<le>s ir then Some (set_range_min (range_min other) r)
         else do {
           mn \<leftarrow> JoinMin g (range_min r) (range_min other) sz;
           mx \<leftarrow> JoinMax g (range_max r) (range_max other) sz;
           Some (mk_Range mn mx)
         }) = Some res"
    using j by (auto simp: Option.bind_eq_Some_conv)
  have o: "contains env other w"
    using assms(5) FromDefinition_exact [OF c assms(4), of 0] FromDefinition_finite by (auto simp: other_def contains_def mk_Range_def)
  have b: "above env (range_min r) v" "below env (range_max r) v" "above env (range_min other) w" "below env (range_max other) w"
    using assms(2) o by (auto simp: contains_def)
  note s = size_bounds(1) [OF c assms(3) b(1) k(1)] size_bounds(2) [OF c assms(3) b(2) k(3)]
    size_bounds(1) [OF c assms(6) b(3) k(2)] size_bounds(2) [OF c assms(6) b(4) k(4)]
  have i: "int64 v" "int64 w" using assms(3,6) size_int64 by blast+
  consider "sint sr \<le> sint io" "res = set_range_max (range_max other) r" | "sint so \<le> sint ir" "res = set_range_min (range_min other) r"
    | mn mx where "JoinMin g (range_min r) (range_min other) sz = Some mn" "JoinMax g (range_max r) (range_max other) sz = Some mx" "res = mk_Range mn mx"
    using res by (auto simp: Option.bind_eq_Some_conv signed_compare split: if_splits)
  then show ?thesis
  proof cases
    case 1
    then have "v \<le> w" using s by linarith
    then show ?thesis unfolding 1(2) using bound_mono b i set_range_contains(1) by metis
  next
    case 2
    then have "w \<le> v" using s by linarith
    then show ?thesis unfolding 2(2) using bound_mono b i set_range_contains(2) by metis
  next
    case 3
    then show ?thesis
      using JoinMin_sound [OF c b(1) assms(3) b(3) assms(6) 3(1)] JoinMax_sound [OF c b(2) assms(3) b(4) assms(6) 3(2)] mk_Range_int64 i by blast
  qed
qed

theorem Join_sound_witness:
  "Join example_graph (mk_Range (Constant 2) (Symbol 0 (- 1))) 1 (Some (mk_Range (Constant 0) (Constant 7))) kRangeBoundarySmi =
     Some (mk_Range (Constant 0) (Constant (kSmiMax - 1))) \<and>
   contains example_env (mk_Range (Constant 0) (Constant (kSmiMax - 1))) 9 \<and> contains example_env (mk_Range (Constant 0) (Constant (kSmiMax - 1))) 3"
proof -
  have j: "Join example_graph (mk_Range (Constant 2) (Symbol 0 (- 1))) 1 (Some (mk_Range (Constant 0) (Constant 7))) kRangeBoundarySmi =
      Some (mk_Range (Constant 0) (Constant (kSmiMax - 1)))" by code_simp
  have "contains example_env (mk_Range (Constant 2) (Symbol 0 (- 1))) 9" "of_size kRangeBoundarySmi 9" "example_env 1 = Some 3"
    "contains example_env (mk_Range (Constant 0) (Constant 7)) 3" "of_size kRangeBoundarySmi 3" by code_simp+
  from Join_sound [OF example_consistent this j] j show ?thesis by blast
qed

text \<open>
  When the constant bounds of the ranges are ordered, the join takes the lower boundary of the lower range and the upper boundary of the
  upper one, without comparing the others.
\<close>

lemma Join_ordered:
  assumes "\<not> IsUnknown (range_min r)" "\<not> IsUnknown (range_min dr)"
    and "UnwrapConstraint g d = Some u" "DependsOnSymbol g (range_min r) u = Some False" "DependsOnSymbol g (range_max r) u = Some False"
    and "LowerBound_size g (range_min r) sz = Some inf_range" "LowerBound_size g (range_min dr) sz = Some inf_other"
    and "UpperBound_size g (range_max r) sz = Some sup_range" "UpperBound_size g (range_max dr) sz = Some sup_other"
  shows "sup_range \<le>s inf_other \<Longrightarrow> Join g r d (Some dr) sz = Some (set_range_max (range_max dr) r)"
    "\<not> sup_range \<le>s inf_other \<Longrightarrow> sup_other \<le>s inf_range \<Longrightarrow> Join g r d (Some dr) sz = Some (set_range_min (range_min dr) r)"
  using assms by (simp_all add: Join_def)

text \<open>C34. What the join keeps when the constant bounds of the definition's range are below those of the range it is joined to: a value
  of the definition is in the join exactly if it is not above the upper boundary of the other range, and a value of the other
  range exactly if it is not below the lower boundary of the definition's. So where a symbolic upper boundary
  is below the value of the definition, because the other range has no value at the time, the join loses that value.\<close>

theorem Join_loses_values:
  assumes "\<not> IsUnknown (range_min r)" "\<not> IsInfinity (range_min dr)"
    and "UnwrapConstraint g d = Some u" "DependsOnSymbol g (range_min r) u = Some False" "DependsOnSymbol g (range_max r) u = Some False"
    and "LowerBound_size g (range_min r) sz = Some inf_range" "LowerBound_size g (range_min dr) sz = Some inf_other"
    and "UpperBound_size g (range_max r) sz = Some sup_range" "UpperBound_size g (range_max dr) sz = Some sup_other"
    and "sup_other \<le>s inf_range" "\<not> sup_range \<le>s inf_other" "contains env dr w"
  shows "\<exists>res. Join g r d (Some dr) sz = Some res \<and> (contains env res w \<longleftrightarrow> below env (range_max r) w) \<and>
    (\<forall>v. contains env r v \<longrightarrow> (contains env res v \<longleftrightarrow> above env (range_min dr) v))"
proof -
  have "\<not> IsUnknown (range_min dr)" using assms(12) by (cases "range_min dr") (auto simp: contains_def)
  then have "Join g r d (Some dr) sz = Some (set_range_min (range_min dr) r)" using Join_ordered(2) [OF assms(1) _ assms(3-9,11,10)] by simp
  moreover have "set_range_min (range_min dr) r = r\<lparr>range_min := range_min dr\<rparr>" using assms(2) by (simp add: set_range_min_def)
  ultimately show ?thesis using assms(12) by (auto simp: contains_def)
qed

definition short_env :: environment where
  "short_env d = (if d = 0 then Some 3 else if d = 4 then Some 5 else None)"

theorem Join_loses_values_witness:
  "consistent example_graph short_env \<and> short_env 4 = Some 5 \<and> contains short_env (mk_Range (Constant 0) (Constant 7)) 5 \<and>
   (\<exists>res. Join example_graph (mk_Range (Constant 20) (Symbol 0 (- 1))) 4 (Some (mk_Range (Constant 0) (Constant 7))) kRangeBoundarySmi = Some res \<and>
      \<not> contains short_env res 5)"
proof -
  have c: "consistent example_graph short_env"
    by (simp add: consistent_def example_graph_def short_env_def smi_def mk_Range_def contains_def IsInfinity_def IsNegativeInfinity_def
        IsPositiveInfinity_def smi_constants)
  let ?r = "mk_Range (Constant 20) (Symbol 0 (- 1))" and ?d = "mk_Range (Constant 0) (Constant 7)"
  have h: "\<not> IsUnknown (range_min ?r)" "\<not> IsInfinity (range_min ?d)" "UnwrapConstraint example_graph 4 = Some 4"
    "DependsOnSymbol example_graph (range_min ?r) 4 = Some False" "DependsOnSymbol example_graph (range_max ?r) 4 = Some False"
    "LowerBound_size example_graph (range_min ?r) kRangeBoundarySmi = Some 20" "LowerBound_size example_graph (range_min ?d) kRangeBoundarySmi = Some 0"
    "UpperBound_size example_graph (range_max ?r) kRangeBoundarySmi = Some (kSmiMax - 1)" "UpperBound_size example_graph (range_max ?d) kRangeBoundarySmi = Some 7"
    "7 \<le>s (20 :: i64)" "\<not> kSmiMax - 1 \<le>s 0" by code_simp+
  have d: "contains short_env ?d 5" "short_env 4 = Some 5" "\<not> below short_env (range_max ?r) 5" by code_simp+
  show ?thesis using Join_loses_values [OF h d(1)] c d by blast
qed

lemma Clamp_id:
  assumes "of_size sz (sint c)"
  shows "Clamp_boundary (Constant c) sz = Constant c"
proof -
  obtain a b where "MinConstant sz = Constant a" "sint a = size_min sz" "MaxConstant sz = Constant b" "sint b = size_max sz"
    using sint_size_constants [of sz] by blast
  then show ?thesis using assms sint_inject
    by (auto simp: Clamp_boundary_def IsNegativeInfinity_def IsPositiveInfinity_def signed_compare of_size_def)
qed

lemma size_of_Constant:
  assumes "of_size sz (sint k)"
  shows "LowerBound_size g (Constant k) sz = Some k" "UpperBound_size g (Constant k) sz = Some k"
  using assms by (simp_all add: LowerBound_size_def UpperBound_size_def LowerBound.simps UpperBound.simps Clamp_id)

lemma Overflowed_Constant: "of_size sz (sint k) \<Longrightarrow> Overflowed g (Constant k) sz = Some False"
  by (simp add: Overflowed_def Clamp_id Equals_boundary_def)

lemma JoinMin_Constant:
  assumes "of_size sz (sint a)" "of_size sz (sint b)"
  shows "\<exists>m. JoinMin g (Constant a) (Constant b) sz = Some (Constant m) \<and> sint m = min (sint a) (sint b)"
  using assms by (auto simp: JoinMin_def Equals_boundary_def CanonicalizeForComparison_def size_of_Constant LowerBound.simps UpperBound.simps
      Overflowed_Constant signed_compare)

lemma JoinMax_Constant:
  assumes "of_size sz (sint a)" "of_size sz (sint b)"
  shows "\<exists>m. JoinMax g (Constant a) (Constant b) sz = Some (Constant m) \<and> sint m = max (sint a) (sint b)"
  using assms by (auto simp: JoinMax_def Equals_boundary_def CanonicalizeForComparison_def size_of_Constant LowerBound.simps UpperBound.simps
      Overflowed_Constant signed_compare)

text \<open>C33. The join of two ranges with constant boundaries of the size is exact, whatever the values at the time are: it is the smallest range
  that contains both, with the smaller lower and the larger upper boundary.\<close>

theorem Join_constant_hull:
  assumes "of_size sz (sint a)" "of_size sz (sint b)" "sint a \<le> sint b"
    and "of_size sz (sint a')" "of_size sz (sint b')" "sint a' \<le> sint b'" and "UnwrapConstraint g d = Some u"
  shows "\<exists>m n. Join g (mk_Range (Constant a) (Constant b)) d (Some (mk_Range (Constant a') (Constant b'))) sz = Some (mk_Range (Constant m) (Constant n)) \<and>
    sint m = min (sint a) (sint a') \<and> sint n = max (sint b) (sint b')"
proof -
  have r: "mk_Range (Constant p) (Constant q) = \<lparr>range_min = Constant p, range_max = Constant q\<rparr>" for p q by (simp add: mk_Range_def not_infinite)
  obtain m n where m: "JoinMin g (Constant a) (Constant a') sz = Some (Constant m)" "sint m = min (sint a) (sint a')"
    and n: "JoinMax g (Constant b) (Constant b') sz = Some (Constant n)" "sint n = max (sint b) (sint b')"
    using JoinMin_Constant [OF assms(1,4)] JoinMax_Constant [OF assms(2,5)] by blast
  have "Join g (mk_Range (Constant a) (Constant b)) d (Some (mk_Range (Constant a') (Constant b'))) sz =
      Some (if b \<le>s a' then mk_Range (Constant a) (Constant b') else if b' \<le>s a then mk_Range (Constant a') (Constant b) else mk_Range (Constant m) (Constant n))"
    using assms(7) m(1) n(1) by (simp add: Join_def r DependsOnSymbol_def size_of_Constant assms set_range_max_def set_range_min_def not_infinite)
  then show ?thesis using m(2) n(2) assms(3,6) by (auto simp: signed_compare)
qed

theorem Join_constant_hull_witness:
  "\<exists>m n. Join example_graph (mk_Range (Constant 2) (Constant 9)) 1 (Some (mk_Range (Constant 5) (Constant 20))) kRangeBoundarySmi =
     Some (mk_Range (Constant m) (Constant n)) \<and> sint m = 2 \<and> sint n = 20"
proof -
  have "of_size kRangeBoundarySmi (sint (2 :: i64))" "of_size kRangeBoundarySmi (sint (9 :: i64))" "sint (2 :: i64) \<le> sint (9 :: i64)"
    "of_size kRangeBoundarySmi (sint (5 :: i64))" "of_size kRangeBoundarySmi (sint (20 :: i64))" "sint (5 :: i64) \<le> sint (20 :: i64)"
    "UnwrapConstraint example_graph 1 = Some 1" by code_simp+
  from Join_constant_hull [OF this] show ?thesis by simp
qed

section \<open>Inferred ranges\<close>

lemma size_order: "size_min sz < size_max sz" "of_size sz (size_min sz)" "of_size sz (size_max sz)"
  by (cases sz; simp add: size_min_def size_max_def of_size_def)+

lemma Overflowed_value:
  assumes "Overflowed g b sz = Some False" "lower_value b \<or> upper_value b"
  shows "\<exists>k. b = Constant k \<and> of_size sz (sint k)"
proof (cases b)
  case (Constant k)
  then have "Constant k = Clamp_boundary (Constant k) sz"
    using assms(1) Clamp_value [of b sz] by (auto simp: Overflowed_def Equals_boundary_def Option.bind_eq_Some_conv lower_value_def elim!: IsConstantE)
  then show ?thesis using Constant sint_size_constants [of sz] size_order(1) [of sz]
    by (auto simp: Clamp_boundary_def of_size_def IsNegativeInfinity_def IsPositiveInfinity_def signed_compare split: if_splits)
qed (use assms Clamp_value [of b sz] in \<open>auto simp: Overflowed_def Equals_boundary_def lower_value_def upper_value_def IsInfinity_def elim!: IsConstantE split: if_splits\<close>)

lemma Fits_sound:
  assumes c: "consistent g env" and v: "contains env r v" and f: "Fits g r sz = Some True"
  shows "of_size sz v"
proof -
  obtain lb ub where b: "LowerBound g (range_min r) = Some lb" "Overflowed g lb sz = Some False" "UpperBound g (range_max r) = Some ub" "Overflowed g ub sz = Some False"
    using f by (auto simp: Fits_def Option.bind_eq_Some_conv split: if_splits)
  obtain l u where "lb = Constant l" "of_size sz (sint l)" "ub = Constant u" "of_size sz (sint u)"
    using Overflowed_value [OF b(2)] Overflowed_value [OF b(4)] LowerBound_sound(1) [OF c b(1)] UpperBound_sound(1) [OF c b(3)] by blast
  moreover have "above env lb v" "below env ub v"
    using LowerBound_sound(2) [OF c b(1)] UpperBound_sound(2) [OF c b(3)] v by (auto simp: contains_def)
  ultimately show ?thesis by (auto simp: of_size_def)
qed

lemma Full_does_not_fit:
  assumes c: "consistent g env" and "Fits g (Full kRangeBoundaryInt64) sz = Some True"
  shows "sz = kRangeBoundaryInt64"
  using Fits_sound [OF c Full_contains assms(2), of "- (2 ^ 63)"] by (cases sz) (auto simp: of_size_def size_min_def int64_def)

text \<open>C7. The range inferred for a binary operation is right and the overflow check is left out safely: when the operands are in
  their ranges, there is a range, and it contains the 64-bit result if that is of the size of the representation. When
  the operation is marked as not overflowing, the result is of the size, and for the sizes below 64 bits it is the exact integer result
  of an addition, subtraction, multiplication, division or left shift: nothing was lost by wrapping.\<close>

theorem InferRangeHelper_sound:
  assumes "consistent g env" "contains env l (sint x)" "contains env r (sint y)"
    and "IsArrayLength g left_defn = Some True \<longrightarrow> env (the left_defn) = Some (sint x)"
    and "InferRangeHelper g op sz (Some l) (Some r) left_defn = Some inferred" "int64_op op x y = Some z"
  shows "\<exists>res overflow. inferred = Some (res, overflow) \<and> (of_size sz (sint z) \<longrightarrow> contains env res (sint z)) \<and>
    (\<not> overflow \<longrightarrow> of_size sz (sint z) \<and>
       (sz \<noteq> kRangeBoundaryInt64 \<longrightarrow> (\<forall>v. exact_op op (sint x) (sint y) = Some v \<longrightarrow> v = sint z)))"
proof -
  have "\<not> IsUnknown (range_min l)" "\<not> IsUnknown (range_min r)"
    using assms(2,3) by (cases "range_min l"; cases "range_min r"; auto simp: contains_def)+
  then obtain rng fits where k: "BinaryOp g op l r left_defn = Some rng" "Fits g rng sz = Some fits" "inferred = Some (Clamp_range rng sz, \<not> fits)"
    using assms(5) by (auto simp: InferRangeHelper_def Range_IsUnknown_def Option.bind_eq_Some_conv)
  note b = BinaryOp_contains [OF assms(1-4) k(1) assms(6)]
  have "of_size sz (sint z) \<longrightarrow> contains env (Clamp_range rng sz) (sint z)"
    using b(1) Clamp_above Clamp_below by (auto simp: contains_def Clamp_range_def of_size_def)
  moreover have "fits \<longrightarrow> of_size sz (sint z)" using Fits_sound [OF assms(1) b(1)] k(2) by simp
  moreover have "fits \<and> sz \<noteq> kRangeBoundaryInt64 \<longrightarrow> (\<forall>v. exact_op op (sint x) (sint y) = Some v \<longrightarrow> v = sint z)"
    using b(2) Full_does_not_fit [OF assms(1)] k(2) by metis
  ultimately show ?thesis using k(3) by blast
qed

theorem InferRangeHelper_sound_witness:
  "InferRangeHelper example_graph kMUL kRangeBoundarySmi (Some (mk_Range (Constant 0) (Constant 1000))) (Some (mk_Range (Constant (- 5)) (Constant 7))) None =
     Some (Some (mk_Range (Constant (- 7000)) (Constant 7000), False)) \<and>
   contains example_env (mk_Range (Constant (- 7000)) (Constant 7000)) (sint (30 * 7 :: i64)) \<and> of_size kRangeBoundarySmi (sint (30 * 7 :: i64))"
proof -
  have i: "InferRangeHelper example_graph kMUL kRangeBoundarySmi (Some (mk_Range (Constant 0) (Constant 1000))) (Some (mk_Range (Constant (- 5)) (Constant 7))) None =
     Some (Some (mk_Range (Constant (- 7000)) (Constant 7000), False))" by code_simp
  have "contains example_env (mk_Range (Constant 0) (Constant 1000)) (sint (30 :: i64))" "contains example_env (mk_Range (Constant (- 5)) (Constant 7)) (sint (7 :: i64))"
    "IsArrayLength example_graph None = Some True \<longrightarrow> example_env (the None) = Some (sint (30 :: i64))" by code_simp+
  from InferRangeHelper_sound [OF example_consistent this i, of "30 * 7"] i show ?thesis by (auto simp: int64_op_def)
qed

section \<open>Shifts without a limit\<close>

text \<open>C35. Right shifts of ranges are undefined when the shift count can be 64 or more: a positive range is shifted by the
  largest count without a limit, and a negative one as well. The shift of the values themselves is defined for every count.\<close>

theorem Range_Shr_undefined:
  assumes "63 <s hi" "0 <s a \<or> b \<le>s 0"
  shows "BinaryOp g kSHR (mk_Range (Constant a) (Constant b)) (mk_Range (Constant lo) (Constant hi)) d = None"
proof -
  have r: "mk_Range (Constant p) (Constant q) = \<lparr>range_min = Constant p, range_max = Constant q\<rparr>" for p q by (simp add: mk_Range_def not_infinite)
  have h: "0 <s hi" "\<not> hi <s 64" using assms(1) by (auto simp: signed_compare)
  have "Shr_boundary x hi = None" for x using h by (simp add: Shr_boundary_def)
  then have "Range_Shr g (mk_Range (Constant a) (Constant b)) (mk_Range (Constant lo) (Constant hi)) = None"
    using assms(2) h unfolding Range_Shr_def r ConstantMin_def ConstantMax_def
    by (auto simp: LowerBound.simps UpperBound.simps Clamp_Int64 signed_compare Let_def split: bind_splits)
  then show ?thesis by (simp add: BinaryOp_def)
qed

theorem Range_Shr_undefined_witness:
  "BinaryOp example_graph kSHR (mk_Range (Constant 100) (Constant 200)) (mk_Range (Constant 0) (Constant 64)) None = None \<and>
   int64_op kSHR 100 64 = Some 0"
  using Range_Shr_undefined [of 64 100 200 example_graph 0 None] by (auto simp: int64_op_def signed_compare)

end
