(* ===== verification/Range_Fixpoint.thy ===== *)
theory Range_Fixpoint
  imports Range_Check
begin

text \<open>
  The iteration of the analysis: widening and narrowing keep the values of a phi, widening ends, and the searches along symbols,
  constraints and operands end on acyclic graphs.
\<close>

section \<open>Widening and narrowing\<close>

lemma WidenMin_cases:
  assumes "WidenMin g r n sz = Some m"
  obtains (extreme) "m = MinConstant sz"
  | (same) "m = range_min r" "DependOnSameSymbol g (range_min r) (range_min n) = Some True" "boundary_offset (range_min r) \<le>s boundary_offset (range_min n)"
  | (apart) x y where "m = range_min r" "IsSymbol (range_min r)" "UpperBound_size g (range_min r) sz = Some x" "LowerBound_size g (range_min n) sz = Some y" "x \<le>s y"
  | (const) k l where "m = k" "ConstantMin g (Some r) sz = Some k" "ConstantMin g (Some n) sz = Some l" "ConstantValue k \<le>s ConstantValue l"
proof (cases "m = MinConstant sz")
  case False
  define k where "k = do {
              c \<leftarrow> ConstantMin g (Some r) sz;
              d \<leftarrow> ConstantMin g (Some n) sz;
              Some (if ConstantValue c \<le>s ConstantValue d then c else MinConstant sz)
            }"
  consider "k = Some m" | "IsSymbol (range_min r)" "k \<noteq> Some m" using assms by (cases "IsSymbol (range_min r)") (auto simp: WidenMin_def k_def Let_def)
  then show ?thesis
  proof cases
    case 1
    then show ?thesis using False const unfolding k_def by (auto simp: Option.bind_eq_Some_conv split: if_splits)
  next
    case 2
    then show ?thesis using assms False same apart unfolding WidenMin_def k_def [symmetric] Let_def
      by (auto simp: Option.bind_eq_Some_conv split: if_splits)
  qed
qed (rule extreme)

lemma WidenMax_cases:
  assumes "WidenMax g r n sz = Some m"
  obtains (extreme) "m = MaxConstant sz"
  | (same) "m = range_max r" "DependOnSameSymbol g (range_max r) (range_max n) = Some True" "boundary_offset (range_max n) \<le>s boundary_offset (range_max r)"
  | (apart) x y where "m = range_max r" "IsSymbol (range_max r)" "LowerBound_size g (range_max r) sz = Some x" "UpperBound_size g (range_max n) sz = Some y" "y \<le>s x"
  | (const) k l where "m = k" "ConstantMax g (Some r) sz = Some k" "ConstantMax g (Some n) sz = Some l" "ConstantValue l \<le>s ConstantValue k"
proof (cases "m = MaxConstant sz")
  case False
  define k where "k = do {
              c \<leftarrow> ConstantMax g (Some r) sz;
              d \<leftarrow> ConstantMax g (Some n) sz;
              Some (if ConstantValue d \<le>s ConstantValue c then c else MaxConstant sz)
            }"
  consider "k = Some m" | "IsSymbol (range_max r)" "k \<noteq> Some m" using assms by (cases "IsSymbol (range_max r)") (auto simp: WidenMax_def k_def Let_def)
  then show ?thesis
  proof cases
    case 1
    then show ?thesis using False const unfolding k_def by (auto simp: Option.bind_eq_Some_conv split: if_splits)
  next
    case 2
    then show ?thesis using assms False same apart unfolding WidenMax_def k_def [symmetric] Let_def
      by (auto simp: Option.bind_eq_Some_conv split: if_splits)
  qed
qed (rule extreme)

lemma WidenMin_sound:
  assumes c: "consistent g env" and w: "above env (range_min r) x" "of_size sz x" and v: "above env (range_min n) y" "of_size sz y"
    and e: "WidenMin g r n sz = Some m"
  shows "above env m x \<and> above env m y"
  using e
proof (cases rule: WidenMin_cases)
  case extreme
  then show ?thesis using w(2) v(2) sint_size_constants(1) [of sz] by (auto simp: of_size_def)
next
  case same
  then show ?thesis using same_symbol_order(3) [OF DependOnSameSymbol_value [OF c same(2)] w(1) v(1)] w(1) by (simp add: signed_compare)
next
  case (apart a b)
  then show ?thesis using w(1) boundary_sup [OF c w apart(3), of y] size_bounds(1) [OF c v(2,1) apart(4)] by (simp add: signed_compare)
next
  case (const k l)
  note d = const(2,3) [unfolded ConstantMin_def option.case Option.bind_eq_Some_conv]
  obtain lr ln where l: "LowerBound g (range_min r) = Some lr" "k = Clamp_boundary lr sz" "LowerBound g (range_min n) = Some ln" "l = Clamp_boundary ln sz"
    using d by auto
  have "IsConstant k" "IsConstant l" using l LowerBound_sound(1) [OF c] Clamp_value by auto
  moreover have "above env k x" "above env l y"
    unfolding l using LowerBound_sound(2) [OF c l(1) w(1)] LowerBound_sound(2) [OF c l(3) v(1)] w(2) v(2) by (auto intro!: Clamp_above simp: of_size_def)
  ultimately show ?thesis unfolding const(1) using const(4) by (auto simp: signed_compare elim!: IsConstantE)
qed

lemma WidenMax_sound:
  assumes c: "consistent g env" and w: "below env (range_max r) x" "of_size sz x" and v: "below env (range_max n) y" "of_size sz y"
    and e: "WidenMax g r n sz = Some m"
  shows "below env m x \<and> below env m y"
  using e
proof (cases rule: WidenMax_cases)
  case extreme
  then show ?thesis using w(2) v(2) sint_size_constants(2) [of sz] by (auto simp: of_size_def)
next
  case same
  then show ?thesis using same_symbol_order(5) [OF DependOnSameSymbol_value [OF c same(2)] w(1) v(1)] w(1) by (simp add: signed_compare)
next
  case (apart a b)
  then show ?thesis using w(1) boundary_inf [OF c w apart(3), of y] size_bounds(2) [OF c v(2,1) apart(4)] by (simp add: signed_compare)
next
  case (const k l)
  note d = const(2,3) [unfolded ConstantMax_def option.case Option.bind_eq_Some_conv]
  obtain lr ln where l: "UpperBound g (range_max r) = Some lr" "k = Clamp_boundary lr sz" "UpperBound g (range_max n) = Some ln" "l = Clamp_boundary ln sz"
    using d by auto
  have "IsConstant k" "IsConstant l" using l UpperBound_sound(1) [OF c] Clamp_value by auto
  moreover have "below env k x" "below env l y"
    unfolding l using UpperBound_sound(2) [OF c l(1) w(1)] UpperBound_sound(2) [OF c l(3) v(1)] w(2) v(2) by (auto intro!: Clamp_below simp: of_size_def)
  ultimately show ?thesis unfolding const(1) using const(4) by (auto simp: signed_compare elim!: IsConstantE)
qed

lemma Narrow_cases:
  "NarrowMin g r n sz = Some m \<Longrightarrow> m = range_min r \<or> m = range_min n"
  "NarrowMax g r n sz = Some m \<Longrightarrow> m = range_max r \<or> m = range_max n"
  by (auto simp: NarrowMin_def NarrowMax_def Option.bind_eq_Some_conv)

lemma Equals_range_contains:
  assumes "consistent g env" "Equals_range g r (Some r') = Some True" "contains env r v" "contains env r' w"
  shows "contains env r' v"
  using assms(2-) Equals_boundary_value [OF assms(1), of "range_min r" "range_min r'" v w] Equals_boundary_value [OF assms(1), of "range_max r" "range_max r'" v w]
  by (auto simp: Equals_range_def contains_def Option.bind_eq_Some_conv split: if_splits)

lemma contains_known: "contains env r v \<Longrightarrow> \<not> IsUnknown (range_min r)"
  by (cases "range_min r") (auto simp: contains_def)

text \<open>C30. A step of the iteration on a phi keeps the values: with widening the new range has the values of the old one and of the
  range just inferred from the inputs; with narrowing it has the values that are in both; without either it has those just inferred.\<close>

theorem InferRange_step_sound:
  assumes "consistent g env" "contains env old x" "of_size sz x" "contains env new y" "of_size sz y"
    and "RangeAnalysis_InferRange g op (Some sz) (Some old) (Some new) = Some (res, changed)"
  shows "\<exists>r. res = Some r \<and> (op = WIDEN \<longrightarrow> contains env r x \<and> contains env r y) \<and> (op = NARROW \<and> x = y \<longrightarrow> contains env r y) \<and>
    (op = NONE \<longrightarrow> contains env r y)"
proof -
  note c = assms(1)
  have i: "int64 x" "int64 y" using assms(3,5) size_int64 by blast+
  have b: "above env (range_min old) x" "below env (range_max old) x" "above env (range_min new) y" "below env (range_max new) y"
    using assms(2,4) by (auto simp: contains_def)
  define P where "P r \<longleftrightarrow> (op = WIDEN \<longrightarrow> contains env r x \<and> contains env r y) \<and> (op = NARROW \<and> x = y \<longrightarrow> contains env r y) \<and> (op = NONE \<longrightarrow> contains env r y)" for r
  have "\<exists>r eq. P r \<and> Equals_range g r (Some old) = Some eq \<and> res = (if eq then Some old else Some r)"
  proof (cases op)
    case WIDEN
    then obtain mn mx eq where w: "WidenMin g old new sz = Some mn" "WidenMax g old new sz = Some mx" "Equals_range g (mk_Range mn mx) (Some old) = Some eq"
      "res = (if eq then Some old else Some (mk_Range mn mx))"
      using assms(6) contains_known [OF assms(2)] contains_known [OF assms(4)]
      by (auto simp: RangeAnalysis_InferRange_def Range_IsUnknown_def Option.bind_eq_Some_conv split: if_splits)
    then have "P (mk_Range mn mx)" using WidenMin_sound [OF c b(1) assms(3) b(3) assms(5) w(1)] WidenMax_sound [OF c b(2) assms(3) b(4) assms(5) w(2)] i WIDEN
      by (auto simp: P_def intro!: mk_Range_int64)
    then show ?thesis using w(3,4) by blast
  next
    case NARROW
    then obtain mn mx eq where w: "NarrowMin g old new sz = Some mn" "NarrowMax g old new sz = Some mx" "Equals_range g (mk_Range mn mx) (Some old) = Some eq"
      "res = (if eq then Some old else Some (mk_Range mn mx))"
      using assms(6) contains_known [OF assms(2)] contains_known [OF assms(4)]
      by (auto simp: RangeAnalysis_InferRange_def Range_IsUnknown_def Option.bind_eq_Some_conv split: if_splits)
    then have "P (mk_Range mn mx)" using Narrow_cases [of g old new sz] b i NARROW by (force simp: P_def intro!: mk_Range_int64)
    then show ?thesis using w(3,4) by blast
  next
    case NONE
    then obtain eq where "Equals_range g new (Some old) = Some eq" "res = (if eq then Some old else Some new)"
      using assms(6) contains_known [OF assms(2)] contains_known [OF assms(4)]
      by (auto simp: RangeAnalysis_InferRange_def Range_IsUnknown_def Option.bind_eq_Some_conv split: if_splits)
    moreover have "P new" using assms(4) NONE by (simp add: P_def)
    ultimately show ?thesis by blast
  qed
  then show ?thesis using Equals_range_contains [OF c _ _ assms(2)] unfolding P_def by (metis (full_types))
qed

theorem InferRange_step_sound_witness:
  "contains example_env (the (fst (the (RangeAnalysis_InferRange example_graph WIDEN (Some kRangeBoundarySmi) (Some (mk_Range (Constant 0) (Constant 5)))
     (Some (mk_Range (Constant 0) (Symbol 0 (- 1)))))))) 9"
proof -
  have e: "RangeAnalysis_InferRange example_graph WIDEN (Some kRangeBoundarySmi) (Some (mk_Range (Constant 0) (Constant 5)))
     (Some (mk_Range (Constant 0) (Symbol 0 (- 1)))) = Some (Some (mk_Range (Constant 0) (Constant kSmiMax)), True)" by code_simp
  have "contains example_env (mk_Range (Constant 0) (Constant 5)) 5" "of_size kRangeBoundarySmi 5"
    "contains example_env (mk_Range (Constant 0) (Symbol 0 (- 1))) 9" "of_size kRangeBoundarySmi 9" by code_simp+
  from InferRange_step_sound [OF example_consistent this e] show ?thesis unfolding e by auto
qed

section \<open>Widening ends\<close>

text \<open>How often a boundary can still change: a symbol or an infinity, a constant out of the size, one in it, and the extreme one.\<close>

definition rank_min :: "RangeSize \<Rightarrow> RangeBoundary \<Rightarrow> nat" where
  "rank_min sz b = (case b of Constant c \<Rightarrow> if sint c = size_min sz then 0 else if of_size sz (sint c) then 1 else 2 | _ \<Rightarrow> 3)"
definition rank_max :: "RangeSize \<Rightarrow> RangeBoundary \<Rightarrow> nat" where
  "rank_max sz b = (case b of Constant c \<Rightarrow> if sint c = size_max sz then 0 else if of_size sz (sint c) then 1 else 2 | _ \<Rightarrow> 3)"

lemma LowerBound_value: "LowerBound g b = Some lb \<Longrightarrow> lower_value lb \<or> upper_value lb"
  using Add_value(1) by (subst (asm) LowerBound.simps) (auto simp: lower_value_def Option.bind_eq_Some_conv split: RangeBoundary.splits)

lemma UpperBound_value: "UpperBound g b = Some ub \<Longrightarrow> lower_value ub \<or> upper_value ub"
  using Add_value(2) by (subst (asm) UpperBound.simps) (auto simp: upper_value_def Option.bind_eq_Some_conv split: RangeBoundary.splits)

lemma Clamp_of_size:
  assumes "lower_value b \<or> upper_value b"
  shows "\<exists>c. Clamp_boundary b sz = Constant c \<and> of_size sz (sint c)"
proof -
  obtain c d where "MinConstant sz = Constant c" "sint c = size_min sz" "MaxConstant sz = Constant d" "sint d = size_max sz"
    using sint_size_constants [of sz] by blast
  then show ?thesis using assms size_order(1) [of sz]
    by (cases b) (auto simp: Clamp_boundary_def lower_value_def upper_value_def IsNegativeInfinity_def IsPositiveInfinity_def signed_compare of_size_def)
qed

lemma WidenMin_rank:
  assumes "WidenMin g r n sz = Some m"
  shows "\<not> IsInfinity m" "m = range_min r \<or> rank_min sz m < rank_min sz (range_min r)"
proof -
  have "\<not> IsInfinity m \<and> (m = range_min r \<or> rank_min sz m < rank_min sz (range_min r))"
    using assms
  proof (cases rule: WidenMin_cases)
    case extreme
    obtain k where k: "MinConstant sz = Constant k" "sint k = size_min sz" using sint_size_constants by blast
    then show ?thesis unfolding extreme using sint_inject by (cases "range_min r") (auto simp: not_infinite rank_min_def)
  next
    case same
    then show ?thesis by (cases "range_min r") (auto simp: DependOnSameSymbol_def IsInfinity_def IsNegativeInfinity_def IsPositiveInfinity_def)
  next
    case (apart x y)
    then show ?thesis by (cases "range_min r") (auto simp: IsInfinity_def IsNegativeInfinity_def IsPositiveInfinity_def)
  next
    case (const k l)
    then obtain lr where lr: "LowerBound g (range_min r) = Some lr" "k = Clamp_boundary lr sz" by (auto simp: ConstantMin_def Option.bind_eq_Some_conv)
    then obtain c where c: "k = Constant c" "of_size sz (sint c)" using Clamp_of_size LowerBound_value by blast
    show ?thesis
    proof (cases "range_min r")
      case (Constant d)
      then have "lr = Constant d" using lr(1) by (simp add: LowerBound.simps)
      then show ?thesis using const(1) c lr(2) Constant Clamp_id [of sz d] size_order(2,3) [of sz] by (auto simp: not_infinite rank_min_def)
    qed (use const(1) c in \<open>auto simp: not_infinite rank_min_def\<close>)
  qed
  then show "\<not> IsInfinity m" "m = range_min r \<or> rank_min sz m < rank_min sz (range_min r)" by blast+
qed

lemma WidenMax_rank:
  assumes "WidenMax g r n sz = Some m"
  shows "\<not> IsInfinity m" "m = range_max r \<or> rank_max sz m < rank_max sz (range_max r)"
proof -
  have "\<not> IsInfinity m \<and> (m = range_max r \<or> rank_max sz m < rank_max sz (range_max r))"
    using assms
  proof (cases rule: WidenMax_cases)
    case extreme
    obtain k where k: "MaxConstant sz = Constant k" "sint k = size_max sz" using sint_size_constants by blast
    then show ?thesis unfolding extreme using sint_inject by (cases "range_max r") (auto simp: not_infinite rank_max_def)
  next
    case same
    then show ?thesis by (cases "range_max r") (auto simp: DependOnSameSymbol_def IsInfinity_def IsNegativeInfinity_def IsPositiveInfinity_def)
  next
    case (apart x y)
    then show ?thesis by (cases "range_max r") (auto simp: IsInfinity_def IsNegativeInfinity_def IsPositiveInfinity_def)
  next
    case (const k l)
    then obtain lr where lr: "UpperBound g (range_max r) = Some lr" "k = Clamp_boundary lr sz" by (auto simp: ConstantMax_def Option.bind_eq_Some_conv)
    then obtain c where c: "k = Constant c" "of_size sz (sint c)" using Clamp_of_size UpperBound_value by blast
    show ?thesis
    proof (cases "range_max r")
      case (Constant d)
      then have "lr = Constant d" using lr(1) by (simp add: UpperBound.simps)
      then show ?thesis using const(1) c lr(2) Constant Clamp_id [of sz d] size_order(2,3) [of sz] by (auto simp: not_infinite rank_max_def)
    qed (use const(1) c in \<open>auto simp: not_infinite rank_max_def\<close>)
  qed
  then show "\<not> IsInfinity m" "m = range_max r \<or> rank_max sz m < rank_max sz (range_max r)" by blast+
qed

lemma Equals_boundary_refl: "Equals_boundary g b b = Some eq \<Longrightarrow> eq"
  by (cases b) (auto simp: Equals_boundary_def DependOnSameSymbol_def AreEqualDefinitions_def IsInfinity_def IsNegativeInfinity_def
      IsPositiveInfinity_def Option.bind_eq_Some_conv)

lemma Equals_range_refl: "Equals_range g r (Some r) = Some eq \<Longrightarrow> eq"
  by (auto simp: Equals_range_def Option.bind_eq_Some_conv split: if_splits dest!: Equals_boundary_refl)

text \<open>The visits of the widening iteration to one phi, each with the graph and the inferred range of that time: the number of visits that
  change its range. Between the visits the graph can change in any way.\<close>

fun phi_changes :: "RangeSize \<Rightarrow> Range \<Rightarrow> (flow_graph \<times> Range option) list \<Rightarrow> nat option" where
  "phi_changes sz r [] = Some 0"
| "phi_changes sz r ((g, new) # visits) =
     do {
       (res, changed) \<leftarrow> RangeAnalysis_InferRange g WIDEN (Some sz) (Some r) new;
       n \<leftarrow> phi_changes sz (the res) visits;
       Some (if changed then n + 1 else n)
     }"

definition range_rank :: "RangeSize \<Rightarrow> Range \<Rightarrow> nat" where
  "range_rank sz r = rank_min sz (range_min r) + rank_max sz (range_max r)"

lemma widening_rank:
  assumes "RangeAnalysis_InferRange g WIDEN (Some sz) (Some r) new = Some (res, changed)" "\<not> IsUnknown (range_min r)"
  shows "\<exists>r'. res = Some r' \<and> \<not> IsUnknown (range_min r') \<and> (if changed then range_rank sz r' < range_rank sz r else r' = r)"
proof (cases changed)
  case False
  then show ?thesis using assms by (auto simp: RangeAnalysis_InferRange_def Range_IsUnknown_def Option.bind_eq_Some_conv split: if_splits)
next
  case True
  then obtain n mn mx where w: "WidenMin g r n sz = Some mn" "WidenMax g r n sz = Some mx" "Equals_range g (mk_Range mn mx) (Some r) = Some False" "res = Some (mk_Range mn mx)"
    using assms by (auto simp: RangeAnalysis_InferRange_def Range_IsUnknown_def Option.bind_eq_Some_conv split: if_splits option.splits)
  have m: "mk_Range mn mx = \<lparr>range_min = mn, range_max = mx\<rparr>" using WidenMin_rank(1) [OF w(1)] WidenMax_rank(1) [OF w(2)] by (simp add: mk_Range_def)
  have "\<not> (mn = range_min r \<and> mx = range_max r)" using w(3) Equals_range_refl [of g "\<lparr>range_min = mn, range_max = mx\<rparr>" False] unfolding m by (cases r) auto
  then have "range_rank sz (mk_Range mn mx) < range_rank sz r"
    unfolding m range_rank_def using WidenMin_rank(2) [OF w(1)] WidenMax_rank(2) [OF w(2)] by auto
  moreover have "\<not> IsUnknown mn" using WidenMin_rank(2) [OF w(1)] assms(2) by (cases mn) (auto simp: rank_min_def split: RangeBoundary.splits if_splits)
  ultimately show ?thesis using True w(4) m by simp
qed

lemma phi_changes_rank: "phi_changes sz r visits = Some n \<Longrightarrow> \<not> IsUnknown (range_min r) \<Longrightarrow> n \<le> range_rank sz r"
proof (induction visits arbitrary: r n)
  case (Cons v visits)
  obtain g new where v: "v = (g, new)" by (cases v)
  obtain res ch k where k: "RangeAnalysis_InferRange g WIDEN (Some sz) (Some r) new = Some (res, ch)" "phi_changes sz (the res) visits = Some k" "n = (if ch then k + 1 else k)"
    using Cons.prems(1) unfolding v by (auto simp: Option.bind_eq_Some_conv)
  then obtain r' where "res = Some r'" "\<not> IsUnknown (range_min r')" "if ch then range_rank sz r' < range_rank sz r else r' = r"
    using widening_rank [OF k(1) Cons.prems(2)] by blast
  then show ?case using Cons.IH [of r' k] k by (auto split: if_splits)
qed simp

text \<open>C29. Widening ends: however often the iteration visits a phi with a known range, and whatever the graph and the inferred
  ranges are at these visits, the range of the phi changes at most six times.\<close>

theorem widening_ends:
  assumes "phi_changes sz r visits = Some n" "\<not> IsUnknown (range_min r)"
  shows "n \<le> 6"
proof -
  have "rank_min sz b \<le> 3" "rank_max sz b \<le> 3" for b by (auto simp: rank_min_def rank_max_def split: RangeBoundary.splits)
  then have "range_rank sz r \<le> 3 + 3" unfolding range_rank_def by (intro add_mono)
  then show ?thesis using phi_changes_rank [OF assms] by simp
qed

theorem widening_ends_witness:
  "phi_changes kRangeBoundarySmi (mk_Range (Constant 0) (Constant 0))
     [(example_graph, Some (mk_Range (Constant 0) (Constant 1))), (example_graph, Some (mk_Range (Constant 0) (Constant 2)))] = Some 1 \<and> (1::nat) \<le> 6"
proof -
  have e: "phi_changes kRangeBoundarySmi (mk_Range (Constant 0) (Constant 0))
     [(example_graph, Some (mk_Range (Constant 0) (Constant 1))), (example_graph, Some (mk_Range (Constant 0) (Constant 2)))] = Some 1" by code_simp
  show ?thesis using widening_ends [OF e] e by (simp add: mk_Range_def not_infinite)
qed

section \<open>Following symbols ends on acyclic graphs\<close>

text \<open>
  \<open>ranked\<close>: the inputs of a constraint and of a Smi operation, and the symbols in the range of a definition, have smaller numbers
  than the definition itself, and no range of the graph is unknown.
\<close>

definition below_rank :: "(defn \<Rightarrow> nat) \<Rightarrow> defn \<Rightarrow> RangeBoundary \<Rightarrow> bool" where
  "below_rank rk d b \<longleftrightarrow> (case b of Symbol d' _ \<Rightarrow> rk d' < rk d | Unknown \<Rightarrow> False | _ \<Rightarrow> True)"

definition ranked :: "flow_graph \<Rightarrow> (defn \<Rightarrow> nat) \<Rightarrow> bool" where
  "ranked g rk \<longleftrightarrow>
     (\<forall>d. (case node g d of Constraint d' \<Rightarrow> rk d' < rk d | BinarySmiOp _ l r \<Rightarrow> rk l < rk d \<and> rk r < rk d | _ \<Rightarrow> True) \<and>
          (\<forall>r. defn_range g d = Some r \<longrightarrow> below_rank rk d (range_min r) \<and> below_rank rk d (range_max r)))"

definition boundary_rank :: "(defn \<Rightarrow> nat) \<Rightarrow> RangeBoundary \<Rightarrow> nat" where
  "boundary_rank rk b = (case b of Symbol d _ \<Rightarrow> Suc (rk d) | _ \<Rightarrow> 0)"

lemma rankedD:
  assumes "ranked g rk"
  shows "node g d = Constraint d' \<Longrightarrow> rk d' < rk d" "node g d = BinarySmiOp op l r \<Longrightarrow> rk l < rk d \<and> rk r < rk d"
    "defn_range g d = Some rng \<Longrightarrow> below_rank rk d (range_min rng) \<and> below_rank rk d (range_max rng)"
  using assms by (auto simp: ranked_def split: Definition.splits)

lemma below_rankD: "below_rank rk d b \<Longrightarrow> boundary_rank rk b \<le> rk d \<and> \<not> IsUnknown b"
  by (cases b) (auto simp: below_rank_def boundary_rank_def)

lemma LowerBound_total: "ranked g rk \<Longrightarrow> \<not> IsUnknown b \<Longrightarrow> \<exists>lb. LowerBound g b = Some lb"
proof (induction "boundary_rank rk b" arbitrary: b rule: less_induct)
  case less
  show ?case
  proof (cases b)
    case (Symbol d offs)
    have "\<exists>lb. LowerBound g (range_min r) = Some lb" if "defn_range g d = Some r" for r
      using less below_rankD rankedD(3) [OF less.prems(1) that] Symbol by (auto simp: boundary_rank_def [of _ "Symbol _ _"] less_Suc_eq_le)
    then show ?thesis unfolding Symbol by (subst LowerBound.simps) (auto split: option.splits)
  qed (use less.prems in \<open>auto simp: LowerBound.simps\<close>)
qed

lemma UpperBound_total: "ranked g rk \<Longrightarrow> \<not> IsUnknown b \<Longrightarrow> \<exists>ub. UpperBound g b = Some ub"
proof (induction "boundary_rank rk b" arbitrary: b rule: less_induct)
  case less
  show ?case
  proof (cases b)
    case (Symbol d offs)
    have "\<exists>ub. UpperBound g (range_max r) = Some ub" if "defn_range g d = Some r" for r
      using less below_rankD rankedD(3) [OF less.prems(1) that] Symbol by (auto simp: boundary_rank_def [of _ "Symbol _ _"] less_Suc_eq_le)
    then show ?thesis unfolding Symbol by (subst UpperBound.simps) (auto split: option.splits)
  qed (use less.prems in \<open>auto simp: UpperBound.simps\<close>)
qed

lemma UnwrapConstraint_total: "ranked g rk \<Longrightarrow> \<exists>u. UnwrapConstraint g d = Some u"
proof (induction "rk d" arbitrary: d rule: less_induct)
  case less
  then show ?case using rankedD(1) [OF less.prems] by (subst UnwrapConstraint.simps) (auto split: Definition.splits)
qed

lemma DependOnSameSymbol_total:
  assumes "ranked g rk"
  shows "\<exists>s. DependOnSameSymbol g a b = Some s"
proof (cases "IsSymbol a \<and> IsSymbol b")
  case True
  then obtain da oa db ob where s: "a = Symbol da oa" "b = Symbol db ob" by (cases a; cases b) auto
  obtain ua ub where "UnwrapConstraint g da = Some ua" "UnwrapConstraint g db = Some ub" using UnwrapConstraint_total [OF assms] by blast
  then show ?thesis unfolding s by (simp add: DependOnSameSymbol_def AreEqualDefinitions_def)
next
  case False
  then have "DependOnSameSymbol g a b = Some False" by (cases a; cases b) (simp_all add: DependOnSameSymbol_def)
  then show ?thesis by blast
qed

lemma CanonicalizeBoundary_body_rank:
  assumes "ranked g rk" "CanonicalizeBoundary_body g d offs = Some (d', offs', ch)"
  shows "ch \<Longrightarrow> rk d' < rk d" "\<not> ch \<Longrightarrow> d' = d"
  using assms(2) rankedD(1,2) [OF assms(1), of d]
  by (auto simp: CanonicalizeBoundary_body_def split: Definition.splits TokenKind.splits if_splits)

lemma CanonicalizeBoundary_loop_total:
  "ranked g rk \<Longrightarrow> \<exists>res. CanonicalizeBoundary_loop g d offs = Some res \<and> (\<forall>d' o'. res = Some (d', o') \<longrightarrow> rk d' \<le> rk d)"
proof (induction "rk d" arbitrary: d offs rule: less_induct)
  case less
  show ?case
  proof (cases "CanonicalizeBoundary_body g d offs")
    case None
    then show ?thesis by (subst CanonicalizeBoundary_loop.simps) simp
  next
    case (Some p)
    then obtain d1 o1 ch where b: "CanonicalizeBoundary_body g d offs = Some (d1, o1, ch)" by (cases p) auto
    show ?thesis
    proof (cases ch)
      case True
      then have "rk d1 < rk d" using CanonicalizeBoundary_body_rank(1) [OF less.prems b] by simp
      then show ?thesis using less.hyps [of d1 o1] less.prems b True by (subst CanonicalizeBoundary_loop.simps) (auto intro: order.trans less_imp_le)
    next
      case False
      then show ?thesis using b CanonicalizeBoundary_body_rank(2) [OF less.prems b] by (subst CanonicalizeBoundary_loop.simps) auto
    qed
  qed
qed

lemma FromDefinition_rank: "boundary_rank rk (FromDefinition g d offs) \<le> Suc (rk d)" "\<not> IsUnknown (FromDefinition g d offs)"
  by (auto simp: FromDefinition_def boundary_rank_def split: Definition.splits)

lemma CanonicalizeBoundary_total:
  assumes "ranked g rk" "\<not> IsUnknown a" "IsInfinity ovf"
  shows "\<exists>b. CanonicalizeBoundary g a ovf = Some b \<and> boundary_rank rk b \<le> boundary_rank rk a"
proof (cases a)
  case (Symbol d offs)
  obtain res where r: "CanonicalizeBoundary_loop g d offs = Some res" "\<forall>d' o'. res = Some (d', o') \<longrightarrow> rk d' \<le> rk d"
    using CanonicalizeBoundary_loop_total [OF assms(1)] by blast
  have "boundary_rank rk ovf = 0" using assms(3) by (auto simp: boundary_rank_def IsInfinity_def IsNegativeInfinity_def IsPositiveInfinity_def)
  then show ?thesis unfolding Symbol using r FromDefinition_rank(1) [of rk g]
    by (auto simp: CanonicalizeBoundary_def boundary_rank_def [of _ "Symbol _ _"] split: option.splits intro: order.trans)
qed (use assms in \<open>auto simp: CanonicalizeBoundary_def\<close>)

text \<open>A step either keeps the boundary or lowers its rank; what is said of one side of the ranges holds for both.\<close>

lemma Canonicalize_step_total:
  assumes k: "ranked g rk" and s: "\<And>d r. defn_range g d = Some r \<Longrightarrow> below_rank rk d (side r)" and i: "IsInfinity ovf"
  shows "\<exists>b ch. Canonicalize_step side ovf g a = Some (b, ch) \<and> (if ch then boundary_rank rk b < boundary_rank rk a else b = a)"
proof (cases "\<exists>d offs r d' offs'. a = Symbol d offs \<and> defn_range g d = Some r \<and> side r = Symbol d' offs'")
  case False
  then show ?thesis by (auto simp: Canonicalize_step_def split: RangeBoundary.splits option.splits)
next
  case True
  then obtain d offs r d' offs' where a: "a = Symbol d offs" "defn_range g d = Some r" "side r = Symbol d' offs'" by blast
  have d: "rk d' < rk d" using s [OF a(2)] a(3) by (simp add: below_rank_def)
  have "boundary_rank rk ovf < boundary_rank rk a" using i a by (auto simp: boundary_rank_def IsInfinity_def IsNegativeInfinity_def IsPositiveInfinity_def)
  moreover obtain b where "CanonicalizeBoundary g (FromDefinition g d' (offs' + offs)) ovf = Some b" "boundary_rank rk b \<le> Suc (rk d')"
    using CanonicalizeBoundary_total [OF k FromDefinition_rank(2) i] FromDefinition_rank(1) order.trans by blast
  ultimately show ?thesis using a d by (auto simp: Canonicalize_step_def Let_def boundary_rank_def [of _ "Symbol _ _"])
qed

lemma Canonicalize_Max_Min_total:
  assumes "ranked g rk"
  shows "\<exists>b ch. CanonicalizeMaxBoundary g a = Some (b, ch) \<and> (if ch then boundary_rank rk b < boundary_rank rk a else b = a)"
    "\<exists>b ch. CanonicalizeMinBoundary g a = Some (b, ch) \<and> (if ch then boundary_rank rk b < boundary_rank rk a else b = a)"
  unfolding CanonicalizeMaxBoundary_def CanonicalizeMinBoundary_def
  by (rule Canonicalize_step_total [OF assms]; simp add: rankedD(3) [OF assms] IsInfinity_def IsPositiveInfinity_def IsNegativeInfinity_def)+

lemma Canonicalize_loop_total:
  assumes k: "ranked g rk"
    and a: "\<And>x. \<exists>y ch. opa x = Some (y, ch) \<and> (if ch then boundary_rank rk y < boundary_rank rk x else y = x)"
    and b: "\<And>x. \<exists>y ch. opb x = Some (y, ch) \<and> (if ch then boundary_rank rk y < boundary_rank rk x else y = x)"
  shows "\<exists>res. Canonicalize_loop opa opb g x y = Some res"
proof (induction "boundary_rank rk x + boundary_rank rk y" arbitrary: x y rule: less_induct)
  case less
  obtain same where same: "DependOnSameSymbol g x y = Some same" using DependOnSameSymbol_total [OF k] by blast
  obtain x' ch where x: "opa x = Some (x', ch)" "if ch then boundary_rank rk x' < boundary_rank rk x else x' = x" using a by blast
  obtain y' ch' where y: "opb y = Some (y', ch')" "if ch' then boundary_rank rk y' < boundary_rank rk y else y' = y" using b by blast
  have "ch \<Longrightarrow> \<exists>res. Canonicalize_loop opa opb g x' y = Some res" "\<not> ch \<Longrightarrow> ch' \<Longrightarrow> \<exists>res. Canonicalize_loop opa opb g x' y' = Some res"
    using x(2) y(2) by (auto intro!: less)
  then show ?case using same x(1) y(1) by (subst Canonicalize_loop.simps) auto
qed

lemma IsRedundant_range_total:
  assumes k: "ranked g rk" and r: "\<not> IsUnknown (range_min r)" and l: "\<not> IsUnknown len"
  shows "\<exists>res. IsRedundant_range g index r len = Some res"
proof -
  obtain lr where "LowerBound g (range_min r) = Some lr" using LowerBound_total [OF k r] by blast
  moreover obtain ub where "UpperBound g (FromDefinition g index 0) = Some ub" using UpperBound_total [OF k FromDefinition_rank(2)] by blast
  moreover obtain lb where "LowerBound g len = Some lb" using LowerBound_total [OF k l] by blast
  moreover obtain c where "CanonicalizeBoundary g len PositiveInfinity = Some c"
    using CanonicalizeBoundary_total [OF k l, of PositiveInfinity] by (auto simp: IsInfinity_def IsPositiveInfinity_def)
  moreover obtain f where "Canonicalize_loop (CanonicalizeMaxBoundary g) (CanonicalizeMinBoundary g) g (FromDefinition g index 0) c = Some f"
    using Canonicalize_loop_total [OF k Canonicalize_Max_Min_total [OF k]] by blast
  ultimately have "IsRedundant_range g index r len \<noteq> None" by (auto simp: IsRedundant_range_def ConstantMin_def Let_def)
  then show ?thesis by blast
qed

text \<open>C28. Deciding whether a bounds check is redundant ends: on a graph whose constraints, Smi operations and symbolic ranges
  have no cycle, \<open>IsRedundant\<close> gives an answer for every index and length.\<close>

theorem IsRedundant_terminates:
  assumes "ranked g rk" "\<not> IsUnknown len"
  shows "\<exists>res g'. IsRedundant g index len = Some (res, g')"
proof (cases "defn_range g index")
  case (Some r)
  then have "\<not> IsUnknown (range_min r)" using rankedD(3) [OF assms(1)] below_rankD by blast
  then obtain res where "IsRedundant_range g index r len = Some res" using IsRedundant_range_total [OF assms(1) _ assms(2)] by blast
  then show ?thesis using Some by (simp add: IsRedundant_def)
next
  case None
  show ?thesis
  proof (cases "node g index")
    case (ConstantSmi c)
    define r where "r = mk_Range (Constant c) (Constant c)"
    define h where "h = g\<lparr>defn_range := (defn_range g)(index := Some r)\<rparr>"
    have r: "range_min r = Constant c" "range_max r = Constant c" by (simp_all add: r_def mk_Range_def not_infinite)
    then have "ranked h rk" using assms(1) by (auto simp: ranked_def h_def below_rank_def)
    then obtain res where "IsRedundant_range h index r len = Some res" using IsRedundant_range_total [of h rk r len index] r assms(2) by auto
    then show ?thesis using None ConstantSmi by (simp add: IsRedundant_def r_def h_def)
  qed (use None in \<open>auto simp: IsRedundant_def\<close>)
qed

theorem IsRedundant_terminates_witness: "\<exists>res g'. IsRedundant example_graph 2 (Symbol 1 0) = Some (res, g')"
proof (rule IsRedundant_terminates)
  show "ranked example_graph id"
    by (auto simp: ranked_def example_graph_def mk_Range_def below_rank_def IsInfinity_def IsNegativeInfinity_def IsPositiveInfinity_def)
qed simp

end
