(* ===== verification/Spec2Isabelle.thy ===== *)
theory Spec2Isabelle
  imports Arm64_BranchExec Arm64_Integer Arm64_Memory Arm64_Call Range_Fixpoint
begin

text \<open>
  \<^bold>\<open>A verification of parts of the Dart virtual machine\<close>

  The development is about three parts of the VM under \<^verbatim>\<open>src/runtime\<close>: the arithmetic helpers that
  everything uses, the ARM64 back end from the assembler to the instruction simulator, and the
  integer range analysis of the optimizing compiler. The assembler turns calls such as
  \<open>LoadImmediate\<close> into instruction words and patches branches when their label is bound; the simulator
  runs such words on a host that is not ARM64; the range analysis decides before code generation
  which array bounds checks are left out. The assembler and the range analysis call the helpers.

  \<^bold>\<open>Shared theories.\<close> \<^verbatim>\<open>Prelude\<close> has the integer types, the error monad and facts on words.
  \<^verbatim>\<open>Utils\<close> models \<^verbatim>\<open>platform/utils.h\<close> and \<^verbatim>\<open>utils.cc\<close>: alignment, powers of two, bit
  counting, overflow tests, SLEB128 numbers (with the encoder of \<^verbatim>\<open>vm/object.cc\<close>). It shows that decoding inverts
  encoding at any position of a buffer, that the overflow tests are exact, what rounding to a power of two gives for every argument, and bounds for alignment and the highest bit.

  \<^bold>\<open>The ARM64 instruction set and simulator.\<close> \<^verbatim>\<open>Arm64_Instr\<close> has the enums, masks and field accessors of
  \<^verbatim>\<open>vm/constants_arm64.h\<close>. The record \<open>sim\<close> of \<^verbatim>\<open>Arm64_State\<close> is the state of class \<open>Simulator\<close>
  of \<^verbatim>\<open>vm/simulator_arm64.cc\<close>: registers, V registers, flags, program counter, exclusive monitor and the bytes of
  memory. \<^verbatim>\<open>Arm64_DPImm\<close>, \<^verbatim>\<open>Arm64_Branch\<close>, \<^verbatim>\<open>Arm64_DPReg\<close>, \<^verbatim>\<open>Arm64_LoadStore\<close> and
  \<^verbatim>\<open>Arm64_FP\<close> have its decoders, one definition per \<open>Decode\<close> method; \<^verbatim>\<open>Arm64_Simulator\<close> has \<open>InstructionDecode\<close>,
  \<open>Execute\<close> and \<open>Call\<close>. What ends a run in the code (an illegal address, an
  unimplemented instruction, a stop) is a value of type \<open>fault\<close>. \<open>Execute\<close> may run forever and is a partial function.
  The arithmetic of the host on floating-point numbers and the C++ functions reached through redirected calls are parameters.

  \<^bold>\<open>The ARM64 assembler.\<close> \<^verbatim>\<open>Arm64_Assembler\<close> has the operands, addresses, emitters and macro
  instructions of \<^verbatim>\<open>vm/compiler/assembler/assembler_arm64.h\<close> and \<^verbatim>\<open>assembler_arm64.cc\<close>; an
  emitter is the list of words it appends. \<^verbatim>\<open>Arm64_Labels\<close> has \<open>Label\<close>, the branch emitters and \<open>Bind\<close>.

  \<^bold>\<open>From the assembler to the simulator.\<close> \<^verbatim>\<open>Arm64_Codec\<close> decodes what the assembler encodes.
  \<^verbatim>\<open>Arm64_LogicalImm\<close> shows that the encoder of logical immediates is inverted by the decoder and finds an
  encoding exactly when one exists. \<^verbatim>\<open>Arm64_Exec\<close> gives the effect of straight-line code on \<open>Execute\<close>, through a step relation. \<^verbatim>\<open>Arm64_Arith\<close> and \<^verbatim>\<open>Arm64_Macros\<close> show that loading, adding
  and comparing immediates do so when run, \<^verbatim>\<open>Arm64_Memory\<close> the same for loads, stores, pushes and pops, with their
  faults and the exclusive monitor, and \<^verbatim>\<open>Arm64_Integer\<close> for shifts, tagging, two-word addition, products of two words, leading zeros and bit
  fields; the 32-bit \<open>clz\<close>, the 64-bit \<open>ubfx\<close> and \<open>mulw\<close> depart from the instruction set. \<^verbatim>\<open>Arm64_Call\<close> shows what \<open>Call\<close>
  preserves and that it returns. \<^verbatim>\<open>Arm64_Backpatch\<close> shows that one-pass assembly with \<open>Bind\<close> gives the code of a
  two-pass reference, through the locale \<open>branch_form\<close> with its near and far interpretations, and
  \<^verbatim>\<open>Arm64_BranchExec\<close> that the branches so assembled reach their label in the simulator.

  \<^bold>\<open>Range analysis.\<close> \<^verbatim>\<open>Range_Analysis\<close> models boundaries, ranges and the operations on them, constraints,
  joins, widening and narrowing, and \<open>CheckArrayBoundInstr::IsRedundant\<close> of
  \<^verbatim>\<open>vm/compiler/backend/range_analysis.h\<close> and \<^verbatim>\<open>range_analysis.cc\<close>. \<open>flow_graph\<close> is what they read of the graph.
  \<^verbatim>\<open>Range_Sound\<close> says when values of the definitions are \<open>consistent\<close> with a graph and when a range \<open>contains\<close> a value. The values
  are those at one time of a run: a definition that was not reached has none, so the two constraints of a branch need not agree.
  \<^verbatim>\<open>Range_Arith\<close> shows that \<open>BinaryOp\<close> covers the results of the operations. \<^verbatim>\<open>Range_Check\<close> shows that removing
  redundant checks is safe, that constraints are right, that joins are right for constant boundaries and for ranges inhabited at once, and which values a
  join can lose otherwise, that an operation that \<open>InferRangeHelper\<close> marks as not overflowing has its exact result, and that right shifts
  of ranges by 64 or more are undefined; the locale \<open>boundary_side\<close> treats lower and upper boundaries alike.
  \<^verbatim>\<open>Range_Fixpoint\<close> shows that widening and narrowing keep values, that widening ends, and that \<open>IsRedundant\<close> returns on acyclic graphs.

  \<^bold>\<open>Bounds.\<close> Words have the width of the C++ types on a 64-bit target; Smis have 63 bits. Loops that
  the code bounds are total functions. \<open>Execute\<close>, the bounds of symbolic boundaries and the walks along symbols and constraints are
  partial functions with \<^const>\<open>None\<close> for no result; \<open>Call_AddImmediate_returns\<close>, \<open>branch_reaches_label\<close> and
  \<open>IsRedundant_terminates\<close> show that they return. The six changes of \<open>widening_ends\<close> are three
  kinds of change for each of the two boundaries.

  \<^bold>\<open>Assertions and undefined behaviour.\<close> An \<open>ASSERT\<close> is compiled out of release builds and is not a branch of the model; what the
  callers guarantee by it is a hypothesis of the theorems that need it. A shift that C++ leaves undefined is \<^const>\<open>None\<close> in \<open>Shr_boundary\<close>; a shift of 0 is 0 in
  \<open>Shl_boundary\<close> for every count, as the tests of the analysis expect; the negation in \<open>HighestBit\<close> wraps.

  \<^bold>\<open>Not modelled.\<close> Of \<^verbatim>\<open>utils.h\<close>, printing and conversions of doubles. Of the assembler, object pool entries and the loads of large immediates from the pool,
  allocation and write barriers, which depend on the layout of heap objects. Of the simulator, the debugger and tracing. Of the range analysis, the changes to the flow
  graph (inserting constraints, removing and generalizing checks, the selection of 32-bit instructions), the ranges of loads and
  conversions, and induction variables. Other targets repeat the structure of ARM64. The heap, snapshots, isolates, the interpreter, the front end and the other compiler passes
  work on heap objects, threads and flow graphs of the running VM; the embedder is input and output; the core libraries and
  tools are written in Dart.
\<close>

end
